(* ===== verification/Prelude.thy ===== *)
theory Prelude
  imports Complex_Main "HOL-Library.Word" "HOL-Library.Multiset"
begin

text \<open>
  Shared vocabulary of the development: the machine types of the Rust sources,
  saturating arithmetic, the collections of rewrite rules that the component
  theories fill, and the facts on lists and machine words that several
  components use.

  Rust's u64 and u32 are words of that width.  The agent, the controller
  and the fleet manager are built in release mode without overflow checks, so
  \<open>+\<close>, \<open>-\<close> and \<open>*\<close> on them wrap, as the operations of \<open>HOL-Library.Word\<close>
  do.  A Rust \<open>String\<close> is the list of its bytes.  An \<open>Instant\<close> or
  \<open>SystemTime\<close> is a number of nanoseconds that the caller passes in.
\<close>

named_theorems unat_simps \<open>operations and comparisons of machine words as natural numbers\<close>

type_synonym u64 = "64 word"
type_synonym u32 = "32 word"
type_synonym u8 = "8 word"
type_synonym str = string
type_synonym instant = int

datatype rust_panic = DivByZero | IndexOutOfBounds | UnwrapNone

text \<open>\<open>saturating_sub\<close>.\<close>

definition sat_sub :: "'a::len word \<Rightarrow> 'a word \<Rightarrow> 'a word" where
  "sat_sub a b = (if a < b then 0 else a - b)"

text \<open>\<open>unsigned_abs\<close> of an \<open>i64\<close>, which is a 64-bit word read as signed.\<close>

definition i64_unsigned_abs :: "64 word \<Rightarrow> u64" where
  "i64_unsigned_abs w = (if sint w < 0 then - w else w)"

declare word_le_nat_alt [unat_simps] word_less_nat_alt [unat_simps]

lemma unat_sat_sub [unat_simps]: "unat (sat_sub a b) = unat a - unat b"
  by (simp add: sat_sub_def unat_sub not_less word_less_nat_alt word_le_nat_alt)

lemma sat_sub_le: "sat_sub a b \<le> a"
  by (simp add: word_le_nat_alt unat_sat_sub)

lemma sat_sub_plus:
  assumes "b \<le> a"
  shows "b + sat_sub a b = a"
  using leD [OF assms] by (simp add: sat_sub_def)

text \<open>
  The unsigned sum of a list of words is the sum of the unsigned values as long
  as that sum fits the width; without the bound it is that sum modulo the width.
\<close>

lemma unat_sum_list_mod:
  "unat (sum_list ws) = sum_list (map unat ws) mod 2 ^ LENGTH('a)" for ws :: "'a::len word list"
  by (induction ws) (simp_all add: unat_word_ariths mod_simps)

lemma unat_sum_list:
  "sum_list (map unat ws) < 2 ^ LENGTH('a) \<Longrightarrow> unat (sum_list ws) = sum_list (map unat ws)"
  for ws :: "'a::len word list"
  by (simp add: unat_sum_list_mod)

lemma unat_plus_bounded [unat_simps]:
  "unat a + unat b < 2 ^ LENGTH('a) \<Longrightarrow> unat (a + b) = unat a + unat b" for a b :: "'a::len word"
  by (simp add: unat_word_ariths)

lemma unat_plus_le: "unat (a + b) \<le> unat a + unat b" for a b :: "'a::len word"
  by (simp add: unat_word_ariths)

lemma unat_ucast_u64 [unat_simps]: "unat (ucast w :: u64) = unat w" for w :: u32
proof -
  have "unat w < 2 ^ 64" using unsigned_less [where 'a = nat, of w] by simp
  then show ?thesis by (simp add: unsigned_ucast_eq take_bit_nat_eq_self)
qed

lemma sum_list_perm: "mset xs = mset ys \<Longrightarrow> sum_list (map f xs) = sum_list (map f ys)"
  for f :: "'a \<Rightarrow> 'b::comm_monoid_add"
  by (metis mset_map sum_mset_sum_list)

lemma sum_list_le_length:
  "(\<And>x. x \<in> set xs \<Longrightarrow> f x \<le> b) \<Longrightarrow> sum_list (map f xs) \<le> length xs * b" for f :: "'a \<Rightarrow> nat"
  by (induction xs) (auto simp: add_mono)

end
