(* ===== verification/F64.thy ===== *)
theory F64
  imports Prelude
begin

text \<open>
  Rust's \<open>f64\<close>: IEEE 754 binary64 with rounding to nearest, ties to even,
  including subnormals, overflow to infinity and NaN.  A finite value is the
  rational it stands for.  The two zeros are identified: the modelled code never
  divides by a negative zero, so their difference cannot be observed.

  The arithmetic is executable: \<open>rnd\<close> rounds an exact rational by scaling it to
  the unit in the last place of its binade.  The lemmas give what the
  component proofs need: representable values are fixed points, rounding is
  monotone, and its error is at most half a unit in the last place.
\<close>

datatype f64 = NaN | PInf | NInf | Fin rat

fun ilog2_int :: "int \<Rightarrow> int" where
  "ilog2_int n = (if n \<le> 1 then 0 else 1 + ilog2_int (n div 2))"

declare ilog2_int.simps [simp del]

definition ilog2_rat :: "rat \<Rightarrow> int" where
  "ilog2_rat q =
     (let (n, d) = quotient_of q; k = ilog2_int n - ilog2_int d
      in if q < 2 powi k then k - 1 else k)"

definition rne :: "rat \<Rightarrow> int" where
  "rne x =
     (let f = \<lfloor>x\<rfloor>; d = x - of_int f
      in if d < 1 / 2 then f
         else if d > 1 / 2 then f + 1
         else if even f then f else f + 1)"

definition ulp_exp :: "rat \<Rightarrow> int" where
  "ulp_exp q = max (- 1074) (ilog2_rat q - 52)"

definition rnd_pos :: "rat \<Rightarrow> rat" where
  "rnd_pos q = (let e = ulp_exp q in of_int (rne (q / 2 powi e)) * 2 powi e)"

definition overflow_bound :: rat where
  "overflow_bound = 2 powi 1024"

definition overflows :: "rat \<Rightarrow> bool" where
  "overflows r \<longleftrightarrow> overflow_bound \<le> r"

definition rnd :: "rat \<Rightarrow> f64" where
  "rnd q =
     (if q = 0 then Fin 0
      else let r = rnd_pos \<bar>q\<bar>
           in if overflows r then (if q < 0 then NInf else PInf)
              else Fin (sgn q * r))"

fun f64_sgn :: "f64 \<Rightarrow> int" where
  "f64_sgn (Fin q) = (if q < 0 then - 1 else if q = 0 then 0 else 1)"
| "f64_sgn PInf = 1"
| "f64_sgn NInf = - 1"
| "f64_sgn NaN = 0"

fun f64_neg :: "f64 \<Rightarrow> f64" where
  "f64_neg (Fin q) = Fin (- q)"
| "f64_neg PInf = NInf"
| "f64_neg NInf = PInf"
| "f64_neg NaN = NaN"

fun f64_add :: "f64 \<Rightarrow> f64 \<Rightarrow> f64" where
  "f64_add (Fin a) (Fin b) = rnd (a + b)"
| "f64_add NaN _ = NaN"
| "f64_add _ NaN = NaN"
| "f64_add PInf NInf = NaN"
| "f64_add NInf PInf = NaN"
| "f64_add PInf _ = PInf"
| "f64_add _ PInf = PInf"
| "f64_add NInf _ = NInf"
| "f64_add _ NInf = NInf"

fun f64_mul :: "f64 \<Rightarrow> f64 \<Rightarrow> f64" where
  "f64_mul (Fin a) (Fin b) = rnd (a * b)"
| "f64_mul NaN _ = NaN"
| "f64_mul _ NaN = NaN"
| "f64_mul x y =
     (let s = f64_sgn x * f64_sgn y in if s = 0 then NaN else if 0 < s then PInf else NInf)"

fun f64_div :: "f64 \<Rightarrow> f64 \<Rightarrow> f64" where
  "f64_div NaN _ = NaN"
| "f64_div _ NaN = NaN"
| "f64_div (Fin a) (Fin b) =
     (if b = 0 then (if a = 0 then NaN else if 0 < a then PInf else NInf) else rnd (a / b))"
| "f64_div (Fin _) _ = Fin 0"
| "f64_div x (Fin b) = (if b < 0 then f64_neg x else x)"
| "f64_div _ _ = NaN"

fun f64_le :: "f64 \<Rightarrow> f64 \<Rightarrow> bool" where
  "f64_le NaN _ = False"
| "f64_le _ NaN = False"
| "f64_le NInf _ = True"
| "f64_le _ PInf = True"
| "f64_le (Fin a) (Fin b) = (a \<le> b)"
| "f64_le _ _ = False"

fun f64_lt :: "f64 \<Rightarrow> f64 \<Rightarrow> bool" where
  "f64_lt NaN _ = False"
| "f64_lt _ NaN = False"
| "f64_lt (Fin a) (Fin b) = (a < b)"
| "f64_lt NInf y = (y \<noteq> NInf)"
| "f64_lt x PInf = (x \<noteq> PInf)"
| "f64_lt _ _ = False"

instantiation f64 :: "{zero, one, plus, uminus, minus, times, inverse, ord, abs}"
begin
definition zero_f64 :: f64 where "0 = Fin 0"
definition one_f64 :: f64 where "1 = Fin 1"
definition plus_f64 :: "f64 \<Rightarrow> f64 \<Rightarrow> f64" where "x + y = f64_add x y"
definition uminus_f64 :: "f64 \<Rightarrow> f64" where "- x = f64_neg x"
definition minus_f64 :: "f64 \<Rightarrow> f64 \<Rightarrow> f64" where "x - y = f64_add x (f64_neg y)"
definition times_f64 :: "f64 \<Rightarrow> f64 \<Rightarrow> f64" where "x * y = f64_mul x y"
definition divide_f64 :: "f64 \<Rightarrow> f64 \<Rightarrow> f64" where "x div y = f64_div x y"
definition inverse_f64 :: "f64 \<Rightarrow> f64" where "inverse x = f64_div (Fin 1) x"
definition less_eq_f64 :: "f64 \<Rightarrow> f64 \<Rightarrow> bool" where "x \<le> y = f64_le x y"
definition less_f64 :: "f64 \<Rightarrow> f64 \<Rightarrow> bool" where "x < y = f64_lt x y"
definition abs_f64 :: "f64 \<Rightarrow> f64" where "\<bar>x\<bar> = (if f64_lt x (Fin 0) then f64_neg x else x)"
instance ..
end

definition f64_of_u64 :: "u64 \<Rightarrow> f64" where
  "f64_of_u64 w = rnd (of_int (uint w))"

definition f64_to_u64 :: "f64 \<Rightarrow> u64" where
  "f64_to_u64 x =
     (case x of NaN \<Rightarrow> 0 | NInf \<Rightarrow> 0 | PInf \<Rightarrow> - 1
      | Fin q \<Rightarrow> if q \<le> 0 then 0 else if 2 ^ 64 \<le> q then - 1 else word_of_int \<lfloor>q\<rfloor>)"

definition f64_of_u32 :: "u32 \<Rightarrow> f64" where
  "f64_of_u32 w = rnd (of_int (uint w))"

definition f64_to_u32 :: "f64 \<Rightarrow> u32" where
  "f64_to_u32 x =
     (case x of NaN \<Rightarrow> 0 | NInf \<Rightarrow> 0 | PInf \<Rightarrow> - 1
      | Fin q \<Rightarrow> if q \<le> 0 then 0 else if 2 ^ 32 \<le> q then - 1 else word_of_int \<lfloor>q\<rfloor>)"

text \<open>\<open>Iterator::sum\<close> over f64 folds from the left; \<open>powi(2)\<close> is one multiplication.\<close>

definition f64_sum :: "f64 list \<Rightarrow> f64" where
  "f64_sum xs = foldl (+) (Fin 0) xs"

definition f64_sq :: "f64 \<Rightarrow> f64" where
  "f64_sq x = x * x"

text \<open>A decimal literal is rounded to the nearest double by the compiler.\<close>

definition f64_lit :: "rat \<Rightarrow> f64" where
  "f64_lit q = rnd q"

text \<open>Representability is a predicate of the proofs only.\<close>

definition repr :: "rat \<Rightarrow> bool" where
  "repr q \<longleftrightarrow> (\<exists>m e. q = of_int m * 2 powi e \<and> \<bar>m\<bar> < 2 ^ 53 \<and> - 1074 \<le> e \<and> e \<le> 971)"

definition on_grid :: "rat \<Rightarrow> bool" where
  "on_grid q \<longleftrightarrow> (\<exists>m. q = of_int m * 2 powi (- 1074))"

text \<open>
  \<open>bounded_f64 k x\<close>: \<open>x\<close> is a finite double between 0 and \<open>2\<^sup>k\<close>.
\<close>

definition bounded_f64 :: "int \<Rightarrow> f64 \<Rightarrow> bool" where
  "bounded_f64 k x \<longleftrightarrow> (\<exists>q. x = Fin q \<and> 0 \<le> q \<and> q \<le> 2 powi k \<and> repr q)"

subsection \<open>Binary logarithm and powers of two\<close>

lemma ilog2_int_bounds:
  "0 < n \<Longrightarrow> 0 \<le> ilog2_int n \<and> 2 ^ nat (ilog2_int n) \<le> n \<and> n < 2 ^ nat (ilog2_int n + 1)"
proof (induction n rule: ilog2_int.induct)
  case (1 n)
  show ?case
  proof (cases "n \<le> 1")
    case True
    with "1.prems" have "n = 1" by simp
    then show ?thesis by (simp add: ilog2_int.simps)
  next
    case False
    let ?k = "ilog2_int (n div 2)"
    from False have pos: "0 < n div 2" by simp
    from "1.IH" [OF False pos] have k: "0 \<le> ?k" "2 ^ nat ?k \<le> n div 2" "n div 2 < 2 ^ nat (?k + 1)"
      by auto
    have e: "ilog2_int n = 1 + ?k" using False by (simp add: ilog2_int.simps [of n])
    have n1: "nat (1 + ?k) = Suc (nat ?k)" "nat (?k + 1) = Suc (nat ?k)" "nat (1 + ?k + 1) = Suc (Suc (nat ?k))"
      using k(1) by auto
    have "2 * 2 ^ nat ?k \<le> n" using k(2) by linarith
    moreover have "n < 2 * (2 * 2 ^ nat ?k)" using k(3) unfolding n1 by simp
    ultimately show ?thesis using k(1) by (simp only: e n1) simp
  qed
qed

lemma pow2_pos [simp]: "(0::rat) < 2 powi e"
  by simp

lemma pow2_nat: "0 \<le> e \<Longrightarrow> (2::rat) powi e = of_int (2 ^ nat e)"
  by (simp add: power_int_def)

lemma pow2_add: "(2::rat) powi (a + b) = 2 powi a * 2 powi b"
  by (simp add: power_int_add)

lemma pow2_diff: "(2::rat) powi (a - b) = 2 powi a / 2 powi b"
  by (simp add: power_int_diff)

lemma pow2_mono: "a \<le> b \<Longrightarrow> (2::rat) powi a \<le> 2 powi b"
  by (simp add: power_int_increasing)

lemma pow2_less: "a < b \<Longrightarrow> (2::rat) powi a < 2 powi b"
  by (simp add: power_int_strict_increasing)

lemma ilog2_rat_bounds:
  assumes "0 < q"
  shows "2 powi (ilog2_rat q) \<le> q" and "q < 2 powi (ilog2_rat q + 1)"
proof -
  obtain n d where nd: "quotient_of q = (n, d)" by (cases "quotient_of q")
  have d: "0 < d" using nd by (rule quotient_of_denom_pos)
  have q: "q = of_int n / of_int d" using nd by (rule quotient_of_div)
  have n: "0 < n" using assms d by (simp add: q zero_less_divide_iff)
  let ?a = "ilog2_int n" and ?b = "ilog2_int d"
  have a: "0 \<le> ?a" "2 powi ?a \<le> (of_int n :: rat)" "(of_int n :: rat) < 2 powi (?a + 1)"
    using ilog2_int_bounds [OF n] by (simp_all add: pow2_nat del: of_int_power of_int_numeral)
  have b: "0 \<le> ?b" "2 powi ?b \<le> (of_int d :: rat)" "(of_int d :: rat) < 2 powi (?b + 1)"
    using ilog2_int_bounds [OF d] by (simp_all add: pow2_nat del: of_int_power of_int_numeral)
  have dp: "(0::rat) < of_int d" using d by simp
  have up: "q < 2 powi (?a - ?b + 1)"
  proof -
    have "of_int n < 2 powi (?a - ?b + 1) * (2 powi ?b :: rat)"
      using a(3) by (simp add: pow2_add [symmetric] algebra_simps)
    also have "\<dots> \<le> 2 powi (?a - ?b + 1) * of_int d" using b(2) by simp
    finally show ?thesis using dp by (simp add: q divide_less_eq)
  qed
  have lo: "2 powi (?a - ?b - 1) \<le> q"
  proof -
    have "2 powi (?a - ?b - 1) * of_int d \<le> 2 powi (?a - ?b - 1) * (2 powi (?b + 1) :: rat)"
      using b(3) by simp
    also have "\<dots> = 2 powi ?a" by (simp add: pow2_add [symmetric])
    finally show ?thesis using a(2) dp by (simp add: q le_divide_eq)
  qed
  show "2 powi (ilog2_rat q) \<le> q" and "q < 2 powi (ilog2_rat q + 1)"
    using up lo by (auto simp: ilog2_rat_def nd Let_def not_less)
qed

subsection \<open>Rounding\<close>

lemma overflows_code [code]: "overflows r \<longleftrightarrow> 0 < r \<and> 1024 \<le> ilog2_rat r"
proof (cases "0 < r")
  case True
  note b = ilog2_rat_bounds [OF True]
  have "2 powi 1024 \<le> r \<longleftrightarrow> 1024 \<le> ilog2_rat r"
  proof
    assume "2 powi 1024 \<le> r"
    with b(2) have "2 powi 1024 < (2 powi (ilog2_rat r + 1) :: rat)" by (rule order_le_less_trans [rotated])
    then show "1024 \<le> ilog2_rat r" using pow2_mono [of "ilog2_rat r + 1" 1024] by linarith
  next
    assume "1024 \<le> ilog2_rat r"
    from pow2_mono [OF this] b(1) show "2 powi 1024 \<le> r" by (rule order_trans)
  qed
  with True show ?thesis by (simp only: overflows_def overflow_bound_def simp_thms)
next
  case False
  moreover have "0 < overflow_bound" unfolding overflow_bound_def by (rule pow2_pos)
  ultimately show ?thesis by (simp add: overflows_def)
qed

lemma rne_of_int [simp]: "rne (of_int n) = n"
  by (simp add: rne_def)

lemma rne_error: "\<bar>of_int (rne x) - x\<bar> \<le> 1 / 2"
proof -
  have "of_int \<lfloor>x\<rfloor> \<le> x" "x < of_int \<lfloor>x\<rfloor> + 1" by linarith+
  moreover consider "x - of_int \<lfloor>x\<rfloor> < 1 / 2" | "1 / 2 < x - of_int \<lfloor>x\<rfloor>"
    | "x - of_int \<lfloor>x\<rfloor> = 1 / 2"
    by linarith
  ultimately show ?thesis
    by cases (auto simp: rne_def Let_def abs_le_iff algebra_simps)
qed

lemma rne_mono:
  assumes "x \<le> y"
  shows "rne x \<le> rne y"
proof -
  have f: "\<lfloor>x\<rfloor> \<le> \<lfloor>y\<rfloor>" using assms by (rule floor_mono)
  show ?thesis
  proof (cases "\<lfloor>x\<rfloor> = \<lfloor>y\<rfloor>")
    case True
    then show ?thesis using assms by (auto simp: rne_def Let_def)
  next
    case False
    with f have "\<lfloor>x\<rfloor> + 1 \<le> \<lfloor>y\<rfloor>" by simp
    moreover have "rne x \<le> \<lfloor>x\<rfloor> + 1" "\<lfloor>y\<rfloor> \<le> rne y" by (auto simp: rne_def Let_def)
    ultimately show ?thesis by linarith
  qed
qed

lemma rne_le_int: "x \<le> of_int n \<Longrightarrow> rne x \<le> n"
  using rne_mono [of x "of_int n"] by simp

lemma rne_ge_int: "of_int n \<le> x \<Longrightarrow> n \<le> rne x"
  using rne_mono [of "of_int n" x] by simp

lemma rne_nonneg: "0 \<le> x \<Longrightarrow> 0 \<le> rne x"
  using rne_ge_int [of 0 x] by simp


lemma rnd_pos_binade:
  assumes "0 < q"
  shows "q < 2 powi (ulp_exp q + 53)"
    and "ulp_exp q \<noteq> - 1074 \<Longrightarrow> 2 powi (ulp_exp q + 52) \<le> q"
proof -
  have "q < 2 powi (ilog2_rat q + 1)" using ilog2_rat_bounds(2) [OF assms] .
  also have "\<dots> \<le> 2 powi (ulp_exp q + 53)" by (rule pow2_mono) (simp add: ulp_exp_def)
  finally show "q < 2 powi (ulp_exp q + 53)" .
  show "2 powi (ulp_exp q + 52) \<le> q" if "ulp_exp q \<noteq> - 1074"
    using that ilog2_rat_bounds(1) [OF assms] by (auto simp: ulp_exp_def max_def split: if_splits)
qed

lemma rnd_pos_nonneg: "0 \<le> q \<Longrightarrow> 0 \<le> rnd_pos q"
  by (simp add: rnd_pos_def Let_def rne_nonneg)

lemma rnd_pos_error: "\<bar>rnd_pos q - q\<bar> \<le> 2 powi (ulp_exp q - 1)"
proof -
  let ?u = "2 powi (ulp_exp q) :: rat"
  have "\<bar>rnd_pos q - q\<bar> = \<bar>of_int (rne (q / ?u)) - q / ?u\<bar> * ?u"
  proof -
    have "rnd_pos q - q = (of_int (rne (q / ?u)) - q / ?u) * ?u"
      by (simp add: rnd_pos_def Let_def left_diff_distrib)
    then show ?thesis by (simp add: abs_mult)
  qed
  also have "\<dots> \<le> 1 / 2 * ?u" by (rule mult_right_mono [OF rne_error]) simp
  also have "\<dots> = 2 powi (ulp_exp q - 1)" by (simp add: pow2_diff)
  finally show ?thesis .
qed

lemma rnd_pos_le_pow:
  assumes "0 < q" and "q \<le> 2 powi k" and "ulp_exp q \<le> k"
  shows "rnd_pos q \<le> 2 powi k"
proof -
  let ?e = "ulp_exp q"
  have "q / 2 powi ?e \<le> of_int (2 ^ nat (k - ?e))"
    using assms(2,3) by (simp add: divide_le_eq pow2_nat [symmetric] pow2_add [symmetric] del: of_int_power)
  then have "rne (q / 2 powi ?e) \<le> 2 ^ nat (k - ?e)" by (rule rne_le_int)
  then have "of_int (rne (q / 2 powi ?e)) * 2 powi ?e \<le> (of_int (2 ^ nat (k - ?e)) * 2 powi ?e :: rat)"
    by (intro mult_right_mono) (simp_all only: of_int_le_iff, simp)
  also have "\<dots> = 2 powi k"
    using assms(3) by (simp add: pow2_nat [symmetric] pow2_add [symmetric] del: of_int_power)
  finally show ?thesis by (simp add: rnd_pos_def Let_def)
qed

lemma rnd_pos_ge_pow:
  assumes "2 powi k \<le> q" and "ulp_exp q \<le> k"
  shows "2 powi k \<le> rnd_pos q"
proof -
  let ?e = "ulp_exp q"
  have "of_int (2 ^ nat (k - ?e)) \<le> q / 2 powi ?e"
    using assms by (simp add: le_divide_eq pow2_nat [symmetric] pow2_add [symmetric] del: of_int_power)
  then have "2 ^ nat (k - ?e) \<le> rne (q / 2 powi ?e)" by (rule rne_ge_int)
  then have "(of_int (2 ^ nat (k - ?e)) * 2 powi ?e :: rat) \<le> of_int (rne (q / 2 powi ?e)) * 2 powi ?e"
    by (intro mult_right_mono) (simp_all only: of_int_le_iff, simp)
  moreover have "(of_int (2 ^ nat (k - ?e)) * 2 powi ?e :: rat) = 2 powi k"
    using assms(2) by (simp add: pow2_nat [symmetric] pow2_add [symmetric] del: of_int_power)
  ultimately show ?thesis unfolding rnd_pos_def Let_def by (simp only:)
qed

lemma ulp_exp_mono:
  assumes "0 < q" and "q \<le> r"
  shows "ulp_exp q \<le> ulp_exp r"
proof -
  have "2 powi (ilog2_rat q) < (2 powi (ilog2_rat r + 1) :: rat)"
    using ilog2_rat_bounds(1) [of q] ilog2_rat_bounds(2) [of r] assms by simp
  then have "ilog2_rat q < ilog2_rat r + 1"
    using pow2_mono [of "ilog2_rat r + 1" "ilog2_rat q"] by (meson not_le)
  then show ?thesis by (simp add: ulp_exp_def)
qed

lemma rnd_pos_mono:
  assumes "0 < q" and "q \<le> r"
  shows "rnd_pos q \<le> rnd_pos r"
proof (cases "ulp_exp q = ulp_exp r")
  case True
  have "q / 2 powi (ulp_exp r) \<le> r / 2 powi (ulp_exp r)" using assms by (simp add: divide_right_mono)
  then have "rne (q / 2 powi (ulp_exp r)) \<le> rne (r / 2 powi (ulp_exp r))" by (rule rne_mono)
  then show ?thesis using True by (simp add: rnd_pos_def Let_def)
next
  case False
  with ulp_exp_mono [OF assms] have less: "ulp_exp q < ulp_exp r" by simp
  have r: "0 < r" using assms by simp
  have sub: "ulp_exp r \<noteq> - 1074" using less by (auto simp: ulp_exp_def)
  have "rnd_pos q \<le> 2 powi (ulp_exp q + 53)"
    using rnd_pos_binade(1) [OF assms(1)] by (intro rnd_pos_le_pow assms) auto
  also have "\<dots> \<le> 2 powi (ulp_exp r + 52)" using less by (intro pow2_mono) simp
  also have "\<dots> \<le> rnd_pos r"
    by (rule rnd_pos_ge_pow) (use rnd_pos_binade(2) [OF r sub] in auto)
  finally show ?thesis .
qed

text \<open>Relative error, and exactness on the grid of representable values.\<close>

lemma rnd_pos_rel:
  assumes "0 < q" and "ulp_exp q \<noteq> - 1074"
  shows "\<bar>rnd_pos q - q\<bar> \<le> q * 2 powi (- 53)"
proof -
  have "2 powi (ulp_exp q - 1) = 2 powi (ulp_exp q + 52) * (2 powi (- 53) :: rat)"
    by (subst pow2_add [symmetric]) simp
  also have "\<dots> \<le> q * 2 powi (- 53)"
    by (rule mult_right_mono [OF rnd_pos_binade(2) [OF assms]]) simp
  finally show ?thesis using rnd_pos_error [of q] by linarith
qed

lemma rnd_pos_grid:
  assumes "q = of_int m * 2 powi e" and "ulp_exp q \<le> e"
  shows "rnd_pos q = q"
proof -
  have "q / 2 powi (ulp_exp q) = of_int m * 2 powi (e - ulp_exp q)"
    by (simp add: assms(1) pow2_diff)
  also have "\<dots> = of_int (m * 2 ^ nat (e - ulp_exp q))"
    using assms(2) by (simp add: pow2_nat)
  finally have scaled: "q / 2 powi (ulp_exp q) = of_int (m * 2 ^ nat (e - ulp_exp q))" .
  then have "of_int (rne (q / 2 powi (ulp_exp q))) = q / 2 powi (ulp_exp q)"
    by (simp only: rne_of_int)
  then show ?thesis by (simp add: rnd_pos_def Let_def)
qed


lemma rnd_0 [simp]: "rnd 0 = Fin 0"
  by (simp add: rnd_def)

lemma rnd_pos_eq: "0 < q \<Longrightarrow> rnd q = (if overflow_bound \<le> rnd_pos q then PInf else Fin (rnd_pos q))"
  by (simp add: rnd_def Let_def overflows_def)

lemma rnd_neg_eq:
  "q < 0 \<Longrightarrow> rnd q = (if overflow_bound \<le> rnd_pos (- q) then NInf else Fin (- rnd_pos (- q)))"
  by (simp add: rnd_def Let_def overflows_def)

lemma rnd_not_NaN [simp]: "rnd q \<noteq> NaN"
  by (simp add: rnd_def Let_def)

text \<open>Every rounded value is representable, and representable values are kept.\<close>

lemma reprI: "q = of_int m * 2 powi e \<Longrightarrow> \<bar>m\<bar> < 2 ^ 53 \<Longrightarrow> - 1074 \<le> e \<Longrightarrow> e \<le> 971 \<Longrightarrow> repr q"
  unfolding repr_def by blast

lemma repr_0 [simp]: "repr 0"
  unfolding repr_def by (rule exI [of _ 0], rule exI [of _ 0]) simp

lemma repr_minus [simp]: "repr (- q) \<longleftrightarrow> repr q"
proof -
  have "repr (- q)" if "repr q" for q
  proof -
    from that obtain m e where "q = of_int m * 2 powi e" "\<bar>m\<bar> < 2 ^ 53" "- 1074 \<le> e" "e \<le> 971"
      by (auto simp: repr_def)
    then show ?thesis unfolding repr_def by (intro exI [of _ "- m"] exI [of _ e]) simp
  qed
  from this [of q] this [of "- q"] show ?thesis by auto
qed

lemma repr_rnd_pos:
  assumes q: "0 < q" and lt: "rnd_pos q < overflow_bound"
  shows "repr (rnd_pos q)"
proof -
  let ?e = "ulp_exp q" let ?m = "rne (q / 2 powi ?e)"
  have r: "rnd_pos q = of_int ?m * 2 powi ?e" by (simp add: rnd_pos_def Let_def)
  have e: "- 1074 \<le> ?e" by (simp add: ulp_exp_def)
  have m0: "0 \<le> ?m" using q by (simp add: rne_nonneg)
  have "q / 2 powi ?e < 2 powi 53"
    using rnd_pos_binade(1) [OF q] unfolding pow2_add by (simp add: divide_less_eq mult.commute)
  then have m53: "?m \<le> 2 ^ 53" using rne_le_int [of "q / 2 powi ?e" "2 ^ 53"] by simp
  have top: "?e + k < 1024" if "2 ^ nat k \<le> ?m" "0 \<le> k" for k
  proof -
    have "2 powi k \<le> (of_int ?m :: rat)" using that by (simp add: pow2_nat del: of_int_power)
    then have "2 powi (k + ?e) \<le> rnd_pos q" by (simp add: r pow2_add)
    with lt have "2 powi (k + ?e) < (2 powi 1024 :: rat)" by (simp only: overflow_bound_def)
    then show ?thesis using pow2_mono [of 1024 "k + ?e"] by linarith
  qed
  consider "?m = 2 ^ 53" | "?m < 2 ^ 53" "2 ^ 52 \<le> ?m" | "?m < 2 ^ 53" "?e = - 1074"
  proof (cases "?e = - 1074")
    case False
    have "2 powi 52 \<le> q / 2 powi ?e"
      using rnd_pos_binade(2) [OF q False] unfolding pow2_add by (simp add: le_divide_eq mult.commute)
    then have "2 ^ 52 \<le> ?m" using rne_ge_int [of "2 ^ 52" "q / 2 powi ?e"] by simp
    with m53 that show ?thesis by linarith
  qed (use m53 that in linarith)
  then show ?thesis
  proof cases
    case 1
    have "rnd_pos q = of_int (2 ^ 52) * 2 powi (?e + 1)" by (simp add: r 1 pow2_add)
    moreover have "?e + 1 \<le> 971" using top [of 53] 1 by simp
    ultimately show ?thesis using e by (intro reprI [of _ "2 ^ 52" "?e + 1"]) simp_all
  next
    case 2
    have "?e \<le> 971" using top [of 52] 2 by simp
    with r _ e show ?thesis by (rule reprI) (use 2 m0 in linarith)
  next
    case 3
    have "?e \<le> 971" using 3 by simp
    with r _ e show ?thesis by (rule reprI) (use 3 m0 in linarith)
  qed
qed

lemma repr_rnd: "rnd q = Fin r \<Longrightarrow> repr r"
  by (cases q "0::rat" rule: linorder_cases)
    (auto simp: rnd_pos_eq rnd_neg_eq not_le repr_rnd_pos split: if_splits)

lemma rnd_pos_repr:
  assumes "repr q" and "0 < q"
  shows "rnd_pos q = q" and "q < overflow_bound"
proof -
  from assms(1) obtain m e where me: "q = of_int m * 2 powi e" "\<bar>m\<bar> < 2 ^ 53" "- 1074 \<le> e" "e \<le> 971"
    by (auto simp: repr_def)
  have "(of_int m :: rat) < of_int (2 ^ 53)" using me(2) by (subst of_int_less_iff) simp
  then have lt: "q < 2 powi (53 + e)" by (simp add: me(1) pow2_add)
  also have "\<dots> \<le> 2 powi 1024" using me(4) by (intro pow2_mono) simp
  finally show "q < overflow_bound" by (simp only: overflow_bound_def)
  have "2 powi (ilog2_rat q) < (2 powi (53 + e) :: rat)"
    using ilog2_rat_bounds(1) [OF assms(2)] lt by simp
  then have "ilog2_rat q < 53 + e" using pow2_mono [of "53 + e" "ilog2_rat q"] by linarith
  then have "ulp_exp q \<le> e" using me(3) by (simp add: ulp_exp_def)
  with me(1) show "rnd_pos q = q" by (rule rnd_pos_grid)
qed

lemma rnd_repr: "repr q \<Longrightarrow> rnd q = Fin q"
  by (cases q "0::rat" rule: linorder_cases)
    (simp_all add: rnd_pos_eq rnd_neg_eq rnd_pos_repr not_le flip: not_less)

lemma rnd_idem: "rnd q = Fin r \<Longrightarrow> rnd r = Fin r"
  by (rule rnd_repr [OF repr_rnd])

lemma repr_of_int:
  assumes "\<bar>n\<bar> \<le> 2 ^ 53"
  shows "repr (of_int n)"
proof (cases "\<bar>n\<bar> = 2 ^ 53")
  case True
  then have "n = 2 * 2 ^ 52 \<or> n = 2 * - (2 ^ 52)" by auto
  then obtain k where k: "n = 2 * k" "\<bar>k\<bar> < 2 ^ 53" by auto
  then have "(of_int n :: rat) = of_int k * 2 powi 1" by simp
  with k(2) show ?thesis unfolding repr_def
    by (intro exI [of _ k] exI [of _ 1]) simp
next
  case False
  with assms show ?thesis unfolding repr_def by (intro exI [of _ n] exI [of _ 0]) simp
qed


lemma rnd_mono_pos: "0 < q \<Longrightarrow> q \<le> r \<Longrightarrow> rnd r = Fin b \<Longrightarrow> rnd q = Fin (rnd_pos q) \<and> rnd_pos q \<le> b"
  using rnd_pos_mono [of q r] by (auto simp: rnd_pos_eq split: if_splits)

lemma rnd_nonneg: "0 \<le> q \<Longrightarrow> rnd q = Fin r \<Longrightarrow> 0 \<le> r"
  by (cases "q = 0") (auto simp: rnd_pos_eq rnd_pos_nonneg split: if_splits)

lemma rnd_le_Fin:
  assumes "0 \<le> q" and "q \<le> b" and "repr b"
  obtains r where "rnd q = Fin r" and "0 \<le> r" and "r \<le> b"
proof (cases "q = 0")
  case True
  then show ?thesis using that [of 0] assms by simp
next
  case False
  with assms(1) have q: "0 < q" by simp
  have "rnd b = Fin b" using assms(3) by (rule rnd_repr)
  from rnd_mono_pos [OF q assms(2) this] rnd_pos_nonneg [of q] q that show ?thesis by auto
qed

lemma repr_pow2: "- 1074 \<le> k \<Longrightarrow> k \<le> 971 \<Longrightarrow> repr (2 powi k)"
  by (rule reprI [of _ 1 k]) simp_all

lemma rnd_abs_error:
  assumes "0 \<le> q" and "q \<le> B" and "1 \<le> B" and "rnd q = Fin r"
  shows "\<bar>r - q\<bar> \<le> B * 2 powi (- 53)"
proof (cases "q = 0")
  case True
  then show ?thesis using assms by simp
next
  case False
  with assms(1) have q: "0 < q" by simp
  have B: "0 < B" using assms(3) by simp
  have normal: "ulp_exp B \<noteq> - 1074"
  proof -
    have "2 powi 0 < (2 powi (ilog2_rat B + 1) :: rat)"
      using ilog2_rat_bounds(2) [OF B] assms(3) by (simp del: power_int_add_1 power_int_add_1')
    then have "0 < ilog2_rat B + 1" using pow2_mono [of "ilog2_rat B + 1" 0] by linarith
    then show ?thesis by (simp add: ulp_exp_def)
  qed
  have "\<bar>r - q\<bar> \<le> 2 powi (ulp_exp q - 1)"
    using assms(4) q rnd_pos_error [of q] by (auto simp: rnd_pos_eq split: if_splits)
  also have "\<dots> \<le> 2 powi (ulp_exp B - 1)" using ulp_exp_mono [OF q assms(2)] by (intro pow2_mono) simp
  also have "\<dots> = 2 powi (ulp_exp B + 52) * (2 powi (- 53) :: rat)" by (subst pow2_add [symmetric]) simp
  also have "\<dots> \<le> B * 2 powi (- 53)" by (rule mult_right_mono [OF rnd_pos_binade(2) [OF B normal]]) simp
  finally show ?thesis .
qed

text \<open>
  Sums of representable values lie on the grid of subnormals, where addition is
  exact below the normal range: the rounding error of a sum is always relative.
\<close>

lemma repr_on_grid: assumes "repr q" shows "on_grid q"
proof -
  from assms obtain m e where me: "q = of_int m * 2 powi e" "- 1074 \<le> e" by (auto simp: repr_def)
  have "q = of_int m * (2 powi (e + 1074) * 2 powi (- 1074))"
    unfolding me(1) by (subst pow2_add [symmetric]) simp
  also have "\<dots> = of_int (m * 2 ^ nat (e + 1074)) * 2 powi (- 1074)"
    using me(2) by (simp add: pow2_nat del: power_int_minus)
  finally show ?thesis unfolding on_grid_def by blast
qed

lemma on_grid_add: "on_grid a \<Longrightarrow> on_grid b \<Longrightarrow> on_grid (a + b)"
  unfolding on_grid_def by (metis distrib_right of_int_add)

lemma rnd_grid_error:
  assumes "0 \<le> q" and "on_grid q" and "rnd q = Fin r"
  shows "\<bar>r - q\<bar> \<le> q * 2 powi (- 53)"
proof (cases "q = 0")
  case True
  then show ?thesis using assms by simp
next
  case False
  with assms(1) have q: "0 < q" by simp
  have r: "r = rnd_pos q" using assms(3) q by (auto simp: rnd_pos_eq split: if_splits)
  show ?thesis
  proof (cases "ulp_exp q = - 1074")
    case True
    from assms(2) obtain m where "q = of_int m * 2 powi (- 1074)" by (auto simp: on_grid_def)
    then have "rnd_pos q = q" by (rule rnd_pos_grid) (simp add: True)
    then show ?thesis using q by (simp add: r)
  next
    case False
    then show ?thesis using rnd_pos_rel [OF q] r by simp
  qed
qed

lemma rnd_finite:
  assumes "0 \<le> q" and "q \<le> 2 powi k" and "- 1074 \<le> k" and "k \<le> 971"
  obtains r where "rnd q = Fin r" and "0 \<le> r" and "r \<le> 2 powi k"
  using rnd_le_Fin [OF assms(1,2) repr_pow2 [OF assms(3,4)]] that by blast

subsection \<open>Casts and arithmetic on bounded values\<close>

lemma Fin_simps [simp]:
  "Fin a + Fin b = rnd (a + b)"
  "Fin a * Fin b = rnd (a * b)"
  "b \<noteq> 0 \<Longrightarrow> Fin a / Fin b = rnd (a / b)"
  "Fin a \<le> Fin b \<longleftrightarrow> a \<le> b"
  "Fin a < Fin b \<longleftrightarrow> a < b"
  by (simp_all add: plus_f64_def times_f64_def divide_f64_def less_eq_f64_def less_f64_def)

lemma bounded_f64I: "x = Fin q \<Longrightarrow> 0 \<le> q \<Longrightarrow> q \<le> 2 powi k \<Longrightarrow> repr q \<Longrightarrow> bounded_f64 k x"
  unfolding bounded_f64_def by blast

lemma bounded_f64E:
  assumes "bounded_f64 k x"
  obtains q where "x = Fin q" and "0 \<le> q" and "q \<le> 2 powi k" and "repr q"
  using assms unfolding bounded_f64_def by blast

lemma bounded_f64_mono: "bounded_f64 k x \<Longrightarrow> k \<le> l \<Longrightarrow> bounded_f64 l x"
  unfolding bounded_f64_def using pow2_mono order_trans by blast

lemma bounded_f64_0 [simp]: "bounded_f64 k (Fin 0)"
  by (rule bounded_f64I [of _ 0]) simp_all

lemma bounded_f64_rnd:
  assumes "0 \<le> q" and "q \<le> 2 powi k" and "- 1074 \<le> k" and "k \<le> 971"
  shows "bounded_f64 k (rnd q)"
proof -
  obtain r where "rnd q = Fin r" "0 \<le> r" "r \<le> 2 powi k" using rnd_finite [OF assms] .
  then show ?thesis using repr_rnd by (auto simp: bounded_f64_def)
qed

lemma bounded_f64_mult:
  assumes "bounded_f64 k x" and "bounded_f64 l y" and "- 1074 \<le> k + l" and "k + l \<le> 971"
  shows "bounded_f64 (k + l) (x * y)"
proof -
  from assms(1) obtain a where a: "x = Fin a" "0 \<le> a" "a \<le> 2 powi k" by (rule bounded_f64E)
  from assms(2) obtain b where b: "y = Fin b" "0 \<le> b" "b \<le> 2 powi l" by (rule bounded_f64E)
  have "a * b \<le> 2 powi k * 2 powi l" using a b by (intro mult_mono) auto
  then show ?thesis using a b assms(3,4) by (simp add: pow2_add bounded_f64_rnd)
qed

lemma bounded_f64_add:
  assumes "bounded_f64 k x" and "bounded_f64 k y" and "- 1074 \<le> k" and "k < 971"
  shows "bounded_f64 (k + 1) (x + y)"
proof -
  from assms(1) obtain a where a: "x = Fin a" "0 \<le> a" "a \<le> 2 powi k" by (rule bounded_f64E)
  from assms(2) obtain b where b: "y = Fin b" "0 \<le> b" "b \<le> 2 powi k" by (rule bounded_f64E)
  have "a + b \<le> 2 powi (k + 1)" unfolding pow2_add using a b by simp
  then show ?thesis using a b assms(3,4) by (simp add: bounded_f64_rnd)
qed

lemma bounded_f64_div:
  assumes "bounded_f64 k x" and "y = Fin b" and "1 \<le> b" and "- 1074 \<le> k" and "k \<le> 971"
  shows "bounded_f64 k (x / y)"
proof -
  from assms(1) obtain a where a: "x = Fin a" "0 \<le> a" "a \<le> 2 powi k" by (rule bounded_f64E)
  have "a / b \<le> a / 1" using a assms(3) by (intro divide_left_mono) auto
  with a(3) have "a / b \<le> 2 powi k" by simp
  then show ?thesis using a assms by (simp add: bounded_f64_rnd)
qed

lemma bounded_f64_u64: "bounded_f64 64 (f64_of_u64 w)"
proof -
  have "uint w \<le> 2 ^ 64" using uint_lt2p [of w] by simp
  then have "(of_int (uint w) :: rat) \<le> of_int (2 ^ 64)" by (subst of_int_le_iff)
  then show ?thesis unfolding f64_of_u64_def
    by (intro bounded_f64_rnd) (simp_all only: of_int_0_le_iff uint_ge_0, simp_all)
qed

lemma bounded_f64_u32: "bounded_f64 32 (f64_of_u32 w)"
proof -
  have "uint w \<le> 2 ^ 32" using uint_lt2p [of w] by simp
  then have "(of_int (uint w) :: rat) \<le> of_int (2 ^ 32)" by (subst of_int_le_iff)
  then show ?thesis unfolding f64_of_u32_def
    by (intro bounded_f64_rnd) (simp_all only: of_int_0_le_iff uint_ge_0, simp_all)
qed

lemma f64_of_u64_ge1:
  assumes "0 < w"
  obtains b where "f64_of_u64 w = Fin b" and "1 \<le> b"
proof -
  from bounded_f64_u64 obtain b where b: "f64_of_u64 w = Fin b" by (rule bounded_f64E)
  have r1: "rnd 1 = Fin 1" using rnd_repr [OF repr_of_int [of 1]] by simp
  have "1 \<le> uint w" using assms by (simp add: word_less_def)
  then have w: "(1::rat) \<le> of_int (uint w)" by (subst of_int_1_le_iff)
  from b have "rnd (of_int (uint w)) = Fin b" by (simp add: f64_of_u64_def)
  from rnd_mono_pos [OF _ w this] r1 have "1 \<le> b" by simp
  with b that show ?thesis by blast
qed

lemma f64_of_u64_exact: "unat w \<le> 2 ^ 53 \<Longrightarrow> f64_of_u64 w = Fin (of_nat (unat w))"
proof -
  assume "unat w \<le> 2 ^ 53"
  then have "int (unat w) \<le> int (2 ^ 53)" by (subst of_nat_le_iff)
  then have "\<bar>uint w\<bar> \<le> 2 ^ 53" by simp
  then have "rnd (of_int (uint w)) = Fin (of_int (uint w))" by (intro rnd_repr repr_of_int)
  then show ?thesis by (simp add: f64_of_u64_def)
qed

lemma unat_f64_to_u64:
  assumes "0 \<le> q" and "q < 2 ^ 64"
  shows "int (unat (f64_to_u64 (Fin q))) = \<lfloor>q\<rfloor>"
proof (cases "q \<le> 0")
  case True
  then show ?thesis using assms by (simp add: f64_to_u64_def)
next
  case False
  have "0 \<le> \<lfloor>q\<rfloor>" using assms by simp
  moreover have "\<lfloor>q\<rfloor> < 2 ^ 64" using assms(2) by (simp add: floor_less_iff)
  ultimately have "uint (word_of_int \<lfloor>q\<rfloor> :: u64) = \<lfloor>q\<rfloor>" by (intro word_of_int_inverse) simp_all
  then show ?thesis using False assms by (simp add: f64_to_u64_def)
qed

end
