(* ===== verification/Hash_Map.thy ===== *)
theory Hash_Map
  imports Prelude "HOL-Library.AList"
begin

text \<open>
  Rust's \<open>HashMap\<close> as an association list whose order is the iteration order of
  the map.  \<open>insert\<close> is \<open>AList.update\<close>, \<open>get\<close> is \<open>map_of\<close>, \<open>remove\<close> is
  \<open>AList.delete\<close>, \<open>retain\<close> is a filter, and \<open>entry(k).or_insert(d)\<close> followed by an
  update of the entry is \<open>hm_upsert\<close>.  The components use maps through the
  interface \<open>keyed_store\<close>, whose laws do not mention the order; the facts about
  accumulating contributions per key are proved once from that interface.
\<close>

type_synonym ('k, 'v) hmap = "('k \<times> 'v) list"

definition hm_get_or :: "('k, 'v) hmap \<Rightarrow> 'k \<Rightarrow> 'v \<Rightarrow> 'v" where
  "hm_get_or m k d = (case map_of m k of None \<Rightarrow> d | Some v \<Rightarrow> v)"

definition hm_upsert :: "'k \<Rightarrow> 'v \<Rightarrow> ('v \<Rightarrow> 'v) \<Rightarrow> ('k, 'v) hmap \<Rightarrow> ('k, 'v) hmap" where
  "hm_upsert k d f m = AList.update k (f (hm_get_or m k d)) m"

text \<open>\<open>entry(k).or_default().push(v)\<close>\<close>

definition hm_push :: "'k \<Rightarrow> 'v \<Rightarrow> ('k, 'v list) hmap \<Rightarrow> ('k, 'v list) hmap" where
  "hm_push k v m = hm_upsert k [] (\<lambda>vs. vs @ [v]) m"

definition hm_retain :: "('k \<Rightarrow> 'v \<Rightarrow> bool) \<Rightarrow> ('k, 'v) hmap \<Rightarrow> ('k, 'v) hmap" where
  "hm_retain P m = filter (\<lambda>(k, v). P k v) m"

definition hm_wf :: "('k, 'v) hmap \<Rightarrow> bool" where
  "hm_wf m \<longleftrightarrow> distinct (map fst m)"

subsection \<open>The interface of a keyed store\<close>

locale keyed_store =
  fixes get :: "'m \<Rightarrow> 'k \<Rightarrow> 'v option"
    and upsert :: "'k \<Rightarrow> 'v \<Rightarrow> ('v \<Rightarrow> 'v) \<Rightarrow> 'm \<Rightarrow> 'm"
    and entries :: "'m \<Rightarrow> ('k \<times> 'v) list"
    and wf :: "'m \<Rightarrow> bool"
  assumes get_upsert:
      "get (upsert k d f m) k' =
         (if k' = k then Some (f (case get m k of None \<Rightarrow> d | Some v \<Rightarrow> v)) else get m k')"
    and wf_upsert: "wf m \<Longrightarrow> wf (upsert k d f m)"
    and entries_get: "wf m \<Longrightarrow> map_of (entries m) = get m"
    and entries_distinct: "wf m \<Longrightarrow> distinct (map fst (entries m))"
begin

lemma wf_fold_upsert:
  "wf m \<Longrightarrow> wf (fold (\<lambda>x. upsert (key x) (dflt x) (upd x)) xs m)"
  by (induction xs arbitrary: m) (simp_all add: wf_upsert)

text \<open>The keys present afterwards are the old ones and those of the contributions.\<close>

lemma dom_fold_upsert:
  "dom (get (fold (\<lambda>x. upsert (key x) (dflt x) (upd x)) xs m)) = dom (get m) \<union> key ` set xs"
proof (induction xs arbitrary: m)
  case (Cons x xs)
  have "dom (get (upsert (key x) (dflt x) (upd x) m)) = insert (key x) (dom (get m))"
    by (auto simp: get_upsert dom_def)
  with Cons.IH show ?case by simp
qed simp

text \<open>
  A key receives exactly the contributions made under it, in their order, on top of
  what it held or of the default its first contribution brings.
\<close>

lemma get_fold_upsert_first:
  "get (fold (\<lambda>x. upsert (key x) (dflt x) (upd x)) xs m) k =
     (if k \<in> key ` set xs
      then Some (fold upd (filter (\<lambda>x. key x = k) xs)
             (case get m k of None \<Rightarrow> dflt (hd (filter (\<lambda>x. key x = k) xs)) | Some v \<Rightarrow> v))
      else get m k)"
proof (induction xs arbitrary: m)
  case (Cons x xs)
  show ?case
  proof (cases "key x = k")
    case True
    moreover have "filter (\<lambda>x. key x = k) xs = []" if "k \<notin> key ` set xs"
      using that by (auto simp: filter_empty_conv)
    ultimately show ?thesis by (simp add: Cons.IH get_upsert split: option.split)
  next
    case False
    then show ?thesis by (auto simp: Cons.IH get_upsert split: option.split)
  qed
qed simp

lemmas get_fold_upsert = get_fold_upsert_first [where dflt = "\<lambda>_. d" for d]

text \<open>Grouping from the empty store.\<close>

lemma entries_grouped:
  assumes "wf m" and "entries m = []"
    and g_def: "g = fold (\<lambda>x. upsert (key x) (dflt x) (upd x)) xs m"
  shows "set (map fst (entries g)) = key ` set xs"
    and "entries g = map (\<lambda>k. (k, fold upd (filter (\<lambda>x. key x = k) xs)
                                 (dflt (hd (filter (\<lambda>x. key x = k) xs))))) (map fst (entries g))"
proof -
  have g: "wf g" unfolding g_def using assms(1) by (rule wf_fold_upsert)
  have none: "get m k = None" for k using entries_get [OF assms(1)] assms(2) by (metis map_of.simps(1))
  have "dom (get g) = key ` set xs"
    unfolding g_def dom_fold_upsert using none by auto
  then show keys: "set (map fst (entries g)) = key ` set xs"
    by (simp add: entries_get [OF g, symmetric] dom_map_of_conv_image_fst)
  have "snd e = fold upd (filter (\<lambda>x. key x = fst e) xs) (dflt (hd (filter (\<lambda>x. key x = fst e) xs)))"
    if e: "e \<in> set (entries g)" for e
  proof -
    have "get g (fst e) = Some (snd e)"
      using e entries_distinct [OF g] by (simp add: entries_get [OF g, symmetric])
    moreover have "fst e \<in> key ` set xs" using e keys by force
    ultimately show ?thesis by (simp add: g_def get_fold_upsert_first none)
  qed
  then show "entries g = map (\<lambda>k. (k, fold upd (filter (\<lambda>x. key x = k) xs)
                                 (dflt (hd (filter (\<lambda>x. key x = k) xs))))) (map fst (entries g))"
    by (simp add: comp_def prod_eq_iff map_idI)
qed

text \<open>The usual case: the default is a function of the key.\<close>

lemma grouped_by_key:
  assumes "wf m" and "entries m = []"
    and g_def: "g = fold (\<lambda>x. upsert (key x) (d (key x)) (upd x)) xs m"
  shows "map snd (entries g) = map (\<lambda>k. fold upd (filter (\<lambda>x. key x = k) xs) (d k)) (map fst (entries g))"
    and "set (map fst (entries g)) = key ` set xs" and "distinct (map fst (entries g))"
proof -
  note grouped = entries_grouped [OF assms(1,2) g_def]
  show keys: "set (map fst (entries g)) = key ` set xs" by (rule grouped(1))
  have hd: "key (hd (filter (\<lambda>x. key x = k) xs)) = k" if "k \<in> set (map fst (entries g))" for k
  proof -
    have "filter (\<lambda>x. key x = k) xs \<noteq> []" using that unfolding keys by (auto simp: filter_empty_conv)
    then show ?thesis using hd_in_set by fastforce
  qed
  have "map snd (entries g) = map (\<lambda>k. fold upd (filter (\<lambda>x. key x = k) xs) (d (key (hd (filter (\<lambda>x. key x = k) xs)))))
      (map fst (entries g))"
    using arg_cong [OF grouped(2), of "map snd"] by (simp add: comp_def)
  also have "\<dots> = map (\<lambda>k. fold upd (filter (\<lambda>x. key x = k) xs) (d k)) (map fst (entries g))"
    using hd by (intro map_cong refl) simp
  finally show "map snd (entries g) = map (\<lambda>k. fold upd (filter (\<lambda>x. key x = k) xs) (d k)) (map fst (entries g))" .
  show "distinct (map fst (entries g))"
    unfolding g_def using wf_fold_upsert [OF assms(1)] by (rule entries_distinct)
qed

end

locale summed_store = keyed_store get upsert entries wf
  for get :: "'m \<Rightarrow> 'k \<Rightarrow> ('v::comm_monoid_add) option" and upsert and entries and wf +
  assumes sum_upsert:
    "wf m \<Longrightarrow> sum_list (map snd (entries (upsert k 0 (\<lambda>v. v + w) m))) = sum_list (map snd (entries m)) + w"
begin

text \<open>
  \<open>*entry(k).or_default() += w\<close> over a list of contributions: each key holds the
  sum of its contributions and the total grows by the sum of all of them.
\<close>

lemma fold_plus: "fold (\<lambda>x v. v + w x) xs a = a + sum_list (map w xs)"
  by (induction xs arbitrary: a) (simp_all add: add_ac)

lemma get_accumulate:
  "get (fold (\<lambda>x. upsert (key x) 0 (\<lambda>v. v + w x)) xs m) k =
     (if k \<in> key ` set xs
      then Some ((case get m k of None \<Rightarrow> 0 | Some v \<Rightarrow> v) + sum_list (map w (filter (\<lambda>x. key x = k) xs)))
      else get m k)"
  by (simp add: get_fold_upsert fold_plus)

lemma sum_accumulate:
  "wf m \<Longrightarrow>
   sum_list (map snd (entries (fold (\<lambda>x. upsert (key x) 0 (\<lambda>v. v + w x)) xs m))) =
     sum_list (map snd (entries m)) + sum_list (map w xs)"
  by (induction xs arbitrary: m) (simp_all add: sum_upsert wf_upsert add_ac)

end

subsection \<open>The association list provides it\<close>

lemma map_of_update [simp]: "map_of (AList.update k v m) k' = (if k' = k then Some v else map_of m k')"
  by (simp add: update_conv')

lemma map_of_delete [simp]: "map_of (AList.delete k m) k' = (if k' = k then None else map_of m k')"
  by (simp add: delete_conv')

lemma length_update: "length (AList.update k v m) = (if map_of m k = None then Suc (length m) else length m)"
  by (induction m) auto

lemma hm_wf_Nil [simp]: "hm_wf []"
  by (simp add: hm_wf_def)

lemma hm_wf_update [simp]: "hm_wf m \<Longrightarrow> hm_wf (AList.update k v m)"
  by (simp add: hm_wf_def distinct_update)

lemma hm_wf_delete [simp]: "hm_wf m \<Longrightarrow> hm_wf (AList.delete k m)"
  by (simp add: hm_wf_def distinct_delete)

lemma hm_wf_upsert [simp]: "hm_wf m \<Longrightarrow> hm_wf (hm_upsert k d f m)"
  by (simp add: hm_upsert_def)

lemma hm_wf_retain [simp]: "hm_wf m \<Longrightarrow> hm_wf (hm_retain P m)"
  by (simp add: hm_wf_def hm_retain_def distinct_map_filter)

lemma map_of_retain:
  "hm_wf m \<Longrightarrow>
   map_of (hm_retain P m) k = (case map_of m k of None \<Rightarrow> None | Some v \<Rightarrow> if P k v then Some v else None)"
  unfolding hm_wf_def hm_retain_def
proof (induction m)
  case (Cons kv m)
  have "map_of (filter (\<lambda>(k, v). P k v) m) k = None" if "k \<notin> fst ` set m"
    using that by (auto simp: map_of_eq_None_iff)
  with Cons show ?case by (cases kv) (auto simp: map_of_eq_None_iff split: option.splits)
qed simp

lemma sum_update:
  "sum_list (map snd (AList.update k (hm_get_or m k 0 + w) m)) = sum_list (map snd m) + w"
  for w :: "'v::comm_monoid_add"
  by (induction m) (auto simp: hm_get_or_def add_ac)

interpretation hm: keyed_store map_of hm_upsert "\<lambda>m. m" hm_wf
  by unfold_locales (auto simp: hm_upsert_def hm_get_or_def hm_wf_def distinct_update)

interpretation hms: summed_store map_of hm_upsert "\<lambda>m. m" hm_wf
  by unfold_locales (simp add: hm_upsert_def sum_update)

subsection \<open>Sub-maps and unsigned totals\<close>

lemma map_of_filter_key: "P k \<Longrightarrow> map_of (filter (\<lambda>(k, _). P k) m) k = map_of m k"
  by (induction m) auto

lemma filter_update:
  "filter (\<lambda>(k, _). P k) (AList.update k v m) =
     (if P k then AList.update k v (filter (\<lambda>(k, _). P k) m) else filter (\<lambda>(k, _). P k) m)"
  by (induction m) auto

lemma filter_upsert:
  "filter (\<lambda>(k, _). P k) (hm_upsert k d f m) =
     (if P k then hm_upsert k d f (filter (\<lambda>(k, _). P k) m) else filter (\<lambda>(k, _). P k) m)"
  by (simp add: hm_upsert_def hm_get_or_def filter_update map_of_filter_key)

lemma filter_fold_upsert:
  "filter (\<lambda>(k, _). P k) (fold (\<lambda>x. hm_upsert (key x) d (upd x)) xs m) =
     fold (\<lambda>x. hm_upsert (key x) d (upd x)) (filter (\<lambda>x. P (key x)) xs) (filter (\<lambda>(k, _). P k) m)"
  by (induction xs arbitrary: m) (simp_all add: filter_upsert)

lemma unat_get_or_le: "unat (hm_get_or m k 0) \<le> sum_list (map (\<lambda>x. unat (snd x)) m)"
  by (induction m) (auto simp: hm_get_or_def split: option.splits)

lemma sum_unat_upsert:
  fixes w :: "'a::len word"
  assumes "sum_list (map (\<lambda>x. unat (snd x)) m) + unat w < 2 ^ LENGTH('a)"
  shows "sum_list (map (\<lambda>x. unat (snd x)) (hm_upsert k 0 (\<lambda>v. v + w) m)) = sum_list (map (\<lambda>x. unat (snd x)) m) + unat w"
  using assms
proof (induction m)
  case (Cons kv m)
  obtain k' v where kv: "kv = (k', v)" by (cases kv)
  show ?case
  proof (cases "k' = k")
    case True
    have "unat v + unat w < 2 ^ LENGTH('a)" using Cons.prems by (simp add: kv)
    then show ?thesis using True by (simp add: kv hm_upsert_def hm_get_or_def unat_simps)
  next
    case False
    then show ?thesis using Cons by (simp add: kv hm_upsert_def hm_get_or_def)
  qed
qed (simp add: hm_upsert_def hm_get_or_def)

lemma sum_unat_accumulate:
  fixes w :: "'x \<Rightarrow> 'a::len word"
  assumes "sum_list (map (\<lambda>x. unat (snd x)) m) + sum_list (map (\<lambda>x. unat (w x)) xs) < 2 ^ LENGTH('a)"
  shows "sum_list (map (\<lambda>x. unat (snd x)) (fold (\<lambda>x. hm_upsert (key x) 0 (\<lambda>v. v + w x)) xs m)) =
    sum_list (map (\<lambda>x. unat (snd x)) m) + sum_list (map (\<lambda>x. unat (w x)) xs)"
  using assms by (induction xs arbitrary: m) (simp_all add: sum_unat_upsert)

lemma length_hm_wf: "hm_wf m \<Longrightarrow> length m = card (dom (map_of m))"
  using distinct_card [of "map fst m"] by (simp add: hm_wf_def dom_map_of_conv_image_fst)

subsection \<open>Grouping\<close>

lemma mset_hm_push: "mset (concat (map snd (hm_push k v m))) = add_mset v (mset (concat (map snd m)))"
  by (induction m) (auto simp: hm_push_def hm_upsert_def hm_get_or_def)

lemma hm_wf_push [simp]: "hm_wf m \<Longrightarrow> hm_wf (hm_push k v m)"
  by (simp add: hm_push_def)

lemma set_update_alist: "set (AList.update k v m) \<subseteq> insert (k, v) (set m)"
  by (induction m) auto

text \<open>In a grouping every group is non-empty; a property of all elements is kept.\<close>

definition groups_all :: "('k \<Rightarrow> 'v \<Rightarrow> bool) \<Rightarrow> ('k, 'v list) hmap \<Rightarrow> bool" where
  "groups_all P m \<longleftrightarrow> (\<forall>g \<in> set m. snd g \<noteq> [] \<and> (\<forall>v \<in> set (snd g). P (fst g) v))"

lemma groups_all_Nil [simp]: "groups_all P []"
  by (simp add: groups_all_def)

lemma groups_all_push:
  assumes "groups_all P m" and "P k v"
  shows "groups_all P (hm_push k v m)"
proof -
  have "hm_get_or m k [] = [] \<or> (k, hm_get_or m k []) \<in> set m"
    by (auto simp: hm_get_or_def dest: map_of_SomeD split: option.split)
  then have "\<forall>x \<in> set (hm_get_or m k [] @ [v]). P k x"
    using assms by (auto simp: groups_all_def)
  moreover have "g = (k, hm_get_or m k [] @ [v]) \<or> g \<in> set m" if "g \<in> set (hm_push k v m)" for g
    using that set_update_alist [of k "hm_get_or m k [] @ [v]" m] by (auto simp: hm_push_def hm_upsert_def)
  ultimately show ?thesis using assms(1) unfolding groups_all_def by fastforce
qed

lemma filter_group:
  assumes "hm_wf m" and "groups_all (\<lambda>k v. key v = k) m" and "(k, vs) \<in> set m"
  shows "filter (\<lambda>v. key v = k) (concat (map snd m)) = vs"
  using assms
proof (induction m)
  case (Cons g m)
  obtain k' ws where g: "g = (k', ws)" by (cases g)
  have wf: "hm_wf m" "k' \<notin> fst ` set m" using Cons.prems(1) by (auto simp: g hm_wf_def)
  have ga: "groups_all (\<lambda>k v. key v = k) m" "\<forall>v \<in> set ws. key v = k'"
    using Cons.prems(2) by (auto simp: g groups_all_def)
  show ?case
  proof (cases "k = k'")
    case True
    have "(k, vs) = (k', ws)" using Cons.prems(3) wf(2) True by (auto simp: g image_iff)
    moreover have "filter (\<lambda>v. key v = k') (concat (map snd m)) = []"
      using ga(1) wf(2) by (fastforce simp: filter_empty_conv groups_all_def)
    ultimately show ?thesis using ga(2) by (simp add: g filter_id_conv)
  next
    case False
    then have "(k, vs) \<in> set m" using Cons.prems(3) by (auto simp: g)
    moreover have "filter (\<lambda>v. key v = k) ws = []" using ga(2) False by (auto simp: filter_empty_conv)
    ultimately show ?thesis using Cons.IH wf(1) ga(1) by (simp add: g)
  qed
qed simp

text \<open>Summing group by group is summing over everything.\<close>

lemma sum_list_groups:
  fixes w :: "'x \<Rightarrow> 'v::comm_monoid_add"
  assumes "distinct ks" and "key ` set xs \<subseteq> set ks"
  shows "sum_list (map (\<lambda>k. sum_list (map w (filter (\<lambda>x. key x = k) xs))) ks) = sum_list (map w xs)"
  using assms(2)
proof (induction xs)
  case (Cons x xs)
  have "sum_list (map (\<lambda>k. sum_list (map w (filter (\<lambda>y. key y = k) (x # xs)))) ks)
      = sum_list (map (\<lambda>k. (if key x = k then w x else 0) + sum_list (map w (filter (\<lambda>y. key y = k) xs))) ks)"
    by (intro arg_cong [where f = sum_list] map_cong) auto
  also have "\<dots> = (\<Sum>k\<in>set ks. if key x = k then w x else 0)
      + sum_list (map (\<lambda>k. sum_list (map w (filter (\<lambda>y. key y = k) xs))) ks)"
    by (simp add: sum_list_addf sum_list_distinct_conv_sum_set [OF assms(1)])
  also have "(\<Sum>k\<in>set ks. if key x = k then w x else 0) = w x"
    using Cons.prems by simp
  finally show ?case using Cons by simp
qed simp

end
