(* ===== verification/Common_Types.thy ===== *)
theory Common_Types
  imports Hash_Map
begin

text \<open>
  The plain-data types that the kernel programs and the agent share
  (\<open>keck-common/src/lib.rs\<close>), and the capacities of the BPF maps.
\<close>

record PidCpuKey =
  pck_cpu :: u32
  pck_pid :: u32

record CpuSchedState =
  css_current_pid :: u32
  css_start_time_ns :: u64
  css_start_instructions :: u64
  css_start_cycles :: u64
  css_start_cache_misses :: u64

record CpuFreqKey =
  cfk_cpu :: u32
  cfk_freq_khz :: u32

record CpuFreqState =
  cfs_current_freq_khz :: u32
  cfs_start_time_ns :: u64

record CoreCounters =
  cc_instructions :: u64
  cc_cycles :: u64
  cc_cache_misses :: u64
  cc_cache_refs :: u64

record PidCpuCounterKey =
  pcck_cpu :: u32
  pcck_pid :: u32

record PidCpuCounters =
  pcc_instructions :: u64
  pcc_cycles :: u64
  pcc_cache_misses :: u64

record PidNetBytes =
  pnb_tx_bytes :: u64
  pnb_rx_bytes :: u64

text \<open>
  \<open>PidCpuTime\<close>, \<open>CpuFreqTime\<close> and \<open>PidCgroupValue\<close> are structs with a single u64;
  the maps hold that u64.
\<close>

definition MAX_PID_CPU_ENTRIES :: nat where "MAX_PID_CPU_ENTRIES = 65536"
definition MAX_CPU_FREQ_ENTRIES :: nat where "MAX_CPU_FREQ_ENTRIES = 32768"
definition MAX_PID_CGROUP_ENTRIES :: nat where "MAX_PID_CGROUP_ENTRIES = 65536"
definition MAX_PID_NET_ENTRIES :: nat where "MAX_PID_NET_ENTRIES = 65536"
definition MAX_PID_HW_COUNTER_ENTRIES :: nat where "MAX_PID_HW_COUNTER_ENTRIES = 65536"

end
