(* ===== verification/Attr_Types.thy ===== *)
theory Attr_Types
  imports F64 Common_Types
begin

text \<open>
  The result types of power attribution (\<open>keck-agent/src/attribution/types.rs\<close>) and
  the observation that feeds it (\<open>ObservationSnapshot\<close> of \<open>keck-agent/src/ebpf/mod.rs\<close>).
  An i64 is the word of its two's complement representation.
\<close>

datatype ReadingType = Measured | Estimated | Derived

datatype Component = Cpu | Memory | Gpu | Nic | Storage | Fan | Platform

record PowerBreakdown =
  pb_cpu_uw :: u64
  pb_memory_uw :: u64
  pb_gpu_uw :: u64
  pb_nic_uw :: u64
  pb_storage_uw :: u64

definition pb_default :: PowerBreakdown where
  "pb_default = \<lparr>pb_cpu_uw = 0, pb_memory_uw = 0, pb_gpu_uw = 0, pb_nic_uw = 0, pb_storage_uw = 0\<rparr>"

definition pb_total_uw :: "PowerBreakdown \<Rightarrow> u64" where
  "pb_total_uw p = pb_cpu_uw p + pb_memory_uw p + pb_gpu_uw p + pb_nic_uw p + pb_storage_uw p"

record CoreAttribution =
  ca_core :: u32
  ca_time_ns :: u64
  ca_avg_freq_khz :: u32
  ca_energy_uj :: u64
  ca_instructions :: u64
  ca_cycles :: u64
  ca_cache_misses :: u64

datatype AttributionMethod = MFullModel | MFrequencyWeighted | MCpuTimeRatio

record ProcessPower =
  pp_pid :: u32
  pp_comm :: str
  pp_cgroup_id :: u64
  pp_power :: PowerBreakdown
  pp_core_detail :: "CoreAttribution list"
  pp_attribution_method :: AttributionMethod

record ContainerPower =
  cp_container_id :: str
  cp_name :: str
  cp_cgroup_id :: u64
  cp_power :: PowerBreakdown
  cp_processes :: "ProcessPower list"

record PodPower =
  pod_pod_uid :: str
  pod_name :: str
  pod_namespace :: str
  pod_power :: PowerBreakdown
  pod_containers :: "ContainerPower list"

record NamespacePower =
  nsp_namespace :: str
  nsp_power :: PowerBreakdown
  nsp_pod_count :: nat

record NodePower =
  np_measured :: PowerBreakdown
  np_platform_uw :: "u64 option"
  np_attributed_total_uw :: u64

record Reconciliation =
  rc_platform_uw :: "u64 option"
  rc_component_sum_uw :: u64
  rc_attributed_sum_uw :: u64
  rc_unaccounted_uw :: "64 word"
  rc_error_ratio :: f64

record AttributionSnapshot =
  as_timestamp :: instant
  as_interval_ns :: u64
  as_node :: NodePower
  as_processes :: "ProcessPower list"
  as_pods :: "PodPower list"
  as_namespaces :: "NamespacePower list"
  as_idle_power :: PowerBreakdown
  as_reconciliation :: Reconciliation

record ObservationSnapshot =
  os_pid_cpu_times :: "(PidCpuKey \<times> u64) list"
  os_cpu_freq_times :: "(CpuFreqKey \<times> u64) list"
  os_core_counters :: "(u32 \<times> CoreCounters) list"
  os_pid_cgroups :: "(u32, u64) hmap"

end
