(* ===== verification/Local_Store.thy ===== *)
theory Local_Store
  imports Attr_Types
begin

text \<open>
  The agent's local store (\<open>keck-agent/src/store/mod.rs\<close>): two bounded rings and the
  outbox of summaries that wait to be sent upstream, and the query server on top of it
  (\<open>keck-agent/src/output/query.rs\<close>).  A \<open>VecDeque\<close> is a list, front first.  The rings
  satisfy the interface \<open>bounded_ring\<close>: the contents are always the most recent
  elements, as many as the capacity.
\<close>

record PodSummary =
  ps_timestamp :: instant
  ps_pod_uid :: str
  ps_name :: str
  ps_namespace :: str
  ps_cpu_uw :: u64
  ps_memory_uw :: u64
  ps_gpu_uw :: u64
  ps_total_uw :: u64

definition PodSummary_from :: "instant \<Rightarrow> PodPower \<Rightarrow> PodSummary" where
  "PodSummary_from now pod =
     \<lparr>ps_timestamp = now, ps_pod_uid = pod_pod_uid pod, ps_name = pod_name pod, ps_namespace = pod_namespace pod,
      ps_cpu_uw = pb_cpu_uw (pod_power pod), ps_memory_uw = pb_memory_uw (pod_power pod),
      ps_gpu_uw = pb_gpu_uw (pod_power pod), ps_total_uw = pb_total_uw (pod_power pod)\<rparr>"

datatype StoreProfile =
    Minimal (detail_capacity: nat) (summary_capacity: nat)
  | Standard (detail_capacity: nat) (summary_capacity: nat)
  | Full (detail_capacity: nat) (summary_capacity: nat)

definition profile_minimal :: StoreProfile where "profile_minimal = Minimal 100 5000"
definition profile_standard :: StoreProfile where "profile_standard = Standard 500 50000"
definition profile_full :: StoreProfile where "profile_full = Full 2000 100000"

record LocalStore =
  ls_detail_ring :: "AttributionSnapshot list"
  ls_summary_ring :: "PodSummary list"
  ls_outbox :: "PodSummary list"
  ls_profile :: StoreProfile

definition store_new :: "StoreProfile \<Rightarrow> LocalStore" where
  "store_new profile = \<lparr>ls_detail_ring = [], ls_summary_ring = [], ls_outbox = [], ls_profile = profile\<rparr>"

text \<open>\<open>if ring.len() >= cap { ring.pop_front(); } ring.push_back(x)\<close>\<close>

definition ring_push :: "nat \<Rightarrow> 'a \<Rightarrow> 'a list \<Rightarrow> 'a list" where
  "ring_push cap x ring = (if cap \<le> length ring then tl ring else ring) @ [x]"

definition push_summary :: "PodSummary \<Rightarrow> LocalStore \<Rightarrow> LocalStore" where
  "push_summary summary s =
     s\<lparr>ls_outbox := ls_outbox s @ [summary],
       ls_summary_ring := ring_push (summary_capacity (ls_profile s)) summary (ls_summary_ring s)\<rparr>"

text \<open>\<open>now i\<close> is the clock when the summary of the \<open>i\<close>-th pod is made.\<close>

definition push :: "(nat \<Rightarrow> instant) \<Rightarrow> AttributionSnapshot \<Rightarrow> LocalStore \<Rightarrow> LocalStore" where
  "push now snapshot s =
     (let summaries = map (\<lambda>(i, pod). PodSummary_from (now i) pod) (enumerate 0 (as_pods snapshot));
          s1 = s\<lparr>ls_detail_ring := ring_push (detail_capacity (ls_profile s)) snapshot (ls_detail_ring s)\<rparr>
      in fold push_summary summaries s1)"

definition latest :: "LocalStore \<Rightarrow> AttributionSnapshot option" where
  "latest s = (if ls_detail_ring s = [] then None else Some (last (ls_detail_ring s)))"

definition query_pod_processes :: "LocalStore \<Rightarrow> str \<Rightarrow> instant \<Rightarrow> ProcessPower list" where
  "query_pod_processes s pod_uid since =
     concat (map (\<lambda>snap. concat (map (\<lambda>p. concat (map cp_processes (pod_containers p)))
                                 (filter (\<lambda>p. pod_pod_uid p = pod_uid) (as_pods snap))))
       (takeWhile (\<lambda>snap. since \<le> as_timestamp snap) (rev (ls_detail_ring s))))"

definition query_namespace_pods :: "LocalStore \<Rightarrow> str \<Rightarrow> instant \<Rightarrow> PodSummary list" where
  "query_namespace_pods s namespace since =
     filter (\<lambda>p. ps_namespace p = namespace)
       (takeWhile (\<lambda>p. since \<le> ps_timestamp p) (rev (ls_summary_ring s)))"

definition reconciliation_history :: "LocalStore \<Rightarrow> nat \<Rightarrow> Reconciliation list" where
  "reconciliation_history s n = map as_reconciliation (take n (rev (ls_detail_ring s)))"

definition drain_outbox :: "LocalStore \<Rightarrow> PodSummary list \<times> LocalStore" where
  "drain_outbox s = (ls_outbox s, s\<lparr>ls_outbox := []\<rparr>)"

definition requeue :: "PodSummary list \<Rightarrow> LocalStore \<Rightarrow> LocalStore" where
  "requeue summaries s = fold (\<lambda>x s. s\<lparr>ls_outbox := x # ls_outbox s\<rparr>) (rev summaries) s"

definition estimated_memory :: "LocalStore \<Rightarrow> nat" where
  "estimated_memory s =
     length (ls_detail_ring s) * 4096 + length (ls_summary_ring s) * 128 + length (ls_outbox s) * 128"

subsection \<open>Query server\<close>

datatype QueryRequest =
    QNodeSummary
  | QPodDetail str int
  | QNamespacePods str int
  | QReconciliationHistory nat
  | QAgentHealth

record NodeSummaryResponse =
  nsr_cpu_watts :: f64
  nsr_memory_watts :: f64
  nsr_gpu_watts :: f64
  nsr_platform_watts :: "f64 option"
  nsr_idle_watts :: f64
  nsr_error_ratio :: f64
  nsr_pod_count :: nat
  nsr_process_count :: nat

record ProcessDetail =
  pd_pid :: u32
  pd_comm :: str
  pd_cpu_watts :: f64
  pd_memory_watts :: f64
  pd_gpu_watts :: f64
  pd_core_count :: nat

record PodSummaryResponse =
  psr_name :: str
  psr_namespace :: str
  psr_total_watts :: f64

record ReconciliationEntry =
  re_error_ratio :: f64
  re_unaccounted_watts :: f64

record AgentHealthResponse =
  ahr_memory_bytes :: nat
  ahr_cpu_usage_percent :: f64
  ahr_ebpf_map_entries :: nat
  ahr_uptime_secs :: u64

datatype QueryResponse =
    RNodeSummary NodeSummaryResponse
  | RPodDetail str "ProcessDetail list"
  | RNamespacePods str "PodSummaryResponse list"
  | RReconciliationHistory "ReconciliationEntry list"
  | RAgentHealth AgentHealthResponse
  | RError str

definition f64_of_i64 :: "64 word \<Rightarrow> f64" where
  "f64_of_i64 w = rnd (of_int (sint w))"

definition watts :: "u64 \<Rightarrow> f64" where
  "watts uw = f64_of_u64 uw / f64_lit 1000000"

definition query_handle :: "instant \<Rightarrow> LocalStore \<Rightarrow> QueryRequest \<Rightarrow> QueryResponse" where
  "query_handle now store request =
     (case request of
        QNodeSummary \<Rightarrow>
          (case latest store of
             None \<Rightarrow> RError ''No data yet''
           | Some snapshot \<Rightarrow>
               RNodeSummary
                 \<lparr>nsr_cpu_watts = watts (pb_cpu_uw (np_measured (as_node snapshot))),
                  nsr_memory_watts = watts (pb_memory_uw (np_measured (as_node snapshot))),
                  nsr_gpu_watts = watts (pb_gpu_uw (np_measured (as_node snapshot))),
                  nsr_platform_watts = map_option watts (np_platform_uw (as_node snapshot)),
                  nsr_idle_watts = watts (pb_total_uw (as_idle_power snapshot)),
                  nsr_error_ratio = rc_error_ratio (as_reconciliation snapshot),
                  nsr_pod_count = length (as_pods snapshot),
                  nsr_process_count = length (as_processes snapshot)
                    + length (concat (map cp_processes (concat (map pod_containers (as_pods snapshot)))))\<rparr>)
      | QPodDetail pod_uid lookback \<Rightarrow>
          let since = now - lookback;
              processes = query_pod_processes store pod_uid since
          in RPodDetail pod_uid
               (map (\<lambda>p. \<lparr>pd_pid = pp_pid p, pd_comm = pp_comm p,
                         pd_cpu_watts = watts (pb_cpu_uw (pp_power p)),
                         pd_memory_watts = watts (pb_memory_uw (pp_power p)),
                         pd_gpu_watts = watts (pb_gpu_uw (pp_power p)),
                         pd_core_count = length (pp_core_detail p)\<rparr>) processes)
      | QNamespacePods namespace lookback \<Rightarrow>
          let since = now - lookback;
              pods = query_namespace_pods store namespace since
          in RNamespacePods namespace
               (map (\<lambda>p. \<lparr>psr_name = ps_name p, psr_namespace = ps_namespace p,
                         psr_total_watts = watts (ps_total_uw p)\<rparr>) pods)
      | QReconciliationHistory n \<Rightarrow>
          RReconciliationHistory
            (map (\<lambda>r. \<lparr>re_error_ratio = rc_error_ratio r,
                      re_unaccounted_watts = f64_of_i64 (rc_unaccounted_uw r) / f64_lit 1000000\<rparr>)
               (reconciliation_history store n))
      | QAgentHealth \<Rightarrow>
          RAgentHealth \<lparr>ahr_memory_bytes = estimated_memory store, ahr_cpu_usage_percent = f64_lit 0,
                        ahr_ebpf_map_entries = 0, ahr_uptime_secs = 0\<rparr>)"

subsection \<open>The interface of a bounded ring\<close>

definition lastn :: "nat \<Rightarrow> 'a list \<Rightarrow> 'a list" where
  "lastn n xs = drop (length xs - n) xs"

lemma length_lastn [simp]: "length (lastn n xs) = min n (length xs)"
  by (simp add: lastn_def)

lemma lastn_append: "lastn n (lastn n xs @ ys) = lastn n (xs @ ys)"
  by (cases "n \<le> length xs") (simp_all add: lastn_def add.commute)

lemma lastn_all: "length xs \<le> n \<Longrightarrow> lastn n xs = xs"
  by (simp add: lastn_def)

lemma last_lastn: "0 < n \<Longrightarrow> xs \<noteq> [] \<Longrightarrow> last (lastn n xs) = last xs"
  by (simp add: lastn_def last_drop)

locale bounded_ring =
  fixes rpush :: "'a \<Rightarrow> 'r \<Rightarrow> 'r" and contents :: "'r \<Rightarrow> 'a list" and cap :: nat and wf :: "'r \<Rightarrow> bool"
  assumes wf_push: "wf r \<Longrightarrow> wf (rpush x r)"
    and push_contents: "wf r \<Longrightarrow> contents (rpush x r) = lastn cap (contents r @ [x])"
    and wf_contents: "wf r \<Longrightarrow> length (contents r) \<le> cap"
begin

lemma wf_pushes: "wf r \<Longrightarrow> wf (fold rpush xs r)"
  by (induction xs arbitrary: r) (simp_all add: wf_push)

lemma pushes_contents: "wf r \<Longrightarrow> contents (fold rpush xs r) = lastn cap (contents r @ xs)"
proof (induction xs arbitrary: r)
  case (Cons x xs)
  then show ?case using lastn_append [of cap "contents r @ [x]" xs] by (simp add: wf_push push_contents)
qed (simp add: lastn_all wf_contents)

lemma pushes_bounded: "wf r \<Longrightarrow> length (contents (fold rpush xs r)) \<le> cap"
  by (simp add: wf_contents wf_pushes)

end

lemma ring_push_lastn:
  "0 < cap \<Longrightarrow> length r \<le> cap \<Longrightarrow> ring_push cap x r = lastn cap (r @ [x])"
  by (auto simp: ring_push_def lastn_def drop_Suc)

interpretation ring: bounded_ring "ring_push cap" "\<lambda>r. r" cap "\<lambda>r. 0 < cap \<and> length r \<le> cap" for cap
  by unfold_locales (auto simp: ring_push_lastn)

subsection \<open>What the store retains\<close>

definition push_all :: "((nat \<Rightarrow> instant) \<times> AttributionSnapshot) list \<Rightarrow> LocalStore \<Rightarrow> LocalStore" where
  "push_all xs s = fold (\<lambda>(now, snap). push now snap) xs s"

definition summaries_of :: "(nat \<Rightarrow> instant) \<times> AttributionSnapshot \<Rightarrow> PodSummary list" where
  "summaries_of x = map (\<lambda>(i, pod). PodSummary_from (fst x i) pod) (enumerate 0 (as_pods (snd x)))"

lemma fold_push_summary:
  "ls_detail_ring (fold push_summary xs s) = ls_detail_ring s"
  "ls_profile (fold push_summary xs s) = ls_profile s"
  "ls_outbox (fold push_summary xs s) = ls_outbox s @ xs"
  "ls_summary_ring (fold push_summary xs s) =
     fold (ring_push (summary_capacity (ls_profile s))) xs (ls_summary_ring s)"
  by (induction xs arbitrary: s) (simp_all add: push_summary_def)

lemma push_fields:
  "ls_detail_ring (push now snap s) = ring_push (detail_capacity (ls_profile s)) snap (ls_detail_ring s)"
  "ls_profile (push now snap s) = ls_profile s"
  "ls_outbox (push now snap s) = ls_outbox s @ summaries_of (now, snap)"
  "ls_summary_ring (push now snap s) =
     fold (ring_push (summary_capacity (ls_profile s))) (summaries_of (now, snap)) (ls_summary_ring s)"
  by (simp_all add: push_def summaries_of_def Let_def fold_push_summary)

lemma push_all_fields:
  "ls_profile (push_all xs s) = ls_profile s"
  "ls_detail_ring (push_all xs s) = fold (ring_push (detail_capacity (ls_profile s))) (map snd xs) (ls_detail_ring s)"
  "ls_outbox (push_all xs s) = ls_outbox s @ concat (map summaries_of xs)"
  "ls_summary_ring (push_all xs s) =
     fold (ring_push (summary_capacity (ls_profile s))) (concat (map summaries_of xs)) (ls_summary_ring s)"
  unfolding push_all_def by (induction xs arbitrary: s) (auto simp: push_fields)

text \<open>
  C33: After any number of pushes the store holds exactly the most recent snapshots and
  the most recent pod summaries, as many as its profile allows, so its rings never
  exceed their capacity and \<open>latest\<close> is the last snapshot pushed.
\<close>

theorem store_keeps_most_recent:
  assumes "0 < detail_capacity profile" and "0 < summary_capacity profile"
  shows "let s = push_all xs (store_new profile) in
    ls_detail_ring s = lastn (detail_capacity profile) (map snd xs) \<and>
    ls_summary_ring s = lastn (summary_capacity profile) (concat (map summaries_of xs)) \<and>
    latest s = (if xs = [] then None else Some (snd (last xs)))"
proof -
  define s where "s = push_all xs (store_new profile)"
  have "ls_detail_ring s = lastn (detail_capacity profile) (map snd xs)"
    using ring.pushes_contents [of "detail_capacity profile" "[]"] assms(1)
    by (simp add: s_def push_all_fields store_new_def)
  moreover have "ls_summary_ring s = lastn (summary_capacity profile) (concat (map summaries_of xs))"
    using ring.pushes_contents [of "summary_capacity profile" "[]"] assms(2)
    by (simp add: s_def push_all_fields store_new_def)
  moreover have "lastn (detail_capacity profile) (map snd xs) = [] \<longleftrightarrow> xs = []"
    using assms(1) by (cases xs) (auto simp: lastn_def)
  ultimately show ?thesis
    unfolding s_def [symmetric] Let_def
    using assms(1) last_lastn [of "detail_capacity profile" "map snd xs"] by (auto simp: latest_def last_map)
qed

lemma requeue_outbox: "ls_outbox (requeue xs s) = xs @ ls_outbox s"
proof -
  have "ls_outbox (fold (\<lambda>x s. s\<lparr>ls_outbox := x # ls_outbox s\<rparr>) ys s) = rev ys @ ls_outbox s" for ys and s :: LocalStore
    by (induction ys arbitrary: s) simp_all
  then show ?thesis by (simp add: requeue_def)
qed

lemma requeue_fields:
  "ls_detail_ring (requeue xs s) = ls_detail_ring s" "ls_summary_ring (requeue xs s) = ls_summary_ring s"
  "ls_profile (requeue xs s) = ls_profile s"
proof -
  have "ls_detail_ring (fold (\<lambda>x s. s\<lparr>ls_outbox := x # ls_outbox s\<rparr>) ys s) = ls_detail_ring s \<and>
      ls_summary_ring (fold (\<lambda>x s. s\<lparr>ls_outbox := x # ls_outbox s\<rparr>) ys s) = ls_summary_ring s \<and>
      ls_profile (fold (\<lambda>x s. s\<lparr>ls_outbox := x # ls_outbox s\<rparr>) ys s) = ls_profile s" for ys and s :: LocalStore
    by (induction ys arbitrary: s) simp_all
  then show "ls_detail_ring (requeue xs s) = ls_detail_ring s" "ls_summary_ring (requeue xs s) = ls_summary_ring s"
    "ls_profile (requeue xs s) = ls_profile s" by (simp_all add: requeue_def)
qed

text \<open>
  C34: A failed upload loses and reorders nothing: draining the outbox, pushing more
  snapshots meanwhile and then requeueing the drained summaries gives the same store
  as never having drained it.
\<close>

theorem failed_upload_restores:
  "requeue (fst (drain_outbox s)) (push_all xs (snd (drain_outbox s))) = push_all xs s"
proof (rule LocalStore.equality)
  show "ls_outbox (requeue (fst (drain_outbox s)) (push_all xs (snd (drain_outbox s)))) = ls_outbox (push_all xs s)"
    by (simp add: requeue_outbox push_all_fields drain_outbox_def)
qed (simp_all add: requeue_fields push_all_fields drain_outbox_def)

lemma takeWhile_rev_sorted:
  "sorted (map f xs) \<Longrightarrow> takeWhile (\<lambda>x. b \<le> f x) (rev xs) = rev (filter (\<lambda>x. b \<le> f x) xs)" for b :: int
proof (induction xs)
  case (Cons x xs)
  show ?case
  proof (cases "b \<le> f x")
    case True
    then have "\<forall>y \<in> set (rev xs). b \<le> f y" using Cons.prems by auto
    then show ?thesis using True by (simp add: takeWhile_append2 filter_id_conv)
  next
    case False
    then show ?thesis using Cons by (simp add: takeWhile_append)
  qed
qed simp

text \<open>
  When the clock does not run backwards, the history queries return exactly the
  stored entries since the given time, newest first: scanning from the newest entry and
  stopping at the first old one misses nothing.
\<close>

lemma queries_exact:
  assumes "sorted (map ps_timestamp (ls_summary_ring s))" and "sorted (map as_timestamp (ls_detail_ring s))"
  shows "query_namespace_pods s ns since =
      rev (filter (\<lambda>p. since \<le> ps_timestamp p \<and> ps_namespace p = ns) (ls_summary_ring s)) \<and>
    query_pod_processes s uid since =
      concat (map (\<lambda>snap. concat (map (\<lambda>p. concat (map cp_processes (pod_containers p)))
                                   (filter (\<lambda>p. pod_pod_uid p = uid) (as_pods snap))))
        (rev (filter (\<lambda>snap. since \<le> as_timestamp snap) (ls_detail_ring s))))"
  using takeWhile_rev_sorted [OF assms(1)] takeWhile_rev_sorted [OF assms(2)]
  by (simp add: query_namespace_pods_def query_pod_processes_def rev_filter filter_filter conj_commute)

subsection \<open>A short history\<close>

definition sample_pod :: PodPower where
  "sample_pod = \<lparr>pod_pod_uid = ''u1'', pod_name = ''web'', pod_namespace = ''shop'',
     pod_power = pb_default\<lparr>pb_cpu_uw := 5\<rparr>, pod_containers = []\<rparr>"

definition sample_snapshot :: "instant \<Rightarrow> AttributionSnapshot" where
  "sample_snapshot t =
     \<lparr>as_timestamp = t, as_interval_ns = 1,
      as_node = \<lparr>np_measured = pb_default, np_platform_uw = None, np_attributed_total_uw = 0\<rparr>,
      as_processes = [], as_pods = [sample_pod], as_namespaces = [], as_idle_power = pb_default,
      as_reconciliation = \<lparr>rc_platform_uw = None, rc_component_sum_uw = 0, rc_attributed_sum_uw = 0,
                           rc_unaccounted_uw = 0, rc_error_ratio = f64_lit 0\<rparr>\<rparr>"

definition sample_history :: "((nat \<Rightarrow> instant) \<times> AttributionSnapshot) list" where
  "sample_history = map (\<lambda>t. (\<lambda>_. t, sample_snapshot t)) [1, 2, 3]"

theorem store_keeps_most_recent_witness:
  "map as_timestamp (ls_detail_ring (push_all sample_history (store_new (Minimal 2 1)))) = [2, 3] \<and>
   map ps_timestamp (ls_summary_ring (push_all sample_history (store_new (Minimal 2 1)))) = [3]"
  using store_keeps_most_recent [of "Minimal 2 1" sample_history]
  by (simp add: Let_def sample_history_def lastn_def summaries_of_def sample_snapshot_def PodSummary_from_def)

lemma queries_exact_witness:
  "let s = push_all sample_history (store_new (Minimal 3 3)) in
   map ps_timestamp (query_namespace_pods s ''shop'' 2) = [3, 2] \<and> query_pod_processes s ''u1'' 2 = []"
proof -
  let ?s = "push_all sample_history (store_new (Minimal 3 3))"
  have r: "map ps_timestamp (ls_summary_ring ?s) = [1, 2, 3]" "map as_timestamp (ls_detail_ring ?s) = [1, 2, 3]"
      "ls_summary_ring ?s = map (\<lambda>t. PodSummary_from t sample_pod) [1, 2, 3]"
      "ls_detail_ring ?s = map sample_snapshot [1, 2, 3]"
    by (simp_all add: sample_history_def push_all_def push_def push_summary_def ring_push_def store_new_def
        sample_snapshot_def PodSummary_from_def)
  show ?thesis
    using queries_exact [of ?s "''shop''" 2 "''u1''"]
    by (simp add: r Let_def) (simp add: PodSummary_from_def sample_snapshot_def sample_pod_def)
qed

text \<open>
  The rings are bounded by the profile but the outbox is not: without a successful
  upload it grows by every pod of every snapshot.
\<close>

theorem outbox_unbounded: "\<exists>xs. n \<le> length (ls_outbox (push_all xs (store_new profile)))"
proof -
  let ?xs = "replicate n (\<lambda>_. 0, sample_snapshot 0)"
  have "length (ls_outbox (push_all ?xs (store_new profile))) = n"
    by (simp add: push_all_fields store_new_def summaries_of_def sample_snapshot_def length_concat sum_list_replicate)
  then show ?thesis by (intro exI [of _ ?xs]) simp
qed

end
