(* ===== verification/Rust_Parse.thy ===== *)
theory Rust_Parse
  imports Rust_Str F64
begin

text \<open>
  Parsing and printing of numbers and the line and word iterators of Rust's \<open>str\<close>.
  \<open>parse::<f64>\<close> is the decimal grammar of the standard library, rounded correctly once.
\<close>

subsection \<open>Characters and pieces\<close>

definition is_digit :: "char \<Rightarrow> bool" where
  "is_digit c \<longleftrightarrow> 48 \<le> (of_char c :: nat) \<and> (of_char c :: nat) \<le> 57"

definition digit_val :: "char \<Rightarrow> int" where
  "digit_val c = int (of_char c) - 48"

definition is_upper :: "char \<Rightarrow> bool" where
  "is_upper c \<longleftrightarrow> 65 \<le> (of_char c :: nat) \<and> (of_char c :: nat) \<le> 90"

definition is_lower :: "char \<Rightarrow> bool" where
  "is_lower c \<longleftrightarrow> 97 \<le> (of_char c :: nat) \<and> (of_char c :: nat) \<le> 122"

definition to_lowercase :: "str \<Rightarrow> str" where
  "to_lowercase s = map (\<lambda>c. if is_upper c then char_of ((of_char c :: nat) + 32) else c) s"

definition newline :: char where "newline = char_of (10 :: nat)"
definition carriage_return :: char where "carriage_return = char_of (13 :: nat)"
definition quote :: char where "quote = char_of (34 :: nat)"

definition find_char :: "char \<Rightarrow> str \<Rightarrow> nat option" where
  "find_char c s = (if c \<in> set s then Some (length (takeWhile (\<lambda>x. x \<noteq> c) s)) else None)"

text \<open>\<open>lines()\<close>: a final line without newline keeps a carriage return.\<close>

definition lines :: "str \<Rightarrow> str list" where
  "lines s =
     (let ps = split_char newline s;
          strip = (\<lambda>l. case strip_suffix l [carriage_return] of None \<Rightarrow> l | Some l' \<Rightarrow> l')
      in map strip (butlast ps) @ (if last ps = [] then [] else [last ps]))"

definition split_whitespace :: "str \<Rightarrow> str list" where
  "split_whitespace s =
     filter (\<lambda>p. p \<noteq> []) (split_char (CHR '' '') (map (\<lambda>c. if is_ws c then CHR '' '' else c) s))"

definition rsplit_once :: "char \<Rightarrow> str \<Rightarrow> (str \<times> str) option" where
  "rsplit_once c s =
     (if c \<in> set s
      then Some (rev (tl (dropWhile (\<lambda>x. x \<noteq> c) (rev s))), rev (takeWhile (\<lambda>x. x \<noteq> c) (rev s)))
      else None)"

text \<open>\<open>find_map\<close> of an iterator.\<close>

fun find_map :: "('a \<Rightarrow> 'b option) \<Rightarrow> 'a list \<Rightarrow> 'b option" where
  "find_map f [] = None"
| "find_map f (x # xs) = (case f x of Some y \<Rightarrow> Some y | None \<Rightarrow> find_map f xs)"

subsection \<open>Numbers\<close>

definition digits_val :: "str \<Rightarrow> int" where
  "digits_val ds = foldl (\<lambda>n c. 10 * n + digit_val c) 0 ds"

definition strip_plus :: "str \<Rightarrow> str" where
  "strip_plus s = (case s of c # t \<Rightarrow> if c = CHR ''+'' then t else s | [] \<Rightarrow> [])"

definition parse_uint :: "nat \<Rightarrow> str \<Rightarrow> int option" where
  "parse_uint bits s =
     (let ds = strip_plus s
      in if ds \<noteq> [] \<and> list_all is_digit ds \<and> digits_val ds < 2 ^ bits then Some (digits_val ds) else None)"

definition parse_u64 :: "str \<Rightarrow> u64 option" where
  "parse_u64 s = map_option of_int (parse_uint 64 s)"

definition parse_u32 :: "str \<Rightarrow> u32 option" where
  "parse_u32 s = map_option of_int (parse_uint 32 s)"

definition parse_u8 :: "str \<Rightarrow> u8 option" where
  "parse_u8 s = map_option of_int (parse_uint 8 s)"

text \<open>The message of the \<open>ParseIntError\<close>: the digits are scanned until one is wrong or the value is too large.\<close>

fun int_error_scan :: "nat \<Rightarrow> int \<Rightarrow> str \<Rightarrow> str" where
  "int_error_scan bits acc [] = []"
| "int_error_scan bits acc (c # cs) =
     (if \<not> is_digit c then ''invalid digit found in string''
      else if 2 ^ bits \<le> 10 * acc + digit_val c then ''number too large to fit in target type''
      else int_error_scan bits (10 * acc + digit_val c) cs)"

definition parse_int_error :: "nat \<Rightarrow> str \<Rightarrow> str" where
  "parse_int_error bits s =
     (if s = [] then ''cannot parse integer from empty string''
      else if s = ''+'' then ''invalid digit found in string''
      else int_error_scan bits 0 (strip_plus s))"

definition strip_sign :: "str \<Rightarrow> bool \<times> str" where
  "strip_sign s =
     (case s of c # t \<Rightarrow> if c = CHR ''-'' then (True, t) else if c = CHR ''+'' then (False, t) else (False, s)
      | [] \<Rightarrow> (False, []))"

definition parse_exponent :: "str \<Rightarrow> int option" where
  "parse_exponent s =
     (case s of
        [] \<Rightarrow> Some 0
      | c # t \<Rightarrow>
          if c = CHR ''e'' \<or> c = CHR ''E''
          then let (neg, ds) = strip_sign t
               in if ds \<noteq> [] \<and> list_all is_digit ds
                  then Some (if neg then - digits_val ds else digits_val ds) else None
          else None)"

definition parse_f64 :: "str \<Rightarrow> f64 option" where
  "parse_f64 s =
     (let (neg, t) = strip_sign s; low = to_lowercase t
      in if low = ''nan'' then Some NaN
         else if low = ''inf'' \<or> low = ''infinity'' then Some (if neg then NInf else PInf)
         else let ip = takeWhile is_digit t; r1 = dropWhile is_digit t;
                  (fp, r2) = (case r1 of
                     c # u \<Rightarrow> if c = CHR ''.'' then (takeWhile is_digit u, dropWhile is_digit u) else ([], r1)
                   | [] \<Rightarrow> ([], []))
              in if ip = [] \<and> fp = [] then None
                 else map_option (\<lambda>e.
                        let q = of_int (digits_val (ip @ fp)) * 10 powi (e - int (length fp))
                        in rnd (if neg then - q else q)) (parse_exponent r2))"

text \<open>\<open>{:.0}\<close> rounds half to even; \<open>{:.1}\<close> likewise in tenths.\<close>

definition show_f64_fixed :: "nat \<Rightarrow> f64 \<Rightarrow> str" where
  "show_f64_fixed places x =
     (case x of
        NaN \<Rightarrow> ''NaN'' | PInf \<Rightarrow> ''inf'' | NInf \<Rightarrow> ''-inf''
      | Fin q \<Rightarrow>
          let n = nat (rne (\<bar>q\<bar> * 10 ^ places)); ip = show_nat (n div 10 ^ places);
              fp = show_nat (n mod 10 ^ places);
              frac = (if places = 0 then [] else CHR ''.'' # replicate (places - length fp) (CHR ''0'') @ fp)
          in (if q < 0 then ''-'' else []) @ ip @ frac)"

text \<open>\<open>f64::min\<close>, \<open>f64::max\<close> and \<open>clamp\<close>: NaN loses against a number in the first two.\<close>

definition f64_min :: "f64 \<Rightarrow> f64 \<Rightarrow> f64" where
  "f64_min x y = (if x = NaN then y else if y = NaN then x else if x \<le> y then x else y)"

definition f64_max :: "f64 \<Rightarrow> f64 \<Rightarrow> f64" where
  "f64_max x y = (if x = NaN then y else if y = NaN then x else if y \<le> x then x else y)"

definition f64_clamp :: "f64 \<Rightarrow> f64 \<Rightarrow> f64 \<Rightarrow> f64" where
  "f64_clamp x lo hi = (if x < lo then lo else if hi < x then hi else x)"

subsection \<open>Facts\<close>

lemma find_char_append: "c \<notin> set s \<Longrightarrow> find_char c (s @ c # t) = Some (length s)"
  by (simp add: find_char_def takeWhile_append)

lemma length_takeWhile_char: "c \<in> set s \<Longrightarrow> length (takeWhile (\<lambda>x. x \<noteq> c) s) < length s"
  by (induction s) auto

lemma find_char_Some: "find_char c s = Some i \<Longrightarrow> i < length s"
  by (auto simp: find_char_def length_takeWhile_char split: if_splits)

lemma find_char_None: "find_char c s = None \<longleftrightarrow> c \<notin> set s"
  by (simp add: find_char_def)

lemma of_char_digit: "n < 10 \<Longrightarrow> (of_char (char_of (48 + n) :: char) :: nat) = 48 + n"
  by simp

lemma digits_val_append: "digits_val (ds @ [c]) = 10 * digits_val ds + digit_val c"
  by (simp add: digits_val_def)

lemma show_nat_digits: "list_all is_digit (show_nat n) \<and> show_nat n \<noteq> [] \<and> digits_val (show_nat n) = int n"
proof (induction n rule: show_nat.induct)
  case (1 n)
  show ?case
  proof (cases "n < 10")
    case True
    then show ?thesis
      by (subst (1 2 3) show_nat.simps) (simp add: is_digit_def digits_val_def digit_val_def)
  next
    case False
    have "n mod 10 \<le> 9" by presburger
    then have "is_digit (char_of (48 + n mod 10))" "digit_val (char_of (48 + n mod 10)) = int (n mod 10)"
      by (simp_all add: is_digit_def digit_val_def)
    then show ?thesis using False 1
      by (subst (1 2 3) show_nat.simps) (simp add: digits_val_append zdiv_int zmod_int)
  qed
qed

lemma strip_plus_digits: "list_all is_digit s \<Longrightarrow> strip_plus s = s"
  by (cases s) (auto simp: strip_plus_def is_digit_def)

text \<open>Printing a 64-bit number and parsing it again gives the number.\<close>

lemma parse_show_u64: "parse_u64 (show_nat (unat w)) = Some w"
proof -
  have "int (unat w) < 2 ^ 64" using unsigned_less [where 'a = int, of w] by simp
  then show ?thesis
    using show_nat_digits [of "unat w"] by (simp add: parse_u64_def parse_uint_def strip_plus_digits)
qed

end
