(* ===== verification/Json.thy ===== *)
theory Json
  imports F64
begin

text \<open>
  \<open>serde_json::Value\<close> and the accessors the sources use.  An object keeps the order of
  its members.  A number is an integer or a finite double.
\<close>

datatype json = JNull | JBool bool | JInt int | JFloat rat | JStr str | JArr "json list" | JObj "(str \<times> json) list"

fun json_get :: "str \<Rightarrow> json \<Rightarrow> json option" where
  "json_get k (JObj ms) = map_of ms k"
| "json_get k _ = None"

fun json_array :: "json \<Rightarrow> json list option" where
  "json_array (JArr vs) = Some vs"
| "json_array _ = None"

fun json_str :: "json \<Rightarrow> str option" where
  "json_str (JStr s) = Some s"
| "json_str _ = None"

fun json_as_f64 :: "json \<Rightarrow> f64 option" where
  "json_as_f64 (JInt i) = Some (rnd (of_int i))"
| "json_as_f64 (JFloat q) = Some (Fin q)"
| "json_as_f64 _ = None"

end
