(* ===== verification/Hardware.thy ===== *)
theory Hardware
  imports Attr_Types Rust_Parse Json
begin

text \<open>
  Power sources of the agent (\<open>keck-agent/src/hardware/mod.rs\<close>, \<open>rapl.rs\<close>, \<open>hwmon.rs\<close>):
  discovery in sysfs and the reads.  The file system is a parameter: the content of a
  file, the entries of a directory (each of which can fail), and whether a path exists.
  \<open>hardware::Component\<close> and \<open>hardware::ReadingType\<close> have the variants of the types in
  the attribution.
\<close>

record file_system =
  fs_read :: "str \<Rightarrow> str option"
  fs_dir :: "str \<Rightarrow> str option list option"
  fs_exists :: "str \<Rightarrow> bool"

datatype Granularity = GNode | GSocket u8 | GCore u8 "16 word" | GDevice u8

fun component_display :: "Component \<Rightarrow> str" where
  "component_display Cpu = ''cpu''"
| "component_display Memory = ''memory''"
| "component_display Gpu = ''gpu''"
| "component_display Nic = ''nic''"
| "component_display Storage = ''storage''"
| "component_display Fan = ''fan''"
| "component_display Platform = ''platform''"

record PowerReading =
  pr_source_id :: str
  pr_timestamp :: instant
  pr_component :: Component
  pr_granularity :: Granularity
  pr_reading_type :: ReadingType
  pr_energy_uj :: "u64 option"
  pr_power_uw :: "u64 option"
  pr_max_energy_uj :: u64

datatype SourceError = Unavailable str | PermissionDenied str | SourceRead | SourceParse str

definition sysfs_root :: "file_system \<Rightarrow> str" where
  "sysfs_root fs = (if fs_exists fs ''/host/sys/class'' then ''/host/sys'' else ''/sys'')"

definition procfs_root :: "file_system \<Rightarrow> str" where
  "procfs_root fs = (if fs_exists fs ''/host/proc/1'' then ''/host/proc'' else ''/proc'')"

definition path_join :: "str \<Rightarrow> str \<Rightarrow> str" where
  "path_join p f = p @ ''/'' @ f"

definition read_u64_file :: "file_system \<Rightarrow> str \<Rightarrow> SourceError + u64" where
  "read_u64_file fs path =
     (case fs_read fs path of
        None \<Rightarrow> Inl SourceRead
      | Some content \<Rightarrow>
          (case parse_u64 (trim content) of
             Some n \<Rightarrow> Inr n
           | None \<Rightarrow> Inl (SourceParse (path @ '': '' @ parse_int_error 64 (trim content)))))"

definition result_or :: "'a \<Rightarrow> 'e + 'a \<Rightarrow> 'a" where
  "result_or d r = (case r of Inl _ \<Rightarrow> d | Inr v \<Rightarrow> v)"

definition read_trimmed :: "file_system \<Rightarrow> str \<Rightarrow> str \<Rightarrow> str" where
  "read_trimmed fs path d = (case fs_read fs path of None \<Rightarrow> d | Some s \<Rightarrow> trim s)"

subsection \<open>RAPL\<close>

record RaplSource =
  rs_id :: str
  rs_name :: str
  rs_path :: str
  rs_component :: Component
  rs_granularity :: Granularity
  rs_max_energy_uj :: u64

definition rapl_new :: "file_system \<Rightarrow> str \<Rightarrow> u8 \<Rightarrow> str \<Rightarrow> Component \<Rightarrow> RaplSource" where
  "rapl_new fs domain socket path component =
     (let s = show_nat (unat socket);
          zone_name = read_trimmed fs (path_join path ''name'') domain
      in \<lparr>rs_id = ''rapl:'' @ domain @ '':'' @ s,
          rs_name = ''RAPL '' @ domain @ '' (socket '' @ s @ ''): '' @ zone_name,
          rs_path = path, rs_component = component, rs_granularity = GSocket socket,
          rs_max_energy_uj = result_or 0 (read_u64_file fs (path_join path ''max_energy_range_uj''))\<rparr>)"

definition rapl_read :: "file_system \<Rightarrow> instant \<Rightarrow> RaplSource \<Rightarrow> SourceError + PowerReading" where
  "rapl_read fs now r =
     (case read_u64_file fs (path_join (rs_path r) ''energy_uj'') of
        Inl e \<Rightarrow> Inl e
      | Inr energy_uj \<Rightarrow>
          Inr \<lparr>pr_source_id = rs_id r, pr_timestamp = now, pr_component = rs_component r,
               pr_granularity = rs_granularity r, pr_reading_type = Estimated, pr_energy_uj = Some energy_uj,
               pr_power_uw = None, pr_max_energy_uj = rs_max_energy_uj r\<rparr>)"

definition rapl_package :: "file_system \<Rightarrow> str \<Rightarrow> str \<Rightarrow> RaplSource option" where
  "rapl_package fs powercap name =
     (if \<not> starts_with name ''intel-rapl:'' then None
      else (case split_char (CHR '':'') name of
              [_, socket_str] \<Rightarrow>
                (case parse_u8 socket_str of
                   None \<Rightarrow> None
                 | Some socket \<Rightarrow>
                     let path = path_join powercap name
                     in if \<not> fs_exists fs (path_join path ''energy_uj'') then None
                        else Some (rapl_new fs ''package'' socket path Cpu))
            | _ \<Rightarrow> None))"

definition rapl_dram :: "file_system \<Rightarrow> str \<Rightarrow> str \<Rightarrow> RaplSource option" where
  "rapl_dram fs powercap name =
     (if \<not> starts_with name ''intel-rapl:'' then None
      else (case split_char (CHR '':'') name of
              [_, socket_str, _] \<Rightarrow>
                (case parse_u8 socket_str of
                   None \<Rightarrow> None
                 | Some socket \<Rightarrow>
                     let path = path_join powercap name
                     in (case fs_read fs (path_join path ''name'') of
                           None \<Rightarrow> None
                         | Some s \<Rightarrow>
                             if trim s \<noteq> ''dram'' then None
                             else if \<not> fs_exists fs (path_join path ''energy_uj'') then None
                             else Some (rapl_new fs ''dram'' socket path Memory)))
            | _ \<Rightarrow> None))"

text \<open>An entry that cannot be read ends the discovery with its error.\<close>

fun scan_entries :: "(str \<Rightarrow> 'a list) \<Rightarrow> str option list \<Rightarrow> 'a list \<Rightarrow> SourceError + 'a list" where
  "scan_entries f [] acc = Inr acc"
| "scan_entries f (None # es) acc = Inl SourceRead"
| "scan_entries f (Some name # es) acc = scan_entries f es (acc @ f name)"

definition option_list :: "'a option \<Rightarrow> 'a list" where
  "option_list x = (case x of None \<Rightarrow> [] | Some v \<Rightarrow> [v])"

definition scan_dir :: "file_system \<Rightarrow> str \<Rightarrow> (str \<Rightarrow> 'a list) \<Rightarrow> SourceError + 'a list" where
  "scan_dir fs path f = (case fs_dir fs path of None \<Rightarrow> Inl SourceRead | Some es \<Rightarrow> scan_entries f es [])"

definition rapl_socket :: "RaplSource \<Rightarrow> u8" where
  "rapl_socket s = (case rs_granularity s of GSocket n \<Rightarrow> n | _ \<Rightarrow> 0)"

definition rapl_discover :: "file_system \<Rightarrow> str \<Rightarrow> SourceError + RaplSource list" where
  "rapl_discover fs sysfs =
     (let powercap = sysfs @ ''/class/powercap''
      in if \<not> fs_exists fs powercap then Inl (Unavailable ''/sys/class/powercap not found (no RAPL support)'')
         else case scan_dir fs powercap (\<lambda>name. option_list (rapl_package fs powercap name)) of
                Inl e \<Rightarrow> Inl e
              | Inr sources \<Rightarrow>
                  if sources = [] then Inl (Unavailable ''No RAPL package domains found'')
                  else Inr (sort_key rapl_socket sources))"

definition discover_dram :: "file_system \<Rightarrow> str \<Rightarrow> SourceError + RaplSource list" where
  "discover_dram fs sysfs =
     (let powercap = sysfs @ ''/class/powercap''
      in if \<not> fs_exists fs powercap then Inl (Unavailable ''no powercap'')
         else case scan_dir fs powercap (\<lambda>name. option_list (rapl_dram fs powercap name)) of
                Inl e \<Rightarrow> Inl e
              | Inr sources \<Rightarrow>
                  if sources = [] then Inl (Unavailable ''No RAPL DRAM domains found'') else Inr sources)"

subsection \<open>hwmon\<close>

datatype HwmonSensor = HPower str | HEnergy str "str option"

record HwmonSource =
  hs_id :: str
  hs_display_name :: str
  hs_chip_name :: str
  hs_component :: Component
  hs_sensor :: HwmonSensor

definition hwmon_read :: "file_system \<Rightarrow> instant \<Rightarrow> HwmonSource \<Rightarrow> SourceError + PowerReading" where
  "hwmon_read fs now h =
     (case hs_sensor h of
        HPower path \<Rightarrow>
          (case read_u64_file fs path of
             Inl e \<Rightarrow> Inl e
           | Inr power_uw \<Rightarrow>
               Inr \<lparr>pr_source_id = hs_id h, pr_timestamp = now, pr_component = hs_component h,
                    pr_granularity = GNode, pr_reading_type = Measured, pr_energy_uj = None,
                    pr_power_uw = Some power_uw, pr_max_energy_uj = 0\<rparr>)
      | HEnergy path max_path \<Rightarrow>
          (case read_u64_file fs path of
             Inl e \<Rightarrow> Inl e
           | Inr energy_uj \<Rightarrow>
               let max_energy = (case max_path of None \<Rightarrow> 0 | Some p \<Rightarrow> result_or 0 (read_u64_file fs p))
               in Inr \<lparr>pr_source_id = hs_id h, pr_timestamp = now, pr_component = hs_component h,
                       pr_granularity = GNode, pr_reading_type = Measured, pr_energy_uj = Some energy_uj,
                       pr_power_uw = None, pr_max_energy_uj = max_energy\<rparr>))"

definition classify_component :: "str \<Rightarrow> str \<Rightarrow> Component" where
  "classify_component chip_name label =
     (let name = to_lowercase chip_name; lab = to_lowercase label
      in if list_ex (str_contains name) [''nvidia'', ''amdgpu'', ''radeon'', ''xe''] then Gpu
         else if list_ex (str_contains name) [''mlx'', ''ice'', ''bnxt'', ''i40e''] \<or>
                 list_ex (str_contains lab) [''network'', ''nic''] then Nic
         else if list_ex (str_contains name) [''nvme'', ''drivetemp''] \<or>
                 list_ex (str_contains lab) [''disk'', ''ssd''] then Storage
         else if list_ex (str_contains lab) [''cpu'', ''vcore'', ''package''] then Cpu
         else if list_ex (str_contains lab) [''dram'', ''dimm'', ''memory''] then Memory
         else Cpu)"

definition hwmon_power_sensor :: "file_system \<Rightarrow> str \<Rightarrow> str \<Rightarrow> str \<Rightarrow> nat \<Rightarrow> HwmonSource option" where
  "hwmon_power_sensor fs hwmon_path hwmon_name chip_name n =
     (let power = ''power'' @ show_nat n; power_path = path_join hwmon_path (power @ ''_input'');
          label = read_trimmed fs (path_join hwmon_path (power @ ''_label'')) [];
          enable_path = path_join hwmon_path (power @ ''_enable'')
      in if \<not> fs_exists fs power_path then None
         else if fs_exists fs enable_path \<and> map_option trim (fs_read fs enable_path) = Some ''0'' then None
         else Some \<lparr>hs_id = ''hwmon:'' @ hwmon_name @ '':'' @ power @ '':'' @ chip_name,
                    hs_display_name = ''hwmon '' @ chip_name @ '' '' @ power @ '' (''
                      @ (if label = [] then ''unlabeled'' else label) @ '')'',
                    hs_chip_name = chip_name, hs_component = classify_component chip_name label,
                    hs_sensor = HPower power_path\<rparr>)"

definition hwmon_energy_sensor :: "file_system \<Rightarrow> str \<Rightarrow> str \<Rightarrow> str \<Rightarrow> nat \<Rightarrow> HwmonSource option" where
  "hwmon_energy_sensor fs hwmon_path hwmon_name chip_name n =
     (let energy = ''energy'' @ show_nat n; energy_path = path_join hwmon_path (energy @ ''_input'');
          label = read_trimmed fs (path_join hwmon_path (energy @ ''_label'')) [];
          max_path = path_join hwmon_path (energy @ ''_max'')
      in if \<not> fs_exists fs energy_path then None
         else Some \<lparr>hs_id = ''hwmon:'' @ hwmon_name @ '':'' @ energy @ '':'' @ chip_name,
                    hs_display_name = ''hwmon '' @ chip_name @ '' '' @ energy @ '' ('' @ label @ '')'',
                    hs_chip_name = chip_name, hs_component = classify_component chip_name label,
                    hs_sensor = HEnergy energy_path (if fs_exists fs max_path then Some max_path else None)\<rparr>)"

definition hwmon_device :: "file_system \<Rightarrow> str \<Rightarrow> str \<Rightarrow> HwmonSource list" where
  "hwmon_device fs base hwmon_name =
     (let hwmon_path = path_join base hwmon_name;
          chip_name = read_trimmed fs (path_join hwmon_path ''name'') []
      in List.map_filter (hwmon_power_sensor fs hwmon_path hwmon_name chip_name) [1..<17]
           @ List.map_filter (hwmon_energy_sensor fs hwmon_path hwmon_name chip_name) [1..<17])"

definition hwmon_discover :: "file_system \<Rightarrow> str \<Rightarrow> SourceError + HwmonSource list" where
  "hwmon_discover fs sysfs =
     (let base = sysfs @ ''/class/hwmon''
      in if \<not> fs_exists fs base then Inl (Unavailable ''no /sys/class/hwmon'')
         else case scan_dir fs base (hwmon_device fs base) of
                Inl e \<Rightarrow> Inl e
              | Inr sources \<Rightarrow>
                  if sources = [] then Inl (Unavailable ''No hwmon power sensors found'') else Inr sources)"

end
