(* ===== verification/Hardware_Net.thy ===== *)
theory Hardware_Net
  imports Hardware
begin

text \<open>
  Power sources behind HTTP (\<open>keck-agent/src/hardware/gpu.rs\<close>, \<open>platform.rs\<close>) and the
  discovery of all sources (\<open>hardware/mod.rs\<close>).  The HTTP client is a parameter: the
  response to a request, or the text of the error.  So are the environment variables.
\<close>

datatype http_auth = NoAuth | BasicAuth str str | BearerAuth str

record http_response =
  hr_success :: bool
  hr_status :: str
  hr_text :: "str + str"
  hr_json :: "str + json"

type_synonym http = "str \<Rightarrow> http_auth \<Rightarrow> str + http_response"
type_synonym env_vars = "str \<Rightarrow> str option"

definition result_bind :: "'e + 'a \<Rightarrow> ('a \<Rightarrow> 'e + 'b) \<Rightarrow> 'e + 'b" where
  "result_bind r f = (case r of Inl e \<Rightarrow> Inl e | Inr v \<Rightarrow> f v)"

definition map_err :: "('e \<Rightarrow> 'f) \<Rightarrow> 'e + 'a \<Rightarrow> 'f + 'a" where
  "map_err g r = (case r of Inl e \<Rightarrow> Inl (g e) | Inr v \<Rightarrow> Inr v)"

definition ok_or :: "'e \<Rightarrow> 'a option \<Rightarrow> 'e + 'a" where
  "ok_or e x = (case x of None \<Rightarrow> Inl e | Some v \<Rightarrow> Inr v)"

definition result_ok :: "'e + 'a \<Rightarrow> 'a option" where
  "result_ok r = (case r of Inl _ \<Rightarrow> None | Inr v \<Rightarrow> Some v)"

subsection \<open>GPUs behind the DCGM exporter\<close>

record DcgmGpuSource =
  ds_id :: str
  ds_display_name :: str
  ds_device_index :: u8
  ds_dcgm_url :: str
  ds_gpu_uuid :: str

definition extract_label :: "str \<Rightarrow> str \<Rightarrow> str option" where
  "extract_label line label =
     (let pattern = label @ ''='' @ [quote]
      in case find_sub pattern line of
           None \<Rightarrow> None
         | Some i \<Rightarrow>
             let start = i + length pattern
             in map_option (\<lambda>n. take n (drop start line)) (find_char quote (drop start line)))"

definition power_usage :: str where
  "power_usage = ''DCGM_FI_DEV_POWER_USAGE{''"

definition dcgm_watts :: "str \<Rightarrow> str \<Rightarrow> str \<Rightarrow> f64" where
  "dcgm_watts hostname gpu_uuid body =
     fold (\<lambda>line total_watts.
         if \<not> starts_with line power_usage then total_watts
         else if hostname \<noteq> [] \<and> \<not> str_contains line (''Hostname='' @ [quote] @ hostname @ [quote]) then total_watts
         else if gpu_uuid \<noteq> [] \<and> \<not> str_contains line gpu_uuid then total_watts
         else (case rsplit_once (CHR '' '') line of
                 None \<Rightarrow> total_watts
               | Some (_, val_str) \<Rightarrow>
                   (case parse_f64 val_str of None \<Rightarrow> total_watts | Some watts \<Rightarrow> total_watts + watts)))
       (lines body) (f64_lit 0)"

definition dcgm_read :: "http \<Rightarrow> env_vars \<Rightarrow> instant \<Rightarrow> DcgmGpuSource \<Rightarrow> SourceError + PowerReading" where
  "dcgm_read http env now d =
     result_bind (map_err (\<lambda>e. Unavailable (''DCGM request failed: '' @ e)) (http (ds_dcgm_url d) NoAuth)) (\<lambda>resp.
     result_bind (map_err (\<lambda>e. SourceParse (''DCGM response read failed: '' @ e)) (hr_text resp)) (\<lambda>body.
       let hostname = (case env ''NODE_NAME'' of None \<Rightarrow> [] | Some h \<Rightarrow> h);
           total_watts = dcgm_watts hostname (ds_gpu_uuid d) body
       in if total_watts = f64_lit 0 then Inl (Unavailable ''No GPU power reading from DCGM'')
          else Inr \<lparr>pr_source_id = ds_id d, pr_timestamp = now, pr_component = Gpu,
                    pr_granularity = GDevice (ds_device_index d), pr_reading_type = Measured, pr_energy_uj = None,
                    pr_power_uw = Some (f64_to_u64 (total_watts * f64_lit 1000000)), pr_max_energy_uj = 0\<rparr>))"

definition discover_dcgm_url :: "file_system \<Rightarrow> http \<Rightarrow> env_vars \<Rightarrow> str option" where
  "discover_dcgm_url fs http env =
     (case (fs_read fs ''/var/run/secrets/kubernetes.io/serviceaccount/token'', env ''NODE_NAME'') of
        (Some token, Some node_name) \<Rightarrow>
          (case http (''https://kubernetes.default.svc/api/v1/namespaces/nvidia-gpu-operator/pods?labelSelector=app=nvidia-dcgm-exporter&fieldSelector=spec.nodeName='' @ node_name) (BearerAuth token) of
             Inl _ \<Rightarrow> None
           | Inr resp \<Rightarrow>
               if \<not> hr_success resp then None
               else Option.bind (result_ok (hr_json resp)) (\<lambda>body.
                    Option.bind (json_get ''items'' body) (\<lambda>items.
                    Option.bind (json_array items) (\<lambda>arr.
                    Option.bind (case arr of [] \<Rightarrow> None | x # _ \<Rightarrow> Some x) (\<lambda>pod.
                    Option.bind (json_get ''status'' pod) (\<lambda>status.
                    Option.bind (json_get ''podIP'' status) (\<lambda>ip.
                    map_option (\<lambda>pod_ip. ''http://'' @ pod_ip @ '':9400/metrics'') (json_str ip))))))))
      | _ \<Rightarrow> None)"

definition dcgm_url :: "file_system \<Rightarrow> http \<Rightarrow> env_vars \<Rightarrow> str option" where
  "dcgm_url fs http env =
     (case env ''DCGM_EXPORTER_URL'' of
        Some url \<Rightarrow>
          if str_contains url ''.svc''
          then Some (case discover_dcgm_url fs http env of None \<Rightarrow> url | Some local_url \<Rightarrow> local_url) else Some url
      | None \<Rightarrow> discover_dcgm_url fs http env)"

definition dcgm_gpu ::
  "str \<Rightarrow> str \<Rightarrow> str \<Rightarrow> DcgmGpuSource list \<times> str set \<Rightarrow> DcgmGpuSource list \<times> str set" where
  "dcgm_gpu hostname url line acc =
     (let (sources, seen_uuids) = acc;
          uuid = (case extract_label line ''UUID'' of None \<Rightarrow> [] | Some u \<Rightarrow> u);
          other = hostname \<noteq> [] \<and> (case extract_label line ''Hostname'' of None \<Rightarrow> False | Some h \<Rightarrow> h \<noteq> hostname)
      in if \<not> starts_with line power_usage \<or> other \<or> uuid = [] \<or> uuid \<in> seen_uuids then acc
         else let model = (case extract_label line ''modelName'' of None \<Rightarrow> ''NVIDIA GPU'' | Some m \<Rightarrow> m);
                  gpu_index = (case Option.bind (extract_label line ''gpu'') parse_u8 of
                                 None \<Rightarrow> of_nat (length sources) | Some i \<Rightarrow> i);
                  ix = show_nat (unat gpu_index)
              in (sources @ [\<lparr>ds_id = ''dcgm:gpu:'' @ ix, ds_display_name = ''DCGM '' @ model @ '' (GPU '' @ ix @ '')'',
                              ds_device_index = gpu_index, ds_dcgm_url = url, ds_gpu_uuid = uuid\<rparr>],
                  insert uuid seen_uuids))"

definition gpu_discover :: "file_system \<Rightarrow> http \<Rightarrow> env_vars \<Rightarrow> SourceError + DcgmGpuSource list" where
  "gpu_discover fs http env =
     (if \<not> fs_exists fs (procfs_root fs @ ''/driver/nvidia'') then Inl (Unavailable ''No NVIDIA driver found'')
      else result_bind (ok_or (Unavailable ''DCGM exporter not found on this node.'') (dcgm_url fs http env)) (\<lambda>url.
           result_bind (map_err (\<lambda>e. Unavailable (''DCGM connection failed: '' @ e)) (http url NoAuth)) (\<lambda>resp.
             if \<not> hr_success resp then Inl (Unavailable (''DCGM returned '' @ hr_status resp))
             else result_bind (map_err (\<lambda>e. SourceParse (''DCGM response failed: '' @ e)) (hr_text resp)) (\<lambda>body.
                    let hostname = (case env ''NODE_NAME'' of None \<Rightarrow> [] | Some h \<Rightarrow> h);
                        sources = fst (fold (dcgm_gpu hostname url) (lines body) ([], {}))
                    in if sources = []
                       then Inl (Unavailable ''NVIDIA driver present but DCGM exporter not reachable. Set DCGM_EXPORTER_URL.'')
                       else Inr sources))))"

subsection \<open>Redfish\<close>

datatype ReadMethod =
    SensorReading str
  | SensorPercentage str str
  | PowerApi str
  | TelemetryMetric str

record RedfishSource =
  rf_id :: str
  rf_display_name :: str
  rf_component :: Component
  rf_endpoint :: str
  rf_read_method :: ReadMethod
  rf_username :: str
  rf_password :: str

definition read_json_field :: "http \<Rightarrow> http_auth \<Rightarrow> str \<Rightarrow> str \<Rightarrow> SourceError + f64" where
  "read_json_field http auth url field =
     result_bind (map_err (\<lambda>e. Unavailable (''Redfish: '' @ e)) (http url auth)) (\<lambda>resp.
       if \<not> hr_success resp then Inl (Unavailable (''HTTP '' @ hr_status resp))
       else result_bind (map_err (\<lambda>e. SourceParse (''JSON: '' @ e)) (hr_json resp)) (\<lambda>body.
              ok_or (SourceParse (''Field '' @ [CHR 0x27] @ field @ [CHR 0x27] @ '' not found''))
                (Option.bind (json_get field body) json_as_f64)))"

fun latest_metric :: "str \<Rightarrow> json list \<Rightarrow> f64 option" where
  "latest_metric metric_id [] = None"
| "latest_metric metric_id (entry # es) =
     (if Option.bind (json_get ''MetricId'' entry) json_str = Some metric_id
      then (case Option.bind (Option.bind (json_get ''MetricValue'' entry) json_str) parse_f64 of
              Some val \<Rightarrow> Some val
            | None \<Rightarrow> latest_metric metric_id es)
      else latest_metric metric_id es)"

fun scan_reports :: "http \<Rightarrow> http_auth \<Rightarrow> str \<Rightarrow> str \<Rightarrow> json list \<Rightarrow> SourceError + f64" where
  "scan_reports http auth endpoint metric_id [] = Inl (SourceParse (metric_id @ '' not found in MetricReports''))"
| "scan_reports http auth endpoint metric_id (member # ms) =
     result_bind (ok_or (SourceParse ''No @odata.id'') (Option.bind (json_get ''@odata.id'' member) json_str)) (\<lambda>report_path.
     result_bind (map_err (\<lambda>e. Unavailable (''Report: '' @ e)) (http (endpoint @ report_path) auth)) (\<lambda>resp.
       if \<not> hr_success resp then scan_reports http auth endpoint metric_id ms
       else result_bind (map_err (\<lambda>e. SourceParse (''Report JSON: '' @ e)) (hr_json resp)) (\<lambda>report.
              case Option.bind (Option.bind (json_get ''MetricValues'' report) json_array) (\<lambda>values. latest_metric metric_id (rev values)) of
                Some val \<Rightarrow> Inr val
              | None \<Rightarrow> scan_reports http auth endpoint metric_id ms)))"

definition read_metric_from_reports :: "http \<Rightarrow> http_auth \<Rightarrow> str \<Rightarrow> str \<Rightarrow> SourceError + f64" where
  "read_metric_from_reports http auth endpoint metric_id =
     result_bind (map_err (\<lambda>e. Unavailable (''MetricReports: '' @ e))
                   (http (endpoint @ ''/redfish/v1/TelemetryService/MetricReports'') auth)) (\<lambda>resp.
       if \<not> hr_success resp then Inl (Unavailable (''MetricReports HTTP '' @ hr_status resp))
       else result_bind (map_err (\<lambda>e. SourceParse (''MetricReports JSON: '' @ e)) (hr_json resp)) (\<lambda>body.
            result_bind (ok_or (SourceParse ''No MetricReports Members'')
                          (Option.bind (json_get ''Members'' body) json_array)) (\<lambda>members.
              scan_reports http auth endpoint metric_id members)))"

definition sensors_path :: "str \<Rightarrow> str" where
  "sensors_path sensor = ''/redfish/v1/Chassis/System.Embedded.1/Sensors/'' @ sensor"

definition power_path :: str where
  "power_path = ''/redfish/v1/Chassis/System.Embedded.1/Power''"

definition redfish_watts :: "http \<Rightarrow> RedfishSource \<Rightarrow> SourceError + f64" where
  "redfish_watts http r =
     (let auth = BasicAuth (rf_username r) (rf_password r); endpoint = rf_endpoint r
      in case rf_read_method r of
           SensorReading path \<Rightarrow> read_json_field http auth (endpoint @ path) ''Reading''
         | SensorPercentage pct_path total_path \<Rightarrow>
             result_bind (read_json_field http auth (endpoint @ pct_path) ''Reading'') (\<lambda>pct.
             result_bind (read_json_field http auth (endpoint @ total_path) ''Reading'') (\<lambda>tot.
               Inr (tot * pct / f64_lit 100)))
         | PowerApi path \<Rightarrow>
             result_bind (map_err (\<lambda>e. Unavailable (''Redfish: '' @ e)) (http (endpoint @ path) auth)) (\<lambda>resp.
             result_bind (map_err (\<lambda>e. SourceParse (''JSON: '' @ e)) (hr_json resp)) (\<lambda>body.
               ok_or (SourceParse ''PowerConsumedWatts not found'')
                 (Option.bind (Option.bind (json_get ''PowerControl'' body) json_array) (\<lambda>arr.
                    case arr of [] \<Rightarrow> None | ctrl # _ \<Rightarrow> Option.bind (json_get ''PowerConsumedWatts'' ctrl) json_as_f64))))
         | TelemetryMetric metric_id \<Rightarrow>
             (case read_metric_from_reports http auth endpoint metric_id of
                Inr v \<Rightarrow> Inr v
              | Inl _ \<Rightarrow> read_json_field http auth (endpoint @ sensors_path metric_id) ''Reading''))"

definition redfish_read :: "http \<Rightarrow> instant \<Rightarrow> RedfishSource \<Rightarrow> SourceError + PowerReading" where
  "redfish_read http now r =
     result_bind (redfish_watts http r) (\<lambda>watts.
       Inr \<lparr>pr_source_id = rf_id r, pr_timestamp = now, pr_component = rf_component r, pr_granularity = GNode,
            pr_reading_type = Measured, pr_energy_uj = None,
            pr_power_uw = Some (f64_to_u64 (watts * f64_lit 1000000)), pr_max_energy_uj = 0\<rparr>)"

definition probe :: "http \<Rightarrow> http_auth \<Rightarrow> str \<Rightarrow> bool" where
  "probe http auth url = (case http url auth of Inl _ \<Rightarrow> False | Inr r \<Rightarrow> hr_success r)"

definition probe_reading :: "http \<Rightarrow> http_auth \<Rightarrow> str \<Rightarrow> f64 option" where
  "probe_reading http auth url =
     (case http url auth of
        Inl _ \<Rightarrow> None
      | Inr resp \<Rightarrow>
          if \<not> hr_success resp then None
          else Option.bind (result_ok (hr_json resp)) (\<lambda>body. Option.bind (json_get ''Reading'' body) json_as_f64))"

record redfish_login =
  rl_endpoint :: str
  rl_username :: str
  rl_password :: str

definition login_auth :: "redfish_login \<Rightarrow> http_auth" where
  "login_auth l = BasicAuth (rl_username l) (rl_password l)"

definition redfish_source :: "redfish_login \<Rightarrow> str \<Rightarrow> str \<Rightarrow> Component \<Rightarrow> ReadMethod \<Rightarrow> RedfishSource" where
  "redfish_source l source_id display component rmethod =
     \<lparr>rf_id = source_id, rf_display_name = display, rf_component = component, rf_endpoint = rl_endpoint l,
      rf_read_method = rmethod, rf_username = rl_username l, rf_password = rl_password l\<rparr>"

definition try_telemetry_metric :: "http \<Rightarrow> redfish_login \<Rightarrow> str \<Rightarrow> Component \<Rightarrow> str \<Rightarrow> RedfishSource option" where
  "try_telemetry_metric http l metric_id component display_prefix =
     (let endpoint = rl_endpoint l; auth = login_auth l;
          src = redfish_source l (''redfish:'' @ metric_id @ '':'' @ endpoint) (display_prefix @ '' ('' @ endpoint @ '')'') component
      in if \<not> probe http auth (endpoint @ ''/redfish/v1/TelemetryService/MetricDefinitions/'' @ metric_id) then None
         else if probe_reading http auth (endpoint @ sensors_path metric_id) \<noteq> None
         then Some (src (SensorReading (sensors_path metric_id)))
         else if result_ok (read_metric_from_reports http auth endpoint metric_id) \<noteq> None
         then Some (src (TelemetryMetric metric_id))
         else None)"

definition try_sensor_pct :: "http \<Rightarrow> redfish_login \<Rightarrow> str \<Rightarrow> Component \<Rightarrow> str \<Rightarrow> RedfishSource option" where
  "try_sensor_pct http l sensor_name component display_prefix =
     (let endpoint = rl_endpoint l; auth = login_auth l; board = sensors_path ''SystemBoardPwrConsumption''
      in if probe_reading http auth (endpoint @ sensors_path sensor_name) = None then None
         else if probe_reading http auth (endpoint @ board) = None then None
         else Some (redfish_source l (''redfish:'' @ sensor_name @ '':'' @ endpoint)
                     (display_prefix @ '' ('' @ endpoint @ '')'') component
                     (SensorPercentage (sensors_path sensor_name) board)))"

definition psu_side :: "http \<Rightarrow> redfish_login \<Rightarrow> json \<Rightarrow> str \<Rightarrow> nat \<Rightarrow> str \<Rightarrow> str \<Rightarrow> str \<Rightarrow> RedfishSource list" where
  "psu_side http l psu name i field side tag =
     (let endpoint = rl_endpoint l; sensor = ''PSU.Slot.'' @ show_nat (i + 1) @ ''_'' @ side @ ''Power''
      in if Option.bind (json_get field psu) json_as_f64 \<noteq> None \<and>
            probe_reading http (login_auth l) (endpoint @ sensors_path sensor) \<noteq> None
         then [redfish_source l (''redfish:psu'' @ show_nat (i + 1) @ '':'' @ tag @ '':'' @ endpoint)
                 (name @ '' '' @ side @ '' ('' @ endpoint @ '')'') Platform (SensorReading (sensors_path sensor))]
         else [])"

definition discover_psu_detail :: "http \<Rightarrow> redfish_login \<Rightarrow> SourceError + RedfishSource list" where
  "discover_psu_detail http l =
     result_bind (map_err (\<lambda>e. Unavailable (''Redfish: '' @ e)) (http (rl_endpoint l @ power_path) (login_auth l))) (\<lambda>resp.
     result_bind (map_err (\<lambda>e. SourceParse (''JSON: '' @ e)) (hr_json resp)) (\<lambda>body.
       case Option.bind (json_get ''PowerSupplies'' body) json_array of
         None \<Rightarrow> Inr []
       | Some psus \<Rightarrow>
           Inr (concat (map (\<lambda>(i, psu).
             let name = (case Option.bind (json_get ''Name'' psu) json_str of None \<Rightarrow> ''PSU'' | Some n \<Rightarrow> n)
             in psu_side http l psu name i ''PowerInputWatts'' ''Input'' ''input''
                  @ psu_side http l psu name i ''PowerOutputWatts'' ''Output'' ''output'') (enumerate 0 psus)))))"

definition or_else :: "'a option \<Rightarrow> 'a option \<Rightarrow> 'a option" where
  "or_else x y = (case x of Some v \<Rightarrow> Some v | None \<Rightarrow> y)"

definition redfish_sources :: "http \<Rightarrow> redfish_login \<Rightarrow> RedfishSource list" where
  "redfish_sources http l =
     (let telemetry = try_telemetry_metric http l; sensor_pct = try_sensor_pct http l; endpoint = rl_endpoint l
      in option_list (or_else (telemetry ''TotalCPUPower'' Cpu ''Redfish Telemetry CPU'')
                       (or_else (sensor_pct ''SystemBoardCPUUsage'' Cpu ''Redfish Sensor CPU'')
                          (telemetry ''CPUPower'' Cpu ''Redfish Telemetry CPUPower'')))
         @ option_list (or_else (telemetry ''TotalMemoryPower'' Memory ''Redfish Telemetry Memory'')
                         (or_else (telemetry ''DRAMPwr'' Memory ''Redfish Telemetry DRAM'')
                            (sensor_pct ''SystemBoardMEMUsage'' Memory ''Redfish Sensor Memory'')))
         @ option_list (telemetry ''TotalFanPower'' Fan ''Redfish Telemetry Fans'')
         @ option_list (telemetry ''TotalStoragePower'' Storage ''Redfish Telemetry Storage'')
         @ option_list (or_else (sensor_pct ''SystemBoardIOUsage'' Nic ''Redfish Sensor I/O'')
                         (telemetry ''TotalPciePower'' Nic ''Redfish Telemetry PCIe''))
         @ option_list (sensor_pct ''SystemBoardSYSUsage'' Platform ''Redfish Sensor Platform'')
         @ (case discover_psu_detail http l of Inl _ \<Rightarrow> [] | Inr psu_sources \<Rightarrow> psu_sources)
         @ [redfish_source l (''redfish:platform:'' @ endpoint) (''Redfish PSU Total ('' @ endpoint @ '')'') Platform
              (PowerApi power_path)])"

text \<open>\<open>entry.splitn(2, '=')\<close> has two parts exactly when the entry has an equals sign.\<close>

definition redfish_map_entry :: "str \<Rightarrow> str \<Rightarrow> str option" where
  "redfish_map_entry serial entry =
     (case find_char (CHR ''='') entry of
        None \<Rightarrow> None
      | Some i \<Rightarrow> if trim (take i entry) = serial then Some (trim (drop (i + 1) entry)) else None)"

definition redfish_endpoint :: "file_system \<Rightarrow> env_vars \<Rightarrow> SourceError + str" where
  "redfish_endpoint fs env =
     (case env ''REDFISH_ENDPOINT'' of
        Some ep \<Rightarrow> Inr ep
      | None \<Rightarrow>
          (case env ''REDFISH_MAP'' of
             None \<Rightarrow> Inl (Unavailable ''REDFISH_ENDPOINT or REDFISH_MAP not set'')
           | Some mapping \<Rightarrow>
               let serial = read_trimmed fs (sysfs_root fs @ ''/class/dmi/id/product_serial'') []
               in if serial = [] then Inl (Unavailable ''Cannot read serial'')
                  else ok_or (Unavailable (''Serial '' @ serial @ '' not in REDFISH_MAP''))
                         (find_map (redfish_map_entry serial) (split_char (CHR '','') mapping))))"

definition platform_discover :: "file_system \<Rightarrow> http \<Rightarrow> env_vars \<Rightarrow> SourceError + RedfishSource list" where
  "platform_discover fs http env =
     result_bind (redfish_endpoint fs env) (\<lambda>endpoint.
     result_bind (ok_or (Unavailable ''REDFISH_USERNAME not set'') (env ''REDFISH_USERNAME'')) (\<lambda>username.
     result_bind (ok_or (Unavailable ''REDFISH_PASSWORD not set'') (env ''REDFISH_PASSWORD'')) (\<lambda>password.
       let l = \<lparr>rl_endpoint = endpoint, rl_username = username, rl_password = password\<rparr>
       in if \<not> probe http (login_auth l) (endpoint @ power_path) then Inl (Unavailable ''Redfish not reachable'')
          else Inr (redfish_sources http l))))"

subsection \<open>All sources\<close>

datatype power_source =
    Rapl RaplSource
  | Hwmon HwmonSource
  | Dcgm DcgmGpuSource
  | Redfish RedfishSource

fun source_id :: "power_source \<Rightarrow> str" where
  "source_id (Rapl r) = rs_id r"
| "source_id (Hwmon h) = hs_id h"
| "source_id (Dcgm d) = ds_id d"
| "source_id (Redfish r) = rf_id r"

fun source_name :: "power_source \<Rightarrow> str" where
  "source_name (Rapl r) = rs_name r"
| "source_name (Hwmon h) = hs_display_name h"
| "source_name (Dcgm d) = ds_display_name d"
| "source_name (Redfish r) = rf_display_name r"

fun source_component :: "power_source \<Rightarrow> Component" where
  "source_component (Rapl r) = rs_component r"
| "source_component (Hwmon h) = hs_component h"
| "source_component (Dcgm d) = Gpu"
| "source_component (Redfish r) = rf_component r"

fun source_reading_type :: "power_source \<Rightarrow> ReadingType" where
  "source_reading_type (Rapl r) = Estimated"
| "source_reading_type (Hwmon h) = Measured"
| "source_reading_type (Dcgm d) = Measured"
| "source_reading_type (Redfish r) = Measured"

fun source_read :: "file_system \<Rightarrow> http \<Rightarrow> env_vars \<Rightarrow> instant \<Rightarrow> power_source \<Rightarrow> SourceError + PowerReading" where
  "source_read fs http env now (Rapl r) = rapl_read fs now r"
| "source_read fs http env now (Hwmon h) = hwmon_read fs now h"
| "source_read fs http env now (Dcgm d) = dcgm_read http env now d"
| "source_read fs http env now (Redfish r) = redfish_read http now r"

definition discover_sources :: "file_system \<Rightarrow> http \<Rightarrow> env_vars \<Rightarrow> power_source list" where
  "discover_sources fs http env =
     (let sys = sysfs_root fs
      in map Rapl (result_or [] (rapl_discover fs sys)) @ map Rapl (result_or [] (discover_dram fs sys))
         @ map Hwmon (result_or [] (hwmon_discover fs sys)) @ map Dcgm (result_or [] (gpu_discover fs http env))
         @ map Redfish (result_or [] (platform_discover fs http env)))"


text \<open>A machine with one RAPL package.\<close>

definition sample_fs :: file_system where
  "sample_fs =
     \<lparr>fs_read = map_of [(''/sys/class/powercap/intel-rapl:0/energy_uj'', ''1234'' @ [newline]),
        (''/sys/class/powercap/intel-rapl:0/max_energy_range_uj'', ''262143'' @ [newline]),
        (''/sys/class/powercap/intel-rapl:0/name'', ''package-0'' @ [newline])],
      fs_dir = (\<lambda>p. if p = ''/sys/class/powercap'' then Some [Some ''intel-rapl'', Some ''intel-rapl:0'', Some ''intel-rapl:0:0''] else None),
      fs_exists = (\<lambda>p. p \<in> {''/sys/class/powercap'', ''/sys/class/powercap/intel-rapl:0/energy_uj''})\<rparr>"

definition no_http :: http where
  "no_http url auth = Inl ''connection refused''"

definition sample_rapl :: RaplSource where
  "sample_rapl = \<lparr>rs_id = ''rapl:package:0'', rs_name = ''RAPL package (socket 0): package-0'',
     rs_path = ''/sys/class/powercap/intel-rapl:0'', rs_component = Cpu, rs_granularity = GSocket 0, rs_max_energy_uj = 262143\<rparr>"

lemma sample_discovery: "discover_sources sample_fs no_http (\<lambda>_. None) = [Rapl sample_rapl]"
  by code_simp


end
