(* ===== verification/Apportion.thy ===== *)
theory Apportion
  imports F64
begin

text \<open>
  Dividing an integer amount among weighted claimants in floating point.  The
  agent does this in one shape everywhere: the claimant with weight \<open>w\<close> out of a
  total \<open>W\<close> receives \<open>(amount as f64 * (w / W)) as u64\<close>.  The shares are
  truncated and every operation rounds, so the parts need not add up to the
  whole.  This theory bounds by how much they can miss it: they never exceed
  the amount and fall short of it by at most one unit per claimant, as long as
  the amount times the number of claimants stays below \<open>2\<^sup>5\<^sup>0\<close>.
\<close>

definition share :: "u64 \<Rightarrow> f64 \<Rightarrow> f64 \<Rightarrow> u64" where
  "share amount W w = f64_to_u64 (f64_of_u64 amount * (w / W))"

text \<open>The unit roundoff; kept folded in the proofs.\<close>

definition uro :: rat where
  "uro = 2 powi (- 53)"

definition nonneg_f64 :: "f64 \<Rightarrow> bool" where
  "nonneg_f64 w \<longleftrightarrow> (\<exists>a. w = Fin a \<and> 0 \<le> a \<and> repr a)"

definition val :: "f64 \<Rightarrow> rat" where
  "val x = (case x of Fin q \<Rightarrow> q | _ \<Rightarrow> 0)"

lemma uro_pos [simp]: "0 < uro"
  unfolding uro_def by simp

lemma uro_nonneg [simp]: "0 \<le> uro"
  using uro_pos by (rule less_imp_le)

lemma uro_eq: "uro = 1 / 2 ^ 53"
  unfolding uro_def by (simp add: power_int_minus field_simps)

lemma uro_le_half: "uro \<le> 1 / 2"
  unfolding uro_eq by simp

subsection \<open>Left-to-right floating-point sums\<close>

lemma rnd_nonneg_Fin: "0 \<le> q \<Longrightarrow> rnd q = PInf \<or> (\<exists>r. rnd q = Fin r \<and> 0 \<le> r)"
  by (cases "q = 0") (auto simp: rnd_pos_eq rnd_pos_nonneg)

lemma foldl_PInf: "foldl (+) PInf (map Fin as) = PInf"
  by (induction as) (simp_all add: plus_f64_def)

lemma foldl_sum_step:
  assumes "foldl (+) (Fin t) (map Fin (a # as)) = Fin b" and "0 \<le> t" and "0 \<le> a"
  obtains r where "rnd (t + a) = Fin r" and "0 \<le> r" and "foldl (+) (Fin r) (map Fin as) = Fin b"
proof -
  have "rnd (t + a) \<noteq> PInf" using assms(1) by (auto simp: foldl_PInf)
  with rnd_nonneg_Fin [of "t + a"] assms(2,3) obtain r where "rnd (t + a) = Fin r" "0 \<le> r" by auto
  with assms(1) that show ?thesis by simp
qed

lemma foldl_sum_error:
  assumes "foldl (+) (Fin t) (map Fin as) = Fin b"
    and "0 \<le> t" and "repr t" and "\<And>a. a \<in> set as \<Longrightarrow> 0 \<le> a \<and> repr a"
    and "\<bar>t - s\<bar> \<le> 2 * of_nat k * uro * s" and "0 \<le> s"
    and "2 * of_nat (k + length as) * uro \<le> 1"
  shows "\<bar>b - (s + sum_list as)\<bar> \<le> 2 * of_nat (k + length as) * uro * (s + sum_list as)"
  using assms
proof (induction as arbitrary: t s k)
  case Nil
  then show ?case by simp
next
  case (Cons a as)
  have a: "0 \<le> a" "repr a" using Cons.prems(4) by auto
  obtain r where r: "rnd (t + a) = Fin r" "0 \<le> r" "foldl (+) (Fin r) (map Fin as) = Fin b"
    using foldl_sum_step [OF Cons.prems(1,2) a(1)] .
  have "2 * of_nat k * uro \<le> 2 * of_nat (k + length (a # as)) * uro" by simp
  with Cons.prems(7) have ku: "2 * of_nat k * uro \<le> 1" by linarith
  have sa: "0 \<le> s + a" using Cons.prems(6) a by simp
  have "2 * of_nat k * uro * s \<le> 1 * s" using ku Cons.prems(6) by (rule mult_right_mono)
  with Cons.prems(5) have "\<bar>t - s\<bar> \<le> s" by simp
  then have ta: "t + a \<le> 2 * (s + a)" using a(1) by (simp add: abs_le_iff)
  have grid: "on_grid (t + a)" using Cons.prems(3) a(2) by (intro on_grid_add repr_on_grid)
  have "\<bar>r - (t + a)\<bar> \<le> (t + a) * uro"
    using rnd_grid_error [OF _ grid r(1)] Cons.prems(2) a(1) by (simp add: uro_def)
  also have "\<dots> \<le> 2 * (s + a) * uro" using ta by (simp add: mult_right_mono)
  finally have e1: "\<bar>r - (t + a)\<bar> \<le> 2 * uro * (s + a)" by (simp add: mult_ac)
  have "2 * of_nat k * uro * s \<le> 2 * of_nat k * uro * (s + a)" using a(1) by (intro mult_left_mono) auto
  with Cons.prems(5) have e2: "\<bar>t - s\<bar> \<le> 2 * of_nat k * uro * (s + a)" by linarith
  have "\<bar>r - (s + a)\<bar> \<le> 2 * uro * (s + a) + 2 * of_nat k * uro * (s + a)" using e1 e2 by linarith
  also have "\<dots> = 2 * of_nat (Suc k) * uro * (s + a)" by (simp add: algebra_simps)
  finally have inv: "\<bar>r - (s + a)\<bar> \<le> 2 * of_nat (Suc k) * uro * (s + a)" .
  have "\<bar>b - (s + a + sum_list as)\<bar> \<le> 2 * of_nat (Suc k + length as) * uro * (s + a + sum_list as)"
    by (rule Cons.IH [OF r(3,2) repr_rnd [OF r(1)] _ inv sa])
      (use Cons.prems(4,7) in auto)
  then show ?case by (simp add: add.assoc)
qed

lemma foldl_sum_ge:
  assumes "foldl (+) (Fin t) (map Fin as) = Fin b" and "0 \<le> t" and "repr t"
    and "\<And>a. a \<in> set as \<Longrightarrow> 0 \<le> a \<and> repr a"
  shows "t \<le> b \<and> (\<forall>a \<in> set as. a \<le> b)"
  using assms
proof (induction as arbitrary: t)
  case Nil
  then show ?case by simp
next
  case (Cons a as)
  have a: "0 \<le> a" "repr a" using Cons.prems(4) by auto
  obtain r where r: "rnd (t + a) = Fin r" "0 \<le> r" "foldl (+) (Fin r) (map Fin as) = Fin b"
    using foldl_sum_step [OF Cons.prems(1,2) a(1)] .
  have "r \<le> b \<and> (\<forall>a \<in> set as. a \<le> b)"
    by (rule Cons.IH [OF r(3,2) repr_rnd [OF r(1)]]) (use Cons.prems(4) in auto)
  moreover have "x \<le> r" if "0 \<le> x" "repr x" "x \<le> t + a" for x
  proof (cases "x = 0")
    case False
    with that rnd_mono_pos [of x "t + a" r] r(1) rnd_repr [of x] show ?thesis by auto
  qed (use r(2) in simp)
  ultimately show ?case using Cons.prems(2,3) a by fastforce
qed

lemma foldl_sum_bounded:
  assumes "\<And>w. w \<in> set ws \<Longrightarrow> bounded_f64 k w" and "0 \<le> t" and "t \<le> of_nat i * 2 powi k" and "repr t"
    and "i + length ws < 2 ^ 53" and "- 1074 \<le> k" and "k \<le> 971"
  shows "\<exists>b. foldl (+) (Fin t) ws = Fin b \<and> 0 \<le> b \<and> b \<le> of_nat (i + length ws) * 2 powi k \<and> repr b"
  using assms
proof (induction ws arbitrary: t i)
  case (Cons w ws)
  have "bounded_f64 k w" using Cons.prems(1) by simp
  then obtain a where a: "w = Fin a" "0 \<le> a" "a \<le> 2 powi k" by (rule bounded_f64E)
  let ?b = "of_nat (Suc i) * 2 powi k :: rat"
  have "int (Suc i) < 2 ^ 53" using Cons.prems(5) by simp
  then have "repr (of_int (int (Suc i)) * 2 powi k)"
    using Cons.prems(6,7) by (intro reprI [OF refl]) simp_all
  then have "repr ?b" by (simp only: of_int_of_nat_eq)
  moreover have "t + a \<le> ?b" using Cons.prems(3) a(3) by (simp add: distrib_right)
  ultimately obtain r where r: "rnd (t + a) = Fin r" "0 \<le> r" "r \<le> ?b"
    using rnd_le_Fin [of "t + a" ?b] Cons.prems(2) a(2) by auto
  have "\<exists>b. foldl (+) (Fin r) ws = Fin b \<and> 0 \<le> b \<and> b \<le> of_nat (Suc i + length ws) * 2 powi k \<and> repr b"
    by (rule Cons.IH [OF _ r(2,3) repr_rnd [OF r(1)]]) (use Cons.prems in auto)
  then show ?case using a(1) r(1) by simp
qed simp

lemma f64_sum_bounded:
  assumes "\<And>w. w \<in> set ws \<Longrightarrow> bounded_f64 k w" and "length ws \<le> 2 ^ m" and "m \<le> 52"
    and "- 1074 \<le> k" and "k \<le> 971"
  shows "bounded_f64 (k + int m) (f64_sum ws)"
proof -
  have "(2::nat) ^ m < 2 ^ 53" using assms(3) by (intro power_strict_increasing) auto
  with assms(2) have "0 + length ws < 2 ^ 53" by linarith
  then obtain b where b: "f64_sum ws = Fin b" "0 \<le> b" "b \<le> of_nat (length ws) * 2 powi k" "repr b"
    using foldl_sum_bounded [of ws k 0 0] assms(1,4,5) unfolding f64_sum_def by auto
  have "(of_nat (length ws) :: rat) \<le> of_nat (2 ^ m)" using assms(2) by (subst of_nat_le_iff)
  then have "of_nat (length ws) * 2 powi k \<le> of_nat (2 ^ m) * (2 powi k :: rat)" by (intro mult_right_mono) auto
  also have "\<dots> = 2 powi (k + int m)" by (simp add: pow2_add)
  finally show ?thesis using b by (intro bounded_f64I [OF b(1,2) _ b(4)]) simp
qed

subsection \<open>One share\<close>

text \<open>
  A share is the exact quota with two rounding errors of at most \<open>amount * uro\<close>
  each, and then truncated.
\<close>

lemma share_quota:
  assumes "0 \<le> a" and "a \<le> b" and "0 < b" and "unat amount \<le> 2 ^ 53"
  defines "e \<equiv> of_nat (unat amount) :: rat"
  shows "of_nat (unat (share amount (Fin b) (Fin a))) \<le> e * (a / b) + 2 * e * uro"
    and "e * (a / b) - 2 * e * uro - 1 < of_nat (unat (share amount (Fin b) (Fin a)))"
    and "unat (share amount (Fin b) (Fin a)) \<le> unat amount"
proof -
  have e: "f64_of_u64 amount = Fin e" unfolding e_def using assms(4) by (rule f64_of_u64_exact)
  have e0: "0 \<le> e" unfolding e_def by (rule of_nat_0_le_iff)
  have "e \<le> of_nat (2 ^ 53)" unfolding e_def using assms(4) by (subst of_nat_le_iff)
  then have e53: "e \<le> 2 ^ 53" by simp
  have ab: "0 \<le> a / b" "a / b \<le> 1" using assms by (simp_all add: divide_le_eq)
  have repr1: "repr 1" using repr_of_int [of 1] by simp
  obtain r where r: "rnd (a / b) = Fin r" "0 \<le> r" "r \<le> 1" using rnd_le_Fin [OF ab repr1] .
  have r_err: "\<bar>r - a / b\<bar> \<le> uro" using rnd_abs_error [OF ab _ r(1)] by (simp add: uro_def)
  have repr_e: "repr e"
    using repr_of_int [of "int (unat amount)"] assms(4) unfolding e_def
    by (simp del: of_nat_unat)
  have er: "0 \<le> e * r" "e * r \<le> e" using e0 r by (simp_all add: mult_left_le)
  obtain p where p: "rnd (e * r) = Fin p" "0 \<le> p" "p \<le> e" using rnd_le_Fin [OF er repr_e] .
  have p_err: "\<bar>p - e * r\<bar> \<le> e * uro"
  proof (cases "unat amount = 0")
    case True
    then show ?thesis using p by (simp add: e_def)
  next
    case False
    then have "1 \<le> e" unfolding e_def by (simp del: of_nat_unat)
    from rnd_abs_error [OF er this p(1)] show ?thesis by (simp add: uro_def)
  qed
  have "\<bar>e * r - e * (a / b)\<bar> = e * \<bar>r - a / b\<bar>"
    unfolding right_diff_distrib [symmetric] abs_mult using e0 by simp
  also have "\<dots> \<le> e * uro" using r_err e0 by (rule mult_left_mono)
  finally have r_quota: "\<bar>e * r - e * (a / b)\<bar> \<le> e * uro" .
  define q d where "q = e * (a / b)" and "d = e * uro"
  have quota: "\<bar>p - q\<bar> \<le> 2 * d" using p_err r_quota unfolding q_def [symmetric] d_def [symmetric] by linarith
  have d2: "2 * e * uro = 2 * d" by (simp add: d_def)
  have sh: "share amount (Fin b) (Fin a) = f64_to_u64 (Fin p)"
    using assms(3) by (simp add: share_def e r(1) p(1))
  have "p < 2 ^ 64" using order_trans [OF p(3) e53] by simp
  from unat_f64_to_u64 [OF p(2) this] sh
  have fl: "int (unat (share amount (Fin b) (Fin a))) = \<lfloor>p\<rfloor>" by simp
  then have fl': "of_nat (unat (share amount (Fin b) (Fin a))) = (of_int \<lfloor>p\<rfloor> :: rat)"
    by (metis of_int_of_nat_eq)
  show "of_nat (unat (share amount (Fin b) (Fin a))) \<le> e * (a / b) + 2 * e * uro"
    unfolding fl' d2 q_def [symmetric] using of_int_floor_le [of p] quota by linarith
  show "e * (a / b) - 2 * e * uro - 1 < of_nat (unat (share amount (Fin b) (Fin a)))"
    unfolding fl' d2 q_def [symmetric] using floor_correct [of p] quota by linarith
  have "of_int \<lfloor>p\<rfloor> \<le> e" using of_int_floor_le p(3) by (rule order_trans)
  also have "e = of_int (int (unat amount))" by (simp only: e_def of_int_of_nat_eq)
  finally have "\<lfloor>p\<rfloor> \<le> int (unat amount)" by (subst (asm) of_int_le_iff)
  then show "unat (share amount (Fin b) (Fin a)) \<le> unat amount"
    unfolding fl [symmetric] by (subst (asm) of_nat_le_iff)
qed

subsection \<open>All shares together\<close>

lemma shares_quota:
  assumes "\<And>a. a \<in> set as \<Longrightarrow> 0 \<le> a \<and> a \<le> b" and "0 < b" and "unat amount \<le> 2 ^ 53"
  defines "e \<equiv> of_nat (unat amount) :: rat"
  defines "shares \<equiv> of_nat (sum_list (map (\<lambda>a. unat (share amount (Fin b) (Fin a))) as)) :: rat"
  shows "shares \<le> e * (sum_list as / b) + 2 * of_nat (length as) * e * uro"
    and "e * (sum_list as / b) - 2 * of_nat (length as) * e * uro - of_nat (length as) \<le> shares"
    and "as \<noteq> [] \<Longrightarrow>
      e * (sum_list as / b) - 2 * of_nat (length as) * e * uro - of_nat (length as) < shares"
  using assms(1) unfolding shares_def e_def
proof (induction as)
  case Nil
  { case 1 then show ?case by simp next
    case 2 then show ?case by simp next
    case 3 then show ?case by simp }
next
  case (Cons a as)
  have a: "0 \<le> a" "a \<le> b" if "\<And>x. x \<in> set (a # as) \<Longrightarrow> 0 \<le> x \<and> x \<le> b" using that by auto
  { case 1
    then show ?case using Cons.IH(1) share_quota(1) [OF a assms(2,3)]
      by (fastforce simp: algebra_simps add_divide_distrib) next
    case 2
    then show ?case using Cons.IH(2) share_quota(2) [OF a assms(2,3)]
      by (fastforce simp: algebra_simps add_divide_distrib) next
    case 3
    then show ?case using Cons.IH(2) share_quota(2) [OF a assms(2,3)]
      by (fastforce simp: algebra_simps add_divide_distrib) }
qed

lemma shares_conserve_rat:
  assumes "\<And>a. a \<in> set as \<Longrightarrow> 0 \<le> a \<and> a \<le> b" and "0 < b"
    and near: "\<bar>sum_list as - b\<bar> \<le> 4 * of_nat (length as) * uro * b"
    and small: "length as * unat amount < 2 ^ 50"
  defines "shares \<equiv> sum_list (map (\<lambda>a. unat (share amount (Fin b) (Fin a))) as)"
  shows "shares \<le> unat amount" and "unat amount \<le> shares + length as"
proof -
  define e :: rat where "e = of_nat (unat amount)"
  define n :: rat where "n = of_nat (length as)"
  define q where "q = e * (sum_list as / b)"
  define d where "d = n * e * uro"
  have ne: "as \<noteq> []" using near assms(2) by auto
  then have "unat amount \<le> length as * unat amount" by (cases as) simp_all
  with small have "unat amount < 2 ^ 50" by (rule order_le_less_trans [rotated])
  then have le: "unat amount \<le> 2 ^ 53" by simp
  have "n * e = of_nat (length as * unat amount)" by (simp only: n_def e_def of_nat_mult)
  also have "\<dots> < of_nat (2 ^ 50)" using small by (subst of_nat_less_iff)
  finally have d: "8 * d < 1" unfolding d_def uro_eq by (simp add: mult.commute)
  have e0: "0 \<le> e" unfolding e_def by (rule of_nat_0_le_iff)
  have d0: "0 \<le> d" using e0 by (simp add: d_def n_def)
  have "sum_list as / b - 1 = (sum_list as - b) / b" using assms(2) by (simp add: diff_divide_distrib)
  then have "\<bar>sum_list as / b - 1\<bar> = \<bar>sum_list as - b\<bar> / b" using assms(2) by simp
  also have "\<dots> \<le> 4 * n * uro * b / b" using near assms(2) by (intro divide_right_mono) (simp_all add: n_def)
  also have "\<dots> = 4 * n * uro" using assms(2) by simp
  finally have "e * \<bar>sum_list as / b - 1\<bar> \<le> e * (4 * n * uro)" using e0 by (rule mult_left_mono)
  moreover have "q - e = e * (sum_list as / b - 1)" by (simp add: q_def right_diff_distrib)
  then have "\<bar>q - e\<bar> = e * \<bar>sum_list as / b - 1\<bar>" using e0 by (simp only: abs_mult abs_of_nonneg)
  ultimately have q: "\<bar>q - e\<bar> \<le> 4 * d" by (simp add: d_def mult_ac)
  have d2: "2 * n * e * uro = 2 * d" by (simp add: d_def)
  note quota = shares_quota [of as b amount, OF _ assms(2) le, folded shares_def e_def n_def]
  have up: "of_nat shares \<le> q + 2 * d" and lo: "q - 2 * d - n \<le> of_nat shares"
    using quota(1,2) assms(1) unfolding q_def d2 by simp_all
  have "of_nat shares < (of_nat (unat amount + 1) :: rat)"
    unfolding of_nat_add of_nat_1 e_def [symmetric] using up q d d0 by linarith
  then show "shares \<le> unat amount" by (subst (asm) of_nat_less_iff) simp
  have "of_nat (unat amount) < (of_nat (shares + length as + 1) :: rat)"
    unfolding of_nat_add of_nat_1 e_def [symmetric] n_def [symmetric] using lo q d d0 by linarith
  then show "unat amount \<le> shares + length as" by (subst (asm) of_nat_less_iff) simp
qed

text \<open>
  First form: the total is the floating-point sum of the weights.  Each weight
  is at most the total, and the total is within the accumulated rounding error
  of the exact sum.
\<close>

lemma bounded_nonneg: "bounded_f64 k w \<Longrightarrow> nonneg_f64 w"
  unfolding bounded_f64_def nonneg_f64_def by blast

lemma nonneg_f64_list:
  assumes "\<And>w. w \<in> set ws \<Longrightarrow> nonneg_f64 w"
  obtains as where "ws = map Fin as" and "\<And>a. a \<in> set as \<Longrightarrow> 0 \<le> a \<and> repr a"
proof -
  have "\<exists>as. ws = map Fin as \<and> (\<forall>a \<in> set as. 0 \<le> a \<and> repr a)"
    using assms
  proof (induction ws)
    case (Cons w ws)
    then obtain as where "ws = map Fin as" "\<forall>a \<in> set as. 0 \<le> a \<and> repr a" by auto
    moreover obtain a where "w = Fin a" "0 \<le> a" "repr a"
      using Cons.prems [of w] by (auto simp: nonneg_f64_def)
    ultimately show ?case by (intro exI [of _ "a # as"]) simp
  qed simp
  with that show ?thesis by blast
qed

theorem shares_of_f64_sum:
  assumes "\<And>w. w \<in> set ws \<Longrightarrow> nonneg_f64 w"
    and "f64_sum ws = Fin b" and "0 < b"
    and "length ws * unat amount < 2 ^ 50" and "length ws \<le> 2 ^ 50"
  defines "shares \<equiv> sum_list (map (\<lambda>w. unat (share amount (f64_sum ws) w)) ws)"
  shows "shares \<le> unat amount" and "unat amount \<le> shares + length ws"
proof -
  obtain as where as: "ws = map Fin as" "\<And>a. a \<in> set as \<Longrightarrow> 0 \<le> a \<and> repr a"
    using nonneg_f64_list [OF assms(1)] by blast
  have fold: "foldl (+) (Fin 0) (map Fin as) = Fin b" using assms(2) by (simp add: f64_sum_def as(1))
  define S where "S = sum_list as"
  define n :: rat where "n = of_nat (length as)"
  have "n \<le> of_nat (2 ^ 50)" unfolding n_def using assms(5) by (subst of_nat_le_iff) (simp add: as(1))
  then have small: "4 * n * uro \<le> 1" unfolding uro_eq by simp
  have n0: "0 \<le> n" by (simp add: n_def)
  then have nu: "0 \<le> n * uro" by simp
  have S0: "0 \<le> S" unfolding S_def using as(2) by (intro sum_list_nonneg) auto
  have "\<bar>b - S\<bar> \<le> 2 * n * uro * S"
    using foldl_sum_error [OF fold, of 0 0] as(2) small nu by (simp add: S_def n_def mult_ac)
  moreover have "2 * n * uro * S \<le> S / 2" using mult_right_mono [OF small S0] by simp
  ultimately have Sb: "S \<le> 2 * b" and err: "\<bar>S - b\<bar> \<le> 2 * n * uro * S" by (auto simp: abs_le_iff)
  have "2 * n * uro * S \<le> 2 * n * uro * (2 * b)" using Sb n0 by (intro mult_left_mono) simp_all
  from order_trans [OF err this] have near: "\<bar>sum_list as - b\<bar> \<le> 4 * of_nat (length as) * uro * b"
    by (simp add: S_def n_def mult_ac)
  have range: "0 \<le> a \<and> a \<le> b" if "a \<in> set as" for a
    using foldl_sum_ge [OF fold] as(2) that by auto
  note c = shares_conserve_rat [OF range assms(3) near]
  show "shares \<le> unat amount" and "unat amount \<le> shares + length ws"
    using c [of amount] assms(4) unfolding shares_def assms(2) by (simp_all add: as(1) comp_def)
qed

text \<open>
  Second form: the weights are integers and the total is their exact integer
  sum, each converted to f64 before the division.
\<close>

lemma on_grid_of_nat: "on_grid (of_nat n)"
proof (induction n)
  case (Suc n)
  have "on_grid 1" using repr_on_grid [OF repr_of_int [of 1]] by simp
  with Suc.IH show ?case by (simp add: on_grid_add)
qed (use repr_on_grid [OF repr_0] in simp)

lemma f64_of_u64_val:
  "f64_of_u64 t = Fin (val (f64_of_u64 t))" "0 \<le> val (f64_of_u64 t)"
  "\<bar>val (f64_of_u64 t) - of_nat (unat t)\<bar> \<le> of_nat (unat t) * uro"
proof -
  from bounded_f64_u64 [of t] obtain q where q: "f64_of_u64 t = Fin q" "0 \<le> q" by (rule bounded_f64E)
  then show "f64_of_u64 t = Fin (val (f64_of_u64 t))" "0 \<le> val (f64_of_u64 t)" by (simp_all add: val_def)
  have "rnd (of_nat (unat t)) = Fin q" using q(1) by (simp add: f64_of_u64_def)
  from rnd_grid_error [OF _ on_grid_of_nat this] q(1)
  show "\<bar>val (f64_of_u64 t) - of_nat (unat t)\<bar> \<le> of_nat (unat t) * uro"
    by (simp add: val_def uro_def del: of_nat_unat)
qed

lemma sum_val_error:
  "\<bar>sum_list (map (\<lambda>t. val (f64_of_u64 t)) ts) - of_nat (sum_list (map unat ts))\<bar>
    \<le> of_nat (sum_list (map unat ts)) * uro"
proof (induction ts)
  case (Cons t ts)
  define x y z w where "x = val (f64_of_u64 t)" and "y = (of_nat (unat t) :: rat)"
    and "z = sum_list (map (\<lambda>t. val (f64_of_u64 t)) ts)" and "w = (of_nat (sum_list (map unat ts)) :: rat)"
  have "\<bar>x - y\<bar> \<le> y * uro" "\<bar>z - w\<bar> \<le> w * uro"
    using f64_of_u64_val(3) [of t] Cons.IH by (simp_all only: x_def y_def z_def w_def)
  then have "\<bar>(x + z) - (y + w)\<bar> \<le> (y + w) * uro" by (auto simp: abs_le_iff distrib_right)
  then show ?case by (simp only: x_def y_def z_def w_def list.map sum_list.Cons of_nat_add)
qed simp

lemma f64_of_u64_mono: "t \<le> T \<Longrightarrow> val (f64_of_u64 t) \<le> val (f64_of_u64 T)"
proof (cases "t = 0")
  case True
  then show ?thesis using f64_of_u64_val(2) [of T] by (simp add: f64_of_u64_def val_def)
next
  case False
  assume "t \<le> T"
  then have "uint t \<le> uint T" by (simp add: word_le_def)
  then have le: "(of_int (uint t) :: rat) \<le> of_int (uint T)" by (subst of_int_le_iff)
  have "0 < uint t" using False by (simp add: word_neq_0_conv word_less_def)
  then have pos: "(0::rat) < of_int (uint t)" by (subst of_int_0_less_iff)
  show ?thesis
    using rnd_mono_pos [OF pos le f64_of_u64_val(1) [of T, unfolded f64_of_u64_def]]
    by (simp add: f64_of_u64_def val_def del: of_int_uint)
qed

lemma member_le_sum_list_nat: "x \<in> set xs \<Longrightarrow> f x \<le> sum_list (map f xs)" for f :: "'a \<Rightarrow> nat"
  by (induction xs) auto

theorem shares_of_u64_sum:
  assumes "sum_list (map unat ts) < 2 ^ 64" and "0 < sum_list ts"
    and "length ts * unat amount < 2 ^ 50"
  defines "shares \<equiv>
    sum_list (map (\<lambda>t. unat (share amount (f64_of_u64 (sum_list ts)) (f64_of_u64 t))) ts)"
  shows "shares \<le> unat amount" and "unat amount \<le> shares + length ts"
proof -
  let ?v = "\<lambda>t. val (f64_of_u64 t)"
  define b where "b = ?v (sum_list ts)"
  define A where "A = sum_list (map ?v ts)"
  define S :: rat where "S = of_nat (sum_list (map unat ts))"
  have T: "unat (sum_list ts) = sum_list (map unat ts)" using assms(1) by (intro unat_sum_list) simp
  have W: "f64_of_u64 (sum_list ts) = Fin b" unfolding b_def by (rule f64_of_u64_val)
  obtain c where "f64_of_u64 (sum_list ts) = Fin c" "1 \<le> c" using f64_of_u64_ge1 [OF assms(2)] .
  with W have b: "0 < b" by simp
  have "\<bar>b - S\<bar> \<le> S * uro" unfolding b_def S_def T [symmetric] by (rule f64_of_u64_val)
  moreover have "\<bar>A - S\<bar> \<le> S * uro" unfolding A_def S_def by (rule sum_val_error)
  moreover have "S * uro \<le> S * (1 / 2)"
    by (rule mult_left_mono [OF uro_le_half]) (simp only: S_def of_nat_0_le_iff)
  ultimately have "S \<le> 2 * b" and AB: "\<bar>A - b\<bar> \<le> 2 * (S * uro)" by (auto simp: abs_le_iff)
  then have "2 * (S * uro) \<le> 2 * (2 * b * uro)" by simp
  from order_trans [OF AB this] have "\<bar>A - b\<bar> \<le> 4 * (uro * b)" by (simp add: mult_ac)
  also have "\<dots> \<le> of_nat (length ts) * (4 * (uro * b))"
  proof -
    have "ts \<noteq> []" using assms(2) by auto
    then have "(1::rat) \<le> of_nat (length ts)" by (cases ts) simp_all
    from mult_right_mono [OF this, of "4 * (uro * b)"] b show ?thesis by simp
  qed
  finally have near: "\<bar>sum_list (map ?v ts) - b\<bar> \<le> 4 * of_nat (length (map ?v ts)) * uro * b"
    by (simp add: A_def mult_ac)
  have range: "0 \<le> a \<and> a \<le> b" if "a \<in> set (map ?v ts)" for a
  proof -
    from that obtain t where t: "t \<in> set ts" "a = ?v t" by auto
    have "t \<le> sum_list ts" unfolding word_le_nat_alt T using t(1) by (rule member_le_sum_list_nat)
    then show ?thesis using t(2) f64_of_u64_mono f64_of_u64_val(2) by (simp add: b_def)
  qed
  have sh: "shares = sum_list (map (\<lambda>a. unat (share amount (Fin b) (Fin a))) (map ?v ts))"
    unfolding shares_def W by (simp add: comp_def f64_of_u64_val(1) [symmetric])
  show "shares \<le> unat amount" and "unat amount \<le> shares + length ts"
    using shares_conserve_rat [OF range b near, of amount] assms(3) unfolding sh by simp_all
qed

end
