(* ===== verification/Attr_Model.thy ===== *)
theory Attr_Model
  imports Attr_Types Apportion
begin

text \<open>
  The attribution models (\<open>keck-agent/src/attribution/model.rs\<close>): each turns the
  observations of the processes of one core into weights.  The trait object of the
  source is a datatype with one constructor per implementation.  The lemmas show that
  every weight is a finite non-negative double, whatever the counters are, which is
  what the normalisation in the engine relies on.
\<close>

record PidCoreObservation =
  pco_pid :: u32
  pco_time_ns :: u64
  pco_instructions :: u64
  pco_cycles :: u64
  pco_cache_misses :: u64

record PidCoreWeight =
  pcw_pid :: u32
  pcw_raw_weight :: f64

datatype AttributionModel = FullModel f64 f64 | FrequencyWeightedModel | CpuTimeRatioModel

definition FullModel_new :: AttributionModel where
  "FullModel_new = FullModel (f64_lit (3 / 10)) (f64_lit (3 / 2))"

definition freq_factor :: "u32 \<Rightarrow> f64" where
  "freq_factor avg_freq_khz = f64_sq (f64_of_u32 avg_freq_khz / f64_lit 1000000)"

definition full_weight :: "f64 \<Rightarrow> f64 \<Rightarrow> u32 \<Rightarrow> PidCoreObservation \<Rightarrow> f64" where
  "full_weight alpha beta avg_freq_khz obs =
     (let time_factor = f64_of_u64 (pco_time_ns obs);
          ipc = (if 0 < pco_cycles obs
                 then f64_of_u64 (pco_instructions obs) / f64_of_u64 (pco_cycles obs) else f64_lit 0);
          miss_ratio = (if 0 < pco_instructions obs
                        then f64_of_u64 (pco_cache_misses obs) / f64_of_u64 (pco_instructions obs)
                        else f64_lit 0);
          workload_factor = f64_lit 1 + alpha * ipc + beta * miss_ratio
      in time_factor * freq_factor avg_freq_khz * workload_factor)"

fun compute_weights :: "AttributionModel \<Rightarrow> PidCoreObservation list \<Rightarrow> u32 \<Rightarrow> PidCoreWeight list" where
  "compute_weights (FullModel alpha beta) observations avg_freq_khz =
     map (\<lambda>obs. \<lparr>pcw_pid = pco_pid obs, pcw_raw_weight = full_weight alpha beta avg_freq_khz obs\<rparr>) observations"
| "compute_weights FrequencyWeightedModel observations avg_freq_khz =
     map (\<lambda>obs. \<lparr>pcw_pid = pco_pid obs,
                pcw_raw_weight = f64_of_u64 (pco_time_ns obs) * freq_factor avg_freq_khz\<rparr>) observations"
| "compute_weights CpuTimeRatioModel observations _ =
     map (\<lambda>obs. \<lparr>pcw_pid = pco_pid obs, pcw_raw_weight = f64_of_u64 (pco_time_ns obs)\<rparr>) observations"

fun model_method :: "AttributionModel \<Rightarrow> AttributionMethod" where
  "model_method (FullModel _ _) = MFullModel"
| "model_method FrequencyWeightedModel = MFrequencyWeighted"
| "model_method CpuTimeRatioModel = MCpuTimeRatio"

definition select_model :: "bool \<Rightarrow> bool \<Rightarrow> AttributionModel" where
  "select_model has_freq_data has_perf_counters =
     (case (has_perf_counters, has_freq_data) of
        (True, True) \<Rightarrow> FullModel_new
      | (False, True) \<Rightarrow> FrequencyWeightedModel
      | _ \<Rightarrow> CpuTimeRatioModel)"

definition model_ok :: "AttributionModel \<Rightarrow> bool" where
  "model_ok m = (case m of FullModel a b \<Rightarrow> bounded_f64 4 a \<and> bounded_f64 4 b | _ \<Rightarrow> True)"

subsection \<open>Weights are finite and non-negative\<close>

lemma f64_lit_int: "\<bar>n\<bar> \<le> 2 ^ 53 \<Longrightarrow> f64_lit (of_int n) = Fin (of_int n)"
  unfolding f64_lit_def by (intro rnd_repr repr_of_int)

lemma f64_lit_0 [simp]: "f64_lit 0 = Fin 0"
  by (simp add: f64_lit_def)

lemma f64_lit_1 [simp]: "f64_lit 1 = Fin 1"
  using f64_lit_int [of 1] by simp

lemma f64_lit_million [simp]: "f64_lit 1000000 = Fin 1000000"
  using f64_lit_int [of 1000000] by simp

lemma bounded_f64_lit: "0 \<le> q \<Longrightarrow> q \<le> 2 powi k \<Longrightarrow> - 1074 \<le> k \<Longrightarrow> k \<le> 971 \<Longrightarrow> bounded_f64 k (f64_lit q)"
  unfolding f64_lit_def by (rule bounded_f64_rnd)

lemma bounded_freq_factor: "bounded_f64 64 (freq_factor f)"
proof -
  have "bounded_f64 32 (f64_of_u32 f / f64_lit 1000000)"
    by (rule bounded_f64_div [OF bounded_f64_u32 f64_lit_million]) simp_all
  from bounded_f64_mult [OF this this] show ?thesis by (simp add: freq_factor_def f64_sq_def)
qed

lemma bounded_ratio:
  "0 < d \<Longrightarrow> bounded_f64 64 (f64_of_u64 n / f64_of_u64 d)"
proof -
  assume "0 < d"
  then obtain b where "f64_of_u64 d = Fin b" "1 \<le> b" by (rule f64_of_u64_ge1)
  from bounded_f64_div [OF bounded_f64_u64 this] show ?thesis by simp
qed

lemma bounded_full_weight:
  assumes "bounded_f64 4 alpha" and "bounded_f64 4 beta"
  shows "bounded_f64 198 (full_weight alpha beta f obs)"
proof -
  define ipc where "ipc = (if 0 < pco_cycles obs
      then f64_of_u64 (pco_instructions obs) / f64_of_u64 (pco_cycles obs) else f64_lit 0)"
  define miss where "miss = (if 0 < pco_instructions obs
      then f64_of_u64 (pco_cache_misses obs) / f64_of_u64 (pco_instructions obs) else f64_lit 0)"
  have "bounded_f64 64 ipc" "bounded_f64 64 miss"
    by (simp_all add: ipc_def miss_def bounded_ratio)
  then have "bounded_f64 68 (alpha * ipc)" "bounded_f64 68 (beta * miss)"
    using bounded_f64_mult [OF assms(1)] bounded_f64_mult [OF assms(2)] by fastforce+
  moreover have "bounded_f64 68 (f64_lit 1)" by (rule bounded_f64_lit) simp_all
  ultimately have "bounded_f64 70 (f64_lit 1 + alpha * ipc + beta * miss)"
    using bounded_f64_add [of 68 "f64_lit 1" "alpha * ipc"]
      bounded_f64_add [of 69 "f64_lit 1 + alpha * ipc" "beta * miss"] bounded_f64_mono [of 68 _ 69]
    by simp
  moreover have "bounded_f64 128 (f64_of_u64 (pco_time_ns obs) * freq_factor f)"
    using bounded_f64_mult [OF bounded_f64_u64 bounded_freq_factor] by simp
  ultimately show ?thesis
    unfolding full_weight_def Let_def ipc_def [symmetric] miss_def [symmetric]
    using bounded_f64_mult [of 128 _ 70] by fastforce
qed

lemma bounded_freq_weight: "bounded_f64 198 (f64_of_u64 t * freq_factor f)"
  using bounded_f64_mono [OF bounded_f64_mult [OF bounded_f64_u64 bounded_freq_factor]] by simp

lemma bounded_time_weight: "bounded_f64 198 (f64_of_u64 t)"
  by (rule bounded_f64_mono [OF bounded_f64_u64]) simp

lemma compute_weights_bounded:
  "model_ok m \<Longrightarrow> w \<in> set (compute_weights m obs f) \<Longrightarrow> bounded_f64 198 (pcw_raw_weight w)"
  by (cases m)
    (auto simp: model_ok_def bounded_full_weight bounded_freq_weight bounded_time_weight)

lemma select_model_ok: "model_ok (select_model a b)"
  by (auto simp: select_model_def FullModel_new_def model_ok_def split: bool.split
      intro!: bounded_f64_lit)

lemma compute_weights_pids: "map pcw_pid (compute_weights m obs f) = map pco_pid obs"
  by (cases m) simp_all

lemma compute_weights_length [simp]: "length (compute_weights m obs f) = length obs"
  by (cases m) simp_all

end
