(* ===== verification/Attr_Engine.thy ===== *)
theory Attr_Engine
  imports Attr_Model
begin

text \<open>
  The attribution engine (\<open>keck-agent/src/attribution/engine.rs\<close>).  One call of
  \<open>attribute\<close> splits the energy of the sockets over the cores, the energy of each core
  over the processes that ran on it, the DRAM energy over the processes, and derives
  the node totals and the reconciliation.

  The iteration order of a \<open>HashMap<u32, u64>\<close> is arbitrary in Rust and matters for
  floating-point sums.  It is the parameter \<open>it\<close>: a function that lists the entries of
  a map in some order.  The theorems hold for every \<open>it\<close> that permutes the entries.
\<close>

record EnergyInput =
  ei_socket_energy_uj :: "u64 list"
  ei_dram_energy_uj :: "u64 list"
  ei_gpu_energy_uj :: "u64 list"
  ei_platform_energy_uj :: "u64 option"
  ei_interval_ns :: u64

record AttributionEngine =
  ae_model :: AttributionModel
  ae_num_cores :: u32
  ae_cores_per_socket :: u32

type_synonym pid_iter = "(u32, u64) hmap \<Rightarrow> (u32 \<times> u64) list"

definition engine_new :: "u32 \<Rightarrow> u32 \<Rightarrow> AttributionEngine" where
  "engine_new num_cores num_sockets =
     \<lparr>ae_model = select_model False False, ae_num_cores = num_cores,
      ae_cores_per_socket = (if 0 < num_sockets then num_cores div num_sockets else num_cores)\<rparr>"

text \<open>The range \<open>a..b\<close> over u32.\<close>

definition u32_range :: "u32 \<Rightarrow> u32 \<Rightarrow> u32 list" where
  "u32_range a b = map word_of_nat [unat a..<unat b]"

definition energy_to_power :: "u64 \<Rightarrow> u64 \<Rightarrow> u64" where
  "energy_to_power energy_uj interval_ns =
     (if interval_ns = 0 then 0
      else ucast ((ucast energy_uj * 1000000000 :: 128 word) div ucast interval_ns))"

subsection \<open>split_socket_to_cores\<close>

definition key_avg_freq :: "ObservationSnapshot \<Rightarrow> u32 \<Rightarrow> f64" where
  "key_avg_freq obs cpu =
     (let (wsum, tsum) =
        fold (\<lambda>(fk, t) (wsum, tsum).
                let f = f64_of_u32 (cfk_freq_khz fk); t = f64_of_u64 t in (wsum + f * t, tsum + t))
          (filter (\<lambda>(fk, _). cfk_cpu fk = cpu) (os_cpu_freq_times obs)) (f64_lit 0, f64_lit 0)
      in if tsum > f64_lit 0 then wsum / tsum else f64_lit 1000000)"

definition core_weights :: "ObservationSnapshot \<Rightarrow> (u32, f64) hmap" where
  "core_weights obs =
     fold (\<lambda>(key, time_ns).
             let avg_freq = key_avg_freq obs (pck_cpu key);
                 weight = f64_of_u64 time_ns * f64_sq (avg_freq / f64_lit 1000000)
             in hm_upsert (pck_cpu key) (f64_lit 0) (\<lambda>v. v + weight))
       (os_pid_cpu_times obs) []"

definition split_one_socket ::
  "u32 \<Rightarrow> (u32, f64) hmap \<Rightarrow> nat \<times> u64 \<Rightarrow> (u32, u64) hmap \<Rightarrow> rust_panic + (u32, u64) hmap" where
  "split_one_socket cores_per_socket core_weight socket core_energies =
     (let (socket_idx, socket_energy) = socket;
          first_core = word_of_nat socket_idx * cores_per_socket;
          last_core = first_core + cores_per_socket;
          cores = u32_range first_core last_core;
          socket_total_weight = f64_sum (List.map_filter (map_of core_weight) cores)
      in if socket_total_weight \<le> f64_lit 0
         then (if cores_per_socket = 0 then Inl DivByZero
               else let per_core = socket_energy div ucast cores_per_socket
                    in Inr (fold (\<lambda>core. AList.update core per_core) cores core_energies))
         else Inr (fold (\<lambda>core. let w = hm_get_or core_weight core (f64_lit 0)
                               in AList.update core (share socket_energy socket_total_weight w))
                     cores core_energies))"

fun split_sockets ::
  "u32 \<Rightarrow> (u32, f64) hmap \<Rightarrow> (nat \<times> u64) list \<Rightarrow> (u32, u64) hmap \<Rightarrow> rust_panic + (u32, u64) hmap" where
  "split_sockets cps cw [] core_energies = Inr core_energies"
| "split_sockets cps cw (socket # sockets) core_energies =
     (case split_one_socket cps cw socket core_energies of
        Inl p \<Rightarrow> Inl p
      | Inr core_energies' \<Rightarrow> split_sockets cps cw sockets core_energies')"

definition split_socket_to_cores ::
  "AttributionEngine \<Rightarrow> EnergyInput \<Rightarrow> ObservationSnapshot \<Rightarrow> rust_panic + (u32, u64) hmap" where
  "split_socket_to_cores eng energy obs =
     split_sockets (ae_cores_per_socket eng) (core_weights obs)
       (enumerate 0 (ei_socket_energy_uj energy)) []"

subsection \<open>Per-core frequencies, observations and counters\<close>

definition compute_core_avg_freq :: "ObservationSnapshot \<Rightarrow> (u32, u32) hmap" where
  "compute_core_avg_freq obs =
     map (\<lambda>(cpu, (wsum, tsum)).
            (cpu, if tsum > f64_lit 0 then f64_to_u32 (wsum / tsum) else 1000000))
       (fold (\<lambda>(key, time_ns).
                hm_upsert (cfk_cpu key) (f64_lit 0, f64_lit 0)
                  (\<lambda>(wsum, tsum). (wsum + f64_of_u32 (cfk_freq_khz key) * f64_of_u64 time_ns,
                                  tsum + f64_of_u64 time_ns)))
          (os_cpu_freq_times obs) [])"

definition build_core_pid_observations :: "ObservationSnapshot \<Rightarrow> (u32, (u32, u64) hmap) hmap" where
  "build_core_pid_observations obs =
     fold (\<lambda>(key, time_ns). hm_upsert (pck_cpu key) [] (AList.update (pck_pid key) time_ns))
       (os_pid_cpu_times obs) []"

definition scale_counters :: "CoreCounters \<Rightarrow> f64 \<Rightarrow> CoreCounters" where
  "scale_counters c ratio =
     \<lparr>cc_instructions = f64_to_u64 (f64_of_u64 (cc_instructions c) * ratio),
      cc_cycles = f64_to_u64 (f64_of_u64 (cc_cycles c) * ratio),
      cc_cache_misses = f64_to_u64 (f64_of_u64 (cc_cache_misses c) * ratio),
      cc_cache_refs = f64_to_u64 (f64_of_u64 (cc_cache_refs c) * ratio)\<rparr>"

definition build_core_counter_map ::
  "pid_iter \<Rightarrow> ObservationSnapshot \<Rightarrow> (u32, (u32, CoreCounters) hmap) hmap" where
  "build_core_counter_map it obs =
     (if os_core_counters obs = [] then []
      else let core_pid_times = build_core_pid_observations obs
           in fold (\<lambda>(core, counters) result.
                 case map_of core_pid_times core of
                   None \<Rightarrow> result
                 | Some pid_times \<Rightarrow>
                     let total_time = sum_list (map snd pid_times)
                     in if total_time = 0 then result
                        else hm_upsert core []
                          (\<lambda>per_pid. fold (\<lambda>(pid, pid_time).
                             let ratio = f64_of_u64 pid_time / f64_of_u64 total_time
                             in AList.update pid (scale_counters counters ratio)) (it pid_times) per_pid)
                          result)
                (os_core_counters obs) [])"

definition aggregate_pid_counter ::
  "pid_iter \<Rightarrow> ObservationSnapshot \<Rightarrow> (CoreCounters \<Rightarrow> u64) \<Rightarrow> (u32, u64) hmap" where
  "aggregate_pid_counter it obs field =
     (let core_pid_times = build_core_pid_observations obs
      in fold (\<lambda>(core, counters) result.
            case map_of core_pid_times core of
              None \<Rightarrow> result
            | Some pid_times \<Rightarrow>
                let total_time = sum_list (map snd pid_times)
                in if total_time = 0 then result
                   else let counter_total = field counters
                        in fold (\<lambda>(pid, pid_time).
                             let ratio = f64_of_u64 pid_time / f64_of_u64 total_time
                             in hm_upsert pid 0 (\<lambda>v. v + f64_to_u64 (f64_of_u64 counter_total * ratio)))
                             (it pid_times) result)
           (os_core_counters obs) [])"

definition attribute_memory ::
  "pid_iter \<Rightarrow> EnergyInput \<Rightarrow> ObservationSnapshot \<Rightarrow> (u32, u64) hmap \<Rightarrow> (u32, u64) hmap" where
  "attribute_memory it energy obs process_cpu_energy =
     (let total_dram_energy = sum_list (ei_dram_energy_uj energy);
          total_cpu = sum_list (map snd process_cpu_energy);
          fallback = (if total_cpu = 0 then []
                      else map (\<lambda>(pid, cpu_e). (pid, share total_dram_energy (f64_of_u64 total_cpu) (f64_of_u64 cpu_e)))
                             (it process_cpu_energy))
      in if total_dram_energy = 0 then []
         else if os_core_counters obs \<noteq> []
         then (let pid_cache_misses = aggregate_pid_counter it obs cc_cache_misses;
                   total_misses = sum_list (map snd pid_cache_misses)
               in if 0 < total_misses
                  then map (\<lambda>(pid, misses). (pid, share total_dram_energy (f64_of_u64 total_misses) (f64_of_u64 misses)))
                         (it pid_cache_misses)
                  else fallback)
         else fallback)"

subsection \<open>Step 5: the processes of each core\<close>

definition core_observations ::
  "pid_iter \<Rightarrow> (u32, (u32, u64) hmap) hmap \<Rightarrow> (u32, (u32, CoreCounters) hmap) hmap \<Rightarrow> u32 \<Rightarrow>
     PidCoreObservation list" where
  "core_observations it core_pid_obs core_counter_deltas core =
     (case map_of core_pid_obs core of
        None \<Rightarrow> []
      | Some pid_times \<Rightarrow>
          map (\<lambda>(pid, time_ns).
                 let counters = (case map_of core_counter_deltas core of
                                   None \<Rightarrow> None
                                 | Some m \<Rightarrow> map_of m pid)
                 in (case counters of
                       None \<Rightarrow> \<lparr>pco_pid = pid, pco_time_ns = time_ns, pco_instructions = 0, pco_cycles = 0,
                               pco_cache_misses = 0\<rparr>
                     | Some c \<Rightarrow> \<lparr>pco_pid = pid, pco_time_ns = time_ns, pco_instructions = cc_instructions c,
                                 pco_cycles = cc_cycles c, pco_cache_misses = cc_cache_misses c\<rparr>))
            (it pid_times))"

record core_inputs =
  ci_core_energies :: "(u32, u64) hmap"
  ci_core_avg_freq :: "(u32, u32) hmap"
  ci_core_pid_obs :: "(u32, (u32, u64) hmap) hmap"
  ci_core_counter_deltas :: "(u32, (u32, CoreCounters) hmap) hmap"

type_synonym core_totals = "(u32, u64) hmap \<times> (u32, CoreAttribution list) hmap"

definition credit_process ::
  "u32 \<Rightarrow> u32 \<Rightarrow> u64 \<Rightarrow> f64 \<Rightarrow> PidCoreWeight \<times> PidCoreObservation \<Rightarrow> core_totals \<Rightarrow> core_totals" where
  "credit_process core avg_freq core_energy_uj total_weight wo totals =
     (let (weight, obs) = wo; (process_cpu_energy, process_core_detail) = totals;
          pid_energy = share core_energy_uj total_weight (pcw_raw_weight weight)
      in (hm_upsert (pcw_pid weight) 0 (\<lambda>v. v + pid_energy) process_cpu_energy,
          hm_upsert (pcw_pid weight) []
            (\<lambda>ds. ds @ [\<lparr>ca_core = core, ca_time_ns = pco_time_ns obs, ca_avg_freq_khz = avg_freq,
                         ca_energy_uj = pid_energy, ca_instructions = pco_instructions obs,
                         ca_cycles = pco_cycles obs, ca_cache_misses = pco_cache_misses obs\<rparr>])
            process_core_detail))"

definition attribute_core ::
  "pid_iter \<Rightarrow> AttributionModel \<Rightarrow> core_inputs \<Rightarrow> u32 \<Rightarrow> core_totals \<Rightarrow> core_totals" where
  "attribute_core it model ci core totals =
     (let core_energy_uj = hm_get_or (ci_core_energies ci) core 0
      in if core_energy_uj = 0 then totals
         else let avg_freq = hm_get_or (ci_core_avg_freq ci) core 1000000;
                  observations = core_observations it (ci_core_pid_obs ci) (ci_core_counter_deltas ci) core
              in if observations = [] then totals
                 else let weights = compute_weights model observations avg_freq;
                          total_weight = f64_sum (map pcw_raw_weight weights)
                      in if total_weight \<le> f64_lit 0 then totals
                         else fold (credit_process core avg_freq core_energy_uj total_weight)
                                (zip weights observations) totals)"

definition attribute_cores ::
  "pid_iter \<Rightarrow> AttributionModel \<Rightarrow> core_inputs \<Rightarrow> u32 \<Rightarrow> core_totals" where
  "attribute_cores it model ci num_cores =
     fold (attribute_core it model ci) (u32_range 0 num_cores) ([], [])"

subsection \<open>attribute\<close>

definition reconcile_platform :: "u64 option \<Rightarrow> u64 \<Rightarrow> 64 word \<times> f64" where
  "reconcile_platform platform_energy component_sum =
     (case platform_energy of
        Some platform \<Rightarrow>
          let unaccounted = platform - component_sum;
              error_ratio = (if 0 < platform
                             then f64_of_u64 (i64_unsigned_abs unaccounted) / f64_of_u64 platform
                             else f64_lit 0)
          in (unaccounted, error_ratio)
      | None \<Rightarrow> (0, f64_lit 0))"

definition build_processes ::
  "AttributionMethod \<Rightarrow> ObservationSnapshot \<Rightarrow> u64 \<Rightarrow> core_totals \<Rightarrow> (u32, u64) hmap \<Rightarrow> ProcessPower list" where
  "build_processes meth obs interval_ns totals process_mem_energy =
     (let (process_cpu_energy, process_core_detail) = totals
      in map (\<lambda>pid.
           let cpu_energy = hm_get_or process_cpu_energy pid 0;
               mem_energy = hm_get_or process_mem_energy pid 0
           in \<lparr>pp_pid = pid, pp_comm = [], pp_cgroup_id = hm_get_or (os_pid_cgroups obs) pid 0,
               pp_power = \<lparr>pb_cpu_uw = energy_to_power cpu_energy interval_ns,
                           pb_memory_uw = energy_to_power mem_energy interval_ns,
                           pb_gpu_uw = 0, pb_nic_uw = 0, pb_storage_uw = 0\<rparr>,
               pp_core_detail = hm_get_or process_core_detail pid [],
               pp_attribution_method = meth\<rparr>)
         (map fst process_cpu_energy))"

definition engine_inputs ::
  "pid_iter \<Rightarrow> (u32, u64) hmap \<Rightarrow> ObservationSnapshot \<Rightarrow> core_inputs" where
  "engine_inputs it core_energies obs =
     \<lparr>ci_core_energies = core_energies, ci_core_avg_freq = compute_core_avg_freq obs,
      ci_core_pid_obs = build_core_pid_observations obs,
      ci_core_counter_deltas = build_core_counter_map it obs\<rparr>"

definition attribute ::
  "pid_iter \<Rightarrow> instant \<Rightarrow> ObservationSnapshot \<Rightarrow> EnergyInput \<Rightarrow> AttributionEngine \<Rightarrow>
     rust_panic + AttributionSnapshot \<times> AttributionEngine" where
  "attribute it now obs energy eng =
     (let has_freq = (os_cpu_freq_times obs \<noteq> []);
          has_counters = (os_core_counters obs \<noteq> []);
          eng' = eng\<lparr>ae_model := select_model has_freq has_counters\<rparr>
      in case split_socket_to_cores eng' energy obs of
           Inl p \<Rightarrow> Inl p
         | Inr core_energies \<Rightarrow>
             let totals = attribute_cores it (ae_model eng') (engine_inputs it core_energies obs) (ae_num_cores eng');
                 process_cpu_energy = fst totals;
                 process_mem_energy = attribute_memory it energy obs process_cpu_energy;
                 interval = ei_interval_ns energy;
                 processes = build_processes (model_method (ae_model eng')) obs interval totals process_mem_energy;
                 total_attributed = sum_list (map snd process_cpu_energy);
                 total_core_energy = sum_list (map snd core_energies);
                 idle_energy = sat_sub total_core_energy total_attributed;
                 component_sum = total_core_energy + sum_list (ei_dram_energy_uj energy)
                                   + sum_list (ei_gpu_energy_uj energy);
                 attributed_sum = total_attributed + idle_energy;
                 (unaccounted, error_ratio) = reconcile_platform (ei_platform_energy_uj energy) component_sum;
                 platform_uw = map_option (\<lambda>e. energy_to_power e interval) (ei_platform_energy_uj energy)
             in Inr (\<lparr>as_timestamp = now, as_interval_ns = interval,
                      as_node =
                        \<lparr>np_measured = pb_default
                           \<lparr>pb_cpu_uw := energy_to_power total_core_energy interval,
                            pb_memory_uw := energy_to_power (sum_list (ei_dram_energy_uj energy)) interval,
                            pb_gpu_uw := energy_to_power (sum_list (ei_gpu_energy_uj energy)) interval\<rparr>,
                         np_platform_uw = platform_uw,
                         np_attributed_total_uw = energy_to_power attributed_sum interval\<rparr>,
                      as_processes = processes, as_pods = [], as_namespaces = [],
                      as_idle_power = pb_default\<lparr>pb_cpu_uw := energy_to_power idle_energy interval\<rparr>,
                      as_reconciliation =
                        \<lparr>rc_platform_uw = platform_uw,
                         rc_component_sum_uw = energy_to_power component_sum interval,
                         rc_attributed_sum_uw = energy_to_power attributed_sum interval,
                         rc_unaccounted_uw = unaccounted, rc_error_ratio = error_ratio\<rparr>\<rparr>, eng'))"

end
