(* ===== verification/Attr_Split.thy ===== *)
theory Attr_Split
  imports Attr_Engine
begin

text \<open>
  Splitting the energy of the sockets over their cores conserves it: the cores of a
  socket together receive at most the energy of the socket and at least that energy
  minus one microjoule per core.
\<close>

text \<open>What \<open>split_one_socket\<close> gives each core of a socket.\<close>

definition socket_cores :: "u32 \<Rightarrow> nat \<Rightarrow> u32 list" where
  "socket_cores cps i = u32_range (word_of_nat i * cps) (word_of_nat i * cps + cps)"

definition core_part :: "u32 \<Rightarrow> (u32, f64) hmap \<Rightarrow> nat \<Rightarrow> u64 \<Rightarrow> u32 \<Rightarrow> u64" where
  "core_part cps cw i energy core =
     (let W = f64_sum (List.map_filter (map_of cw) (socket_cores cps i))
      in if W \<le> f64_lit 0 then energy div ucast cps
         else share energy W (hm_get_or cw core (f64_lit 0)))"

definition socket_entries :: "u32 \<Rightarrow> (u32, f64) hmap \<Rightarrow> nat \<times> u64 \<Rightarrow> (u32 \<times> u64) list" where
  "socket_entries cps cw s = map (\<lambda>c. (c, core_part cps cw (fst s) (snd s) c)) (socket_cores cps (fst s))"

subsection \<open>Ranges of cores\<close>

lemma unat_bounded_of_nat: "n < 2 ^ LENGTH('a) \<Longrightarrow> unat (word_of_nat n :: 'a::len word) = n"
  by (simp add: unat_of_nat)

lemma unat_u32_range: "map unat (u32_range a b) = [unat a..<unat b]"
proof -
  have "unat (word_of_nat i :: u32) = i" if "i < unat b" for i
    using that unsigned_less [where 'a = nat, of b] by (intro unat_bounded_of_nat) simp
  then have "map (unat \<circ> (word_of_nat :: nat \<Rightarrow> u32)) [unat a..<unat b] = [unat a..<unat b]"
    by (intro map_idI) simp
  then show ?thesis by (simp only: u32_range_def map_map)
qed

lemma distinct_u32_range: "distinct (u32_range a b)"
  using unat_u32_range [of a b] by (metis distinct_map distinct_upt)

lemma length_u32_range [simp]: "length (u32_range a b) = unat b - unat a"
  by (simp add: u32_range_def)

lemma set_u32_range: "c \<in> set (u32_range a b) \<longleftrightarrow> a \<le> c \<and> c < b"
proof -
  have "c \<in> set (u32_range a b) \<longleftrightarrow> unat c \<in> set (map unat (u32_range a b))"
    by (auto simp: image_iff dest: word_unat_eq_iff [THEN iffD2])
  then show ?thesis by (simp only: unat_u32_range) (auto simp: unat_simps)
qed

lemma socket_cores_bounds:
  assumes "Suc i * unat cps < 2 ^ 32"
  shows "length (socket_cores cps i) = unat cps"
    and "c \<in> set (socket_cores cps i) \<longleftrightarrow> i * unat cps \<le> unat c \<and> unat c < Suc i * unat cps"
proof -
  have first: "unat (word_of_nat i * cps) = i * unat cps"
  proof (cases "unat cps = 0")
    case False
    then have "i * 1 \<le> i * unat cps" by (intro mult_left_mono) auto
    also have "\<dots> \<le> Suc i * unat cps" by simp
    finally have "i < 2 ^ 32" using assms by simp
    then have "unat (word_of_nat i :: u32) = i" by (intro unat_bounded_of_nat) simp
    then show ?thesis using assms by (simp add: unat_word_ariths)
  qed (simp add: unat_word_ariths)
  then have last: "unat (word_of_nat i * cps + cps) = Suc i * unat cps"
    using assms by (simp add: unat_word_ariths(1))
  show "length (socket_cores cps i) = unat cps" by (simp add: socket_cores_def first last)
  show "c \<in> set (socket_cores cps i) \<longleftrightarrow> i * unat cps \<le> unat c \<and> unat c < Suc i * unat cps"
    by (simp only: socket_cores_def set_u32_range word_le_nat_alt word_less_nat_alt first last)
qed

lemma socket_cores_disjoint:
  assumes "Suc i * unat cps < 2 ^ 32" and "Suc j * unat cps < 2 ^ 32" and "i < j"
    and "c \<in> set (socket_cores cps i)"
  shows "c \<notin> set (socket_cores cps j)"
proof -
  have "Suc i * unat cps \<le> j * unat cps" using assms(3) by (intro mult_right_mono) auto
  then show ?thesis using assms(4) unfolding socket_cores_bounds(2) [OF assms(1)] socket_cores_bounds(2) [OF assms(2)]
    by linarith
qed

subsection \<open>The split as a list of entries\<close>

lemma fold_update_fresh:
  assumes "distinct ks" and "\<And>k. k \<in> set ks \<Longrightarrow> k \<notin> fst ` set m"
  shows "fold (\<lambda>k. AList.update k (g k)) ks m = m @ map (\<lambda>k. (k, g k)) ks"
  using assms
proof (induction ks arbitrary: m)
  case (Cons k ks)
  have "AList.update k (g k) m = m @ [(k, g k)]" using Cons.prems(2) [of k] by (induction m) auto
  moreover have "fold (\<lambda>k. AList.update k (g k)) ks (m @ [(k, g k)]) =
      (m @ [(k, g k)]) @ map (\<lambda>k. (k, g k)) ks"
    using Cons.prems by (intro Cons.IH) auto
  ultimately show ?case by simp
qed simp

lemma split_one_socket_entries:
  assumes "cps \<noteq> 0" and "\<And>c. c \<in> set (socket_cores cps (fst s)) \<Longrightarrow> c \<notin> fst ` set ce"
  shows "split_one_socket cps cw s ce = Inr (ce @ socket_entries cps cw s)"
proof -
  have d: "distinct (socket_cores cps (fst s))" by (simp add: socket_cores_def distinct_u32_range)
  note f = fold_update_fresh [OF d assms(2)]
  show ?thesis
  proof (cases "f64_sum (List.map_filter (map_of cw) (socket_cores cps (fst s))) \<le> f64_lit 0")
    case True
    then show ?thesis using assms(1) f [of "\<lambda>_. snd s div ucast cps"]
      by (simp add: split_one_socket_def socket_entries_def core_part_def Let_def case_prod_unfold
          socket_cores_def)
  next
    case False
    then show ?thesis
      using f [of "\<lambda>c. share (snd s) (f64_sum (List.map_filter (map_of cw) (socket_cores cps (fst s))))
                 (hm_get_or cw c (f64_lit 0))"]
      by (simp add: split_one_socket_def socket_entries_def core_part_def Let_def case_prod_unfold
          socket_cores_def)
  qed
qed

lemma split_sockets_entries:
  assumes "cps \<noteq> 0" and "(k + length sockets) * unat cps < 2 ^ 32"
    and "\<And>c i. c \<in> fst ` set ce \<Longrightarrow> k \<le> i \<Longrightarrow> i < k + length sockets \<Longrightarrow> c \<notin> set (socket_cores cps i)"
  shows "split_sockets cps cw (enumerate k sockets) ce =
    Inr (ce @ concat (map (socket_entries cps cw) (enumerate k sockets)))"
  using assms
proof (induction sockets arbitrary: k ce)
  case (Cons e sockets)
  have "split_one_socket cps cw (k, e) ce = Inr (ce @ socket_entries cps cw (k, e))"
    using Cons.prems(1,3) by (intro split_one_socket_entries) fastforce+
  moreover have "split_sockets cps cw (enumerate (Suc k) sockets) (ce @ socket_entries cps cw (k, e)) =
      Inr ((ce @ socket_entries cps cw (k, e)) @ concat (map (socket_entries cps cw) (enumerate (Suc k) sockets)))"
  proof (rule Cons.IH)
    show "c \<notin> set (socket_cores cps i)"
      if "c \<in> fst ` set (ce @ socket_entries cps cw (k, e))" "Suc k \<le> i" "i < Suc k + length sockets" for c i
    proof (cases "c \<in> fst ` set ce")
      case True
      then show ?thesis using Cons.prems(3) that by simp
    next
      case False
      then have "c \<in> set (socket_cores cps k)" using that(1) by (auto simp: socket_entries_def)
      moreover have "Suc k * unat cps \<le> (k + length (e # sockets)) * unat cps"
        "Suc i * unat cps \<le> (k + length (e # sockets)) * unat cps"
        using that(2,3) by (intro mult_right_mono; simp)+
      ultimately show ?thesis
        using Cons.prems(2) that(2) by (intro socket_cores_disjoint [of k cps i]) linarith+
    qed
  qed (use Cons.prems in auto)
  ultimately show ?case by simp
qed simp

subsection \<open>Core weights are finite\<close>

lemma fold_pair_sum:
  "fold (\<lambda>x (a, b). (a + g x, b + h x)) xs (a, b) = (foldl (+) a (map g xs), foldl (+) b (map h xs))"
  for a :: "'a::plus" and b :: "'b::plus"
  by (induction xs arbitrary: a b) simp_all

lemma sum_of_u64_ge1:
  assumes "f64_sum (map f64_of_u64 ts) = Fin b" and "0 < b"
  shows "1 \<le> b"
proof -
  let ?as = "map (\<lambda>t. val (f64_of_u64 t)) ts"
  have eq: "map f64_of_u64 ts = map Fin ?as" using f64_of_u64_val(1) by (simp add: comp_def)
  have nn: "0 \<le> a \<and> repr a" if "a \<in> set ?as" for a
  proof -
    from that obtain t where "a = val (f64_of_u64 t)" by auto
    moreover obtain q where "f64_of_u64 t = Fin q" "0 \<le> q" "repr q" using bounded_f64_u64 by (rule bounded_f64E)
    ultimately show ?thesis by (simp add: val_def)
  qed
  have fold: "foldl (+) (Fin 0) (map Fin ?as) = Fin b" using assms(1) unfolding f64_sum_def eq .
  have ge: "\<forall>a \<in> set ?as. a \<le> b" using foldl_sum_ge [OF fold _ _ nn] by simp
  show ?thesis
  proof (cases "\<exists>t \<in> set ts. t \<noteq> 0")
    case True
    then obtain t where t: "t \<in> set ts" "0 < t" by (auto simp: word_neq_0_conv)
    obtain c where "f64_of_u64 t = Fin c" "1 \<le> c" using t(2) by (rule f64_of_u64_ge1)
    with ge t(1) show ?thesis by (auto simp: val_def)
  next
    case False
    then have "foldl (+) (Fin 0) (map f64_of_u64 ts) = Fin 0"
      by (induction ts) (simp_all add: f64_of_u64_def)
    then show ?thesis using assms by (simp add: f64_sum_def)
  qed
qed

lemma key_avg_freq_bounded:
  assumes "length (os_cpu_freq_times obs) \<le> 2 ^ 50"
  shows "bounded_f64 146 (key_avg_freq obs cpu)"
proof -
  let ?fs = "filter (\<lambda>(fk, _). cfk_cpu fk = cpu) (os_cpu_freq_times obs)"
  let ?g = "\<lambda>x :: CpuFreqKey \<times> u64. f64_of_u32 (cfk_freq_khz (fst x)) * f64_of_u64 (snd x)"
  let ?h = "\<lambda>x :: CpuFreqKey \<times> u64. f64_of_u64 (snd x)"
  define W where "W = f64_sum (map ?g ?fs)"
  define T where "T = f64_sum (map ?h ?fs)"
  have eq: "key_avg_freq obs cpu = (if T > f64_lit 0 then W / T else f64_lit 1000000)"
    using fold_pair_sum [of ?g ?h ?fs "Fin 0" "Fin 0"]
    by (simp add: key_avg_freq_def W_def T_def f64_sum_def case_prod_unfold Let_def)
  have len: "length ?fs \<le> 2 ^ 50" using assms by (meson length_filter_le order_trans)
  have "bounded_f64 96 (?g x)" for x
    using bounded_f64_mult [OF bounded_f64_u32 bounded_f64_u64] by simp
  then have W: "bounded_f64 146 W"
    using f64_sum_bounded [of "map ?g ?fs" 96 50] len by (auto simp: W_def)
  show ?thesis
  proof (cases "T > f64_lit 0")
    case True
    have "bounded_f64 114 T"
      using f64_sum_bounded [of "map ?h ?fs" 64 50] len bounded_f64_u64 by (auto simp: T_def)
    then obtain b where b: "T = Fin b" by (rule bounded_f64E)
    have "f64_sum (map f64_of_u64 (map snd ?fs)) = Fin b" using b by (simp add: T_def comp_def)
    moreover have "0 < b" using True b by simp
    ultimately have "1 \<le> b" by (rule sum_of_u64_ge1)
    with bounded_f64_div [OF W b] True show ?thesis by (simp add: eq)
  next
    case False
    have "bounded_f64 146 (f64_lit 1000000)" by (rule bounded_f64_lit) simp_all
    then show ?thesis using False by (simp add: eq)
  qed
qed

lemma core_weights_bounded:
  assumes "length (os_cpu_freq_times obs) \<le> 2 ^ 50" and "length (os_pid_cpu_times obs) \<le> 2 ^ 50"
    and "map_of (core_weights obs) c = Some w"
  shows "bounded_f64 406 w"
proof -
  define wt where "wt = (\<lambda>x :: PidCpuKey \<times> u64. f64_of_u64 (snd x) * f64_sq (key_avg_freq obs (pck_cpu (fst x)) / f64_lit 1000000))"
  let ?xs = "filter (\<lambda>x. pck_cpu (fst x) = c) (os_pid_cpu_times obs)"
  have "map_of (core_weights obs) c =
      (if c \<in> (\<lambda>x. pck_cpu (fst x)) ` set (os_pid_cpu_times obs)
       then Some (fold (\<lambda>x v. v + wt x) ?xs (f64_lit 0)) else None)"
    using hm.get_fold_upsert [of "\<lambda>x. pck_cpu (fst x)" "f64_lit 0" "\<lambda>x v. v + wt x" "os_pid_cpu_times obs" "[]" c]
    by (simp add: core_weights_def wt_def case_prod_unfold Let_def)
  then have w: "w = f64_sum (map wt ?xs)"
    using assms(3) by (simp add: f64_sum_def foldl_conv_fold fold_map comp_def split: if_splits)
  have wt: "bounded_f64 356 (wt x)" for x
  proof -
    have "bounded_f64 146 (key_avg_freq obs (pck_cpu (fst x)) / f64_lit 1000000)"
      by (rule bounded_f64_div [OF key_avg_freq_bounded [OF assms(1)] f64_lit_million]) simp_all
    then have "bounded_f64 292 (f64_sq (key_avg_freq obs (pck_cpu (fst x)) / f64_lit 1000000))"
      using bounded_f64_mult [of 146 _ 146] by (simp add: f64_sq_def)
    then show ?thesis unfolding wt_def using bounded_f64_mult [OF bounded_f64_u64, of 292] by simp
  qed
  have "length ?xs \<le> 2 ^ 50" using assms(2) by (meson length_filter_le order_trans)
  then have "bounded_f64 (356 + int 50) (f64_sum (map wt ?xs))"
    by (intro f64_sum_bounded) (auto simp: wt)
  then show ?thesis by (simp add: w)
qed

subsection \<open>Each socket is conserved\<close>

lemma sum_map_filter:
  "sum_list (map (\<lambda>c. f (hm_get_or m c d)) cs) = sum_list (map f (List.map_filter (map_of m) cs))"
  if "f d = 0" for f :: "'v \<Rightarrow> nat"
  using that by (induction cs) (auto simp: hm_get_or_def map_filter_simps split: option.split)

lemma length_map_filter_le: "length (List.map_filter f xs) \<le> length xs"
  by (simp add: List.map_filter_def)

lemma share_0: "share amount (Fin b) (Fin 0) = 0" if "0 < b"
proof -
  have "unat (share amount (Fin b) (Fin 0)) = 0"
    using bounded_f64_u64 [of amount] that
    by (auto simp: share_def f64_to_u64_def elim!: bounded_f64E)
  then show ?thesis by (simp only: unsigned_eq_0_iff)
qed

lemma socket_conserved:
  assumes "cps \<noteq> 0" and "Suc i * unat cps < 2 ^ 32"
    and "\<And>c w. map_of cw c = Some w \<Longrightarrow> bounded_f64 406 w"
    and "unat cps * unat energy < 2 ^ 50"
  defines "part \<equiv> sum_list (map (\<lambda>c. unat (core_part cps cw i energy c)) (socket_cores cps i))"
  shows "part \<le> unat energy" and "unat energy \<le> part + unat cps"
proof -
  let ?cs = "socket_cores cps i" and ?ws = "List.map_filter (map_of cw) (socket_cores cps i)"
  have len: "length ?cs = unat cps" using socket_cores_bounds(1) [OF assms(2)] .
  have cps: "0 < unat cps" using assms(1) by (simp add: unat_gt_0)
  have "part \<le> unat energy \<and> unat energy \<le> part + unat cps"
  proof (cases "f64_sum ?ws \<le> f64_lit 0")
    case True
    have "part = unat cps * (unat energy div unat cps)"
      using True by (simp add: part_def core_part_def len sum_list_triv unat_div unat_simps)
    moreover have "unat energy = unat cps * (unat energy div unat cps) + unat energy mod unat cps" by simp
    moreover have "unat energy mod unat cps < unat cps" using cps by simp
    ultimately show ?thesis by linarith
  next
    case False
    have ws: "bounded_f64 406 w" if "w \<in> set ?ws" for w
      using that assms(3) by (auto simp: List.map_filter_def)
    have wl: "length ?ws \<le> unat cps" using length_map_filter_le [of "map_of cw" ?cs] len by simp
    also have "unat cps \<le> 2 ^ 32" using unsigned_less [where 'a = nat, of cps] by simp
    finally have wl32: "length ?ws \<le> 2 ^ 32" .
    then have "bounded_f64 438 (f64_sum ?ws)" using f64_sum_bounded [OF ws, where m = 32] by simp
    then obtain b where b: "f64_sum ?ws = Fin b" by (rule bounded_f64E)
    with False have b0: "0 < b" by simp
    have "length ?ws * unat energy \<le> unat cps * unat energy" using wl by (rule mult_right_mono) simp
    with assms(4) have small: "length ?ws * unat energy < 2 ^ 50" by (rule order_le_less_trans [rotated])
    have wl50: "length ?ws \<le> 2 ^ 50" using wl32 by simp
    note c = shares_of_f64_sum [OF bounded_nonneg [OF ws] b b0 small wl50]
    have "part = sum_list (map (\<lambda>w. unat (share energy (f64_sum ?ws) w)) ?ws)"
      using sum_map_filter [of "\<lambda>w. unat (share energy (Fin b) w)" "Fin 0" cw ?cs] share_0 [OF b0] False
      by (simp add: part_def core_part_def b)
    with c wl show ?thesis by simp
  qed
  then show "part \<le> unat energy" and "unat energy \<le> part + unat cps" by simp_all
qed

definition split_small :: "AttributionEngine \<Rightarrow> EnergyInput \<Rightarrow> ObservationSnapshot \<Rightarrow> bool" where
  "split_small eng energy obs \<longleftrightarrow>
     0 < ae_cores_per_socket eng \<and>
     length (ei_socket_energy_uj energy) * unat (ae_cores_per_socket eng) < 2 ^ 32 \<and>
     length (os_cpu_freq_times obs) \<le> 2 ^ 50 \<and> length (os_pid_cpu_times obs) \<le> 2 ^ 50 \<and>
     (\<forall>e \<in> set (ei_socket_energy_uj energy). unat (ae_cores_per_socket eng) * unat e < 2 ^ 50)"

lemma socket_entries_ge:
  "(k + length sockets) * unat cps < 2 ^ 32 \<Longrightarrow>
   c \<in> fst ` set (concat (map (socket_entries cps cw) (enumerate k sockets))) \<Longrightarrow> k * unat cps \<le> unat c"
proof (induction sockets arbitrary: k)
  case (Cons e sockets)
  have k: "Suc k * unat cps < 2 ^ 32" using Cons.prems(1) by (simp add: algebra_simps)
  show ?case
  proof (cases "c \<in> set (socket_cores cps k)")
    case True
    then show ?thesis using socket_cores_bounds(2) [OF k] by simp
  next
    case False
    then have "Suc k * unat cps \<le> unat c"
      using Cons.prems by (intro Cons.IH) (auto simp: socket_entries_def)
    then show ?thesis by simp
  qed
qed simp

lemma distinct_socket_entries:
  "(k + length sockets) * unat cps < 2 ^ 32 \<Longrightarrow>
   distinct (map fst (concat (map (socket_entries cps cw) (enumerate k sockets))))"
proof (induction sockets arbitrary: k)
  case (Cons e sockets)
  let ?rest = "concat (map (socket_entries cps cw) (enumerate (Suc k) sockets))"
  have k: "Suc k * unat cps < 2 ^ 32" using Cons.prems by (simp add: algebra_simps)
  have rest: "(Suc k + length sockets) * unat cps < 2 ^ 32" using Cons.prems by simp
  have "map fst (socket_entries cps cw (k, e)) = socket_cores cps k"
    by (simp add: socket_entries_def comp_def)
  moreover have "distinct (socket_cores cps k)" by (simp add: socket_cores_def distinct_u32_range)
  moreover have "set (socket_cores cps k) \<inter> set (map fst ?rest) = {}"
    using socket_entries_ge [OF rest, of _ cw] socket_cores_bounds(2) [OF k] by force
  ultimately show ?case using Cons.IH [OF rest] by simp
qed simp

lemma split_result:
  assumes "split_small eng energy obs"
  shows "split_socket_to_cores eng energy obs =
      Inr (concat (map (socket_entries (ae_cores_per_socket eng) (core_weights obs))
        (enumerate 0 (ei_socket_energy_uj energy))))"
    and "hm_wf (concat (map (socket_entries (ae_cores_per_socket eng) (core_weights obs))
        (enumerate 0 (ei_socket_energy_uj energy))))"
  using assms split_sockets_entries [of "ae_cores_per_socket eng" 0 "ei_socket_energy_uj energy" "[]" "core_weights obs"]
    distinct_socket_entries [of 0 "ei_socket_energy_uj energy" "ae_cores_per_socket eng" "core_weights obs"]
  by (auto simp: split_small_def split_socket_to_cores_def hm_wf_def)

text \<open>
  C3: Splitting the energy of the sockets over their cores never fails on a node with at
  least one core per socket, never hands out more than the energy of a socket, and
  hands out all of it but at most one microjoule per core.
\<close>

theorem split_conserves_energy:
  assumes "split_small eng energy obs"
  shows "\<exists>ce. split_socket_to_cores eng energy obs = Inr ce \<and> hm_wf ce \<and>
    (\<forall>i < length (ei_socket_energy_uj energy).
       sum_list (map (\<lambda>c. unat (hm_get_or ce c 0)) (socket_cores (ae_cores_per_socket eng) i))
         \<le> unat (ei_socket_energy_uj energy ! i) \<and>
       unat (ei_socket_energy_uj energy ! i)
         \<le> sum_list (map (\<lambda>c. unat (hm_get_or ce c 0)) (socket_cores (ae_cores_per_socket eng) i))
            + unat (ae_cores_per_socket eng))"
proof -
  let ?cps = "ae_cores_per_socket eng" and ?es = "ei_socket_energy_uj energy" and ?cw = "core_weights obs"
  define ce where "ce = concat (map (socket_entries ?cps ?cw) (enumerate 0 ?es))"
  note r = split_result [OF assms, folded ce_def]
  have get: "hm_get_or ce c 0 = core_part ?cps ?cw i (?es ! i) c"
    if "i < length ?es" "c \<in> set (socket_cores ?cps i)" for i c
  proof -
    have "(i, ?es ! i) \<in> set (enumerate 0 ?es)" using that(1) by (simp add: in_set_enumerate_eq)
    then have "(c, core_part ?cps ?cw i (?es ! i) c) \<in> set ce"
      using that(2) by (force simp: ce_def socket_entries_def)
    then have "map_of ce c = Some (core_part ?cps ?cw i (?es ! i) c)"
      using r(2) by (simp add: hm_wf_def)
    then show ?thesis by (simp add: hm_get_or_def)
  qed
  have "sum_list (map (\<lambda>c. unat (hm_get_or ce c 0)) (socket_cores ?cps i)) \<le> unat (?es ! i) \<and>
      unat (?es ! i) \<le> sum_list (map (\<lambda>c. unat (hm_get_or ce c 0)) (socket_cores ?cps i)) + unat ?cps"
    if i: "i < length ?es" for i
  proof -
    have "Suc i * unat ?cps \<le> length ?es * unat ?cps" using i by (intro mult_right_mono) auto
    then have si: "Suc i * unat ?cps < 2 ^ 32" using assms by (auto simp: split_small_def)
    have "unat ?cps * unat (?es ! i) < 2 ^ 50" using assms i by (auto simp: split_small_def)
    then show ?thesis
      using socket_conserved [OF _ si, where cw = ?cw and energy = "?es ! i"] assms
        core_weights_bounded [of obs]
      by (simp add: get [OF i] split_small_def word_neq_0_conv cong: map_cong)
  qed
  with r show ?thesis by auto
qed

end
