(* ===== verification/Attr_Conservation.thy ===== *)
theory Attr_Conservation
  imports Attr_Split
begin

text \<open>
  Conservation for the whole engine: what the processes receive never exceeds the
  energy of the cores they ran on, the remainder is reported as idle, so the attributed
  total of a snapshot is exactly the measured CPU power.
\<close>

definition energy_sum :: "(u32, u64) hmap \<Rightarrow> nat" where
  "energy_sum m = sum_list (map (\<lambda>x. unat (snd x)) m)"

definition perm_iter :: "pid_iter \<Rightarrow> bool" where
  "perm_iter it \<longleftrightarrow> (\<forall>m. mset (it m) = mset m)"

definition core_weight_sum :: "pid_iter \<Rightarrow> AttributionModel \<Rightarrow> core_inputs \<Rightarrow> u32 \<Rightarrow> f64" where
  "core_weight_sum it model ci core =
     f64_sum (map pcw_raw_weight (compute_weights model
       (core_observations it (ci_core_pid_obs ci) (ci_core_counter_deltas ci) core)
       (hm_get_or (ci_core_avg_freq ci) core 1000000)))"

definition core_pids :: "core_inputs \<Rightarrow> u32 \<Rightarrow> nat" where
  "core_pids ci core = length (hm_get_or (ci_core_pid_obs ci) core [])"

definition core_energy :: "core_inputs \<Rightarrow> u32 \<Rightarrow> nat" where
  "core_energy ci core = unat (hm_get_or (ci_core_energies ci) core 0)"

definition busy_core :: "pid_iter \<Rightarrow> AttributionModel \<Rightarrow> core_inputs \<Rightarrow> u32 \<Rightarrow> bool" where
  "busy_core it model ci core \<longleftrightarrow> f64_lit 0 < core_weight_sum it model ci core"

text \<open>
  The size bound under which the sums are exact: with \<open>S\<close> the total energy of the
  sockets in microjoules, the number of (process, core) pairs times \<open>S\<close> stays below
  \<open>2\<^sup>5\<^sup>0\<close> (for example 64000 pairs at 17 kJ per interval).
\<close>

definition engine_small :: "AttributionEngine \<Rightarrow> EnergyInput \<Rightarrow> ObservationSnapshot \<Rightarrow> bool" where
  "engine_small eng energy obs \<longleftrightarrow>
     split_small eng energy obs \<and>
     sum_list (map unat (ei_socket_energy_uj energy)) < 2 ^ 64 \<and>
     length (os_pid_cpu_times obs) * sum_list (map unat (ei_socket_energy_uj energy)) < 2 ^ 50"

definition busy_energy :: "pid_iter \<Rightarrow> AttributionEngine \<Rightarrow> ObservationSnapshot \<Rightarrow> (u32, u64) hmap \<Rightarrow> nat" where
  "busy_energy it eng obs ce =
     sum_list (map (core_energy (engine_inputs it ce obs))
       (filter (busy_core it (ae_model eng) (engine_inputs it ce obs)) (u32_range 0 (ae_num_cores eng))))"

text \<open>The invariant of step 5: the detail of a process adds up to its energy.\<close>

definition detail_ok :: "core_totals \<Rightarrow> bool" where
  "detail_ok totals \<longleftrightarrow>
     hm_wf (fst totals) \<and>
     (\<forall>pid. hm_get_or (fst totals) pid 0 = sum_list (map ca_energy_uj (hm_get_or (snd totals) pid [])))"

lemma perm_iter_length: "perm_iter it \<Longrightarrow> length (it m) = length m"
  unfolding perm_iter_def by (metis size_mset)

lemma length_core_observations:
  "perm_iter it \<Longrightarrow>
   length (core_observations it (ci_core_pid_obs ci) deltas core) = core_pids ci core"
  by (simp add: core_observations_def core_pids_def hm_get_or_def perm_iter_length split: option.split)

subsection \<open>One core\<close>

lemma fst_fold_credit:
  "fst (fold (credit_process core f e W) wos totals) =
     fold (\<lambda>wo. hm_upsert (pcw_pid (fst wo)) 0 (\<lambda>v. v + share e W (pcw_raw_weight (fst wo)))) wos (fst totals)"
  by (induction wos arbitrary: totals) (simp_all add: credit_process_def Let_def case_prod_unfold)

lemma sum_zip_fst: "length xs = length ys \<Longrightarrow> sum_list (map (\<lambda>p. f (fst p)) (zip xs ys)) = sum_list (map f xs)"
  for f :: "'a \<Rightarrow> nat"
  by (induction xs ys rule: list_induct2) simp_all

lemma core_weight_sum_finite:
  assumes "perm_iter it" and "model_ok model" and "core_pids ci core \<le> 2 ^ 50"
  shows "bounded_f64 248 (core_weight_sum it model ci core)"
proof -
  let ?obs = "core_observations it (ci_core_pid_obs ci) (ci_core_counter_deltas ci) core"
  let ?ws = "map pcw_raw_weight (compute_weights model ?obs (hm_get_or (ci_core_avg_freq ci) core 1000000))"
  have "bounded_f64 (198 + int 50) (f64_sum ?ws)"
    using compute_weights_bounded [OF assms(2)] assms(3) length_core_observations [OF assms(1)]
    by (intro f64_sum_bounded) auto
  then show ?thesis by (simp add: core_weight_sum_def)
qed

lemma attribute_core_cases:
  assumes "hm_get_or (ci_core_energies ci) core 0 = 0 \<or>
    core_observations it (ci_core_pid_obs ci) (ci_core_counter_deltas ci) core = [] \<or>
    core_weight_sum it model ci core \<le> f64_lit 0"
  shows "attribute_core it model ci core totals = totals"
  using assms by (auto simp: attribute_core_def core_weight_sum_def Let_def)

lemma attribute_core_shares:
  assumes "perm_iter it" and "model_ok model" and "core_pids ci core \<le> 2 ^ 50"
    and "core_pids ci core * unat (hm_get_or (ci_core_energies ci) core 0) < 2 ^ 50"
    and "energy_sum (fst totals) + unat (hm_get_or (ci_core_energies ci) core 0) < 2 ^ 64"
  defines "e \<equiv> unat (hm_get_or (ci_core_energies ci) core 0)"
  defines "after \<equiv> energy_sum (fst (attribute_core it model ci core totals))"
  shows "after \<le> energy_sum (fst totals) + e"
    and "f64_lit 0 < core_weight_sum it model ci core \<Longrightarrow> energy_sum (fst totals) + e \<le> after + core_pids ci core"
    and "energy_sum (fst totals) \<le> after"
proof -
  let ?E = "hm_get_or (ci_core_energies ci) core 0"
  let ?obs = "core_observations it (ci_core_pid_obs ci) (ci_core_counter_deltas ci) core"
  let ?f = "hm_get_or (ci_core_avg_freq ci) core 1000000"
  let ?ws = "compute_weights model ?obs ?f"
  let ?W = "core_weight_sum it model ci core"
  have len: "length ?obs = core_pids ci core" using length_core_observations [OF assms(1)] .
  obtain b where b: "?W = Fin b" using core_weight_sum_finite [OF assms(1-3)] by (rule bounded_f64E)
  have sumW: "f64_sum (map pcw_raw_weight ?ws) = Fin b" using b by (simp add: core_weight_sum_def)
  have "after \<le> energy_sum (fst totals) + e \<and> energy_sum (fst totals) \<le> after \<and>
      (0 < b \<longrightarrow> energy_sum (fst totals) + e \<le> after + core_pids ci core)"
  proof (cases "?E = 0 \<or> \<not> 0 < b")
    case True
    then have "attribute_core it model ci core totals = totals"
      using b by (intro attribute_core_cases) auto
    then show ?thesis using True by (auto simp: after_def e_def)
  next
    case False
    then have b0: "0 < b" and E0: "?E \<noteq> 0" by auto
    have ne: "?obs \<noteq> []" using b0 sumW by (cases model) (auto simp: f64_sum_def)
    define g where "g = (\<lambda>wo :: PidCoreWeight \<times> PidCoreObservation. share ?E (Fin b) (pcw_raw_weight (fst wo)))"
    have run: "attribute_core it model ci core totals =
        fold (credit_process core ?f ?E (Fin b)) (zip ?ws ?obs) totals"
      using E0 ne b0 by (simp add: attribute_core_def Let_def sumW)
    have zip: "sum_list (map (\<lambda>wo. unat (g wo)) (zip ?ws ?obs)) =
        sum_list (map (\<lambda>w. unat (share ?E (f64_sum (map pcw_raw_weight ?ws)) w)) (map pcw_raw_weight ?ws))"
      unfolding g_def sumW by (subst sum_zip_fst) (simp_all add: comp_def)
    note c = shares_of_f64_sum [of "map pcw_raw_weight ?ws" b ?E]
    have nn: "nonneg_f64 w" if "w \<in> set (map pcw_raw_weight ?ws)" for w
      using that by (auto intro!: bounded_nonneg compute_weights_bounded [OF assms(2)])
    have shares: "sum_list (map (\<lambda>wo. unat (g wo)) (zip ?ws ?obs)) \<le> e"
        "e \<le> sum_list (map (\<lambda>wo. unat (g wo)) (zip ?ws ?obs)) + core_pids ci core"
      unfolding zip e_def using c [OF nn sumW b0] assms(3,4) len by simp_all
    have "after = energy_sum (fst totals) + sum_list (map (\<lambda>wo. unat (g wo)) (zip ?ws ?obs))"
      unfolding after_def run fst_fold_credit energy_sum_def
      using sum_unat_accumulate [of "fst totals" g "zip ?ws ?obs" "\<lambda>wo. pcw_pid (fst wo)"] shares(1) assms(5)
      by (simp add: g_def energy_sum_def e_def)
    with shares show ?thesis by simp
  qed
  then show "after \<le> energy_sum (fst totals) + e" and "energy_sum (fst totals) \<le> after"
    and "f64_lit 0 < ?W \<Longrightarrow> energy_sum (fst totals) + e \<le> after + core_pids ci core"
    by (auto simp: b)
qed

subsection \<open>All cores\<close>

lemma sum_lookup_le:
  "distinct cs \<Longrightarrow> sum_list (map (\<lambda>c. unat (hm_get_or m c 0)) cs) \<le> energy_sum m"
proof (induction m arbitrary: cs)
  case Nil
  then show ?case by (induction cs) (simp_all add: hm_get_or_def)
next
  case (Cons kv m)
  obtain k v where kv: "kv = (k, v)" by (cases kv)
  have other: "hm_get_or (kv # m) c 0 = hm_get_or m c 0" if "c \<noteq> k" for c
    using that by (simp add: kv hm_get_or_def)
  have IH: "sum_list (map (\<lambda>c. unat (hm_get_or m c 0)) (remove1 k cs)) \<le> energy_sum m"
    using Cons by (simp add: distinct_remove1)
  have eq: "map (\<lambda>c. unat (hm_get_or (kv # m) c 0)) (remove1 k cs) = map (\<lambda>c. unat (hm_get_or m c 0)) (remove1 k cs)"
    using Cons.prems by (intro map_cong) (auto simp: other)
  show ?case
  proof (cases "k \<in> set cs")
    case True
    have "sum_list (map (\<lambda>c. unat (hm_get_or (kv # m) c 0)) cs) =
        unat v + sum_list (map (\<lambda>c. unat (hm_get_or (kv # m) c 0)) (remove1 k cs))"
      using sum_list_map_remove1 [OF True, of "\<lambda>c. unat (hm_get_or (kv # m) c 0)"]
      by (simp add: kv hm_get_or_def)
    also have "\<dots> \<le> unat v + energy_sum m" unfolding eq using IH by simp
    finally show ?thesis by (simp add: energy_sum_def kv)
  next
    case False
    have "sum_list (map (\<lambda>c. unat (hm_get_or (kv # m) c 0)) cs) \<le> energy_sum m"
      using IH unfolding eq [symmetric] by (simp only: remove1_idem [OF False])
    then show ?thesis by (simp add: energy_sum_def kv)
  qed
qed

lemma fold_attribute_core:
  assumes "perm_iter it" and "model_ok model"
    and "\<And>c. c \<in> set cs \<Longrightarrow> core_pids ci c \<le> 2 ^ 50 \<and> core_pids ci c * core_energy ci c < 2 ^ 50"
    and "energy_sum (fst totals) + sum_list (map (core_energy ci) cs) < 2 ^ 64"
  shows "energy_sum (fst (fold (attribute_core it model ci) cs totals))
      \<le> energy_sum (fst totals) + sum_list (map (core_energy ci) cs) \<and>
    energy_sum (fst totals) + sum_list (map (core_energy ci) (filter (busy_core it model ci) cs))
      \<le> energy_sum (fst (fold (attribute_core it model ci) cs totals)) + sum_list (map (core_pids ci) cs)"
  using assms(3,4)
proof (induction cs arbitrary: totals)
  case (Cons c cs)
  let ?t = "attribute_core it model ci c totals"
  have pre: "core_pids ci c \<le> 2 ^ 50" "core_pids ci c * unat (hm_get_or (ci_core_energies ci) c 0) < 2 ^ 50"
      "energy_sum (fst totals) + unat (hm_get_or (ci_core_energies ci) c 0) < 2 ^ 64"
    using Cons.prems by (auto simp: core_energy_def)
  note step = attribute_core_shares [OF assms(1,2) pre, folded core_energy_def busy_core_def]
  have IH: "energy_sum (fst (fold (attribute_core it model ci) cs ?t))
        \<le> energy_sum (fst ?t) + sum_list (map (core_energy ci) cs) \<and>
      energy_sum (fst ?t) + sum_list (map (core_energy ci) (filter (busy_core it model ci) cs))
        \<le> energy_sum (fst (fold (attribute_core it model ci) cs ?t)) + sum_list (map (core_pids ci) cs)"
    using step(1) Cons.prems by (intro Cons.IH) (auto simp: core_energy_def)
  show ?case using IH step by auto
qed simp

subsection \<open>The inputs that the engine builds\<close>

lemma core_pids_built:
  "length (hm_get_or (build_core_pid_observations obs) core []) \<le>
     length (filter (\<lambda>x. pck_cpu (fst x) = core) (os_pid_cpu_times obs))"
proof -
  have grow: "length (fold (\<lambda>x. AList.update (pck_pid (fst x)) (snd x)) xs m) \<le> length xs + length m"
    for xs :: "(PidCpuKey \<times> u64) list" and m :: "(u32, u64) hmap"
  proof (induction xs arbitrary: m)
    case (Cons x xs)
    show ?case using Cons.IH [of "AList.update (pck_pid (fst x)) (snd x) m"]
      by (simp add: length_update split: if_splits)
  qed simp
  have "map_of (build_core_pid_observations obs) core =
      (if core \<in> (\<lambda>x. pck_cpu (fst x)) ` set (os_pid_cpu_times obs)
       then Some (fold (\<lambda>x. AList.update (pck_pid (fst x)) (snd x))
                  (filter (\<lambda>x. pck_cpu (fst x) = core) (os_pid_cpu_times obs)) []) else None)"
    using hm.get_fold_upsert [of "\<lambda>x. pck_cpu (fst x)" "[]" "\<lambda>x. AList.update (pck_pid (fst x)) (snd x)"
        "os_pid_cpu_times obs" "[]" core]
    by (simp add: build_core_pid_observations_def case_prod_unfold)
  then show ?thesis using grow [of _ "[]"] by (auto simp: hm_get_or_def)
qed

lemma sum_filter_cpu_le:
  "distinct cs \<Longrightarrow> sum_list (map (\<lambda>c. length (filter (\<lambda>x. f x = c) xs)) cs) \<le> length xs"
proof (induction xs)
  case (Cons x xs)
  have "sum_list (map (\<lambda>c. length (filter (\<lambda>y. f y = c) (x # xs))) cs) =
      sum_list (map (\<lambda>c. if f x = c then 1 else 0) cs) + sum_list (map (\<lambda>c. length (filter (\<lambda>y. f y = c) xs)) cs)"
    by (subst sum_list_addf [symmetric]) (rule arg_cong [where f = sum_list], simp)
  moreover have "sum_list (map (\<lambda>c. if f x = c then 1 else (0::nat)) cs) \<le> 1"
    using Cons.prems by (induction cs) auto
  ultimately show ?case using Cons by simp
qed (induction cs, simp_all)

lemma map_enumerate_snd: "map (\<lambda>(i, e). f e) (enumerate k es) = map f es"
  by (induction es arbitrary: k) simp_all

lemma split_total:
  assumes "split_small eng energy obs" and "split_socket_to_cores eng energy obs = Inr ce"
  shows "energy_sum ce \<le> sum_list (map unat (ei_socket_energy_uj energy))"
proof -
  let ?cps = "ae_cores_per_socket eng" and ?cw = "core_weights obs"
  have part: "energy_sum (socket_entries ?cps ?cw (i, e)) \<le> unat e"
    if "(i, e) \<in> set (enumerate 0 (ei_socket_energy_uj energy))" for i e
  proof -
    have i: "i < length (ei_socket_energy_uj energy)" "e \<in> set (ei_socket_energy_uj energy)"
      using that by (auto simp: in_set_enumerate_eq)
    then have "Suc i * unat ?cps \<le> length (ei_socket_energy_uj energy) * unat ?cps"
      by (intro mult_right_mono) auto
    then have si: "Suc i * unat ?cps < 2 ^ 32" using assms(1) by (auto simp: split_small_def)
    show ?thesis
      using socket_conserved(1) [OF _ si, where cw = ?cw and energy = e] assms(1) i(2)
        core_weights_bounded [of obs]
      by (simp add: energy_sum_def socket_entries_def comp_def split_small_def word_neq_0_conv)
  qed
  have concat: "energy_sum (concat (map f xs)) = sum_list (map (\<lambda>x. energy_sum (f x)) xs)"
    for f :: "nat \<times> u64 \<Rightarrow> (u32, u64) hmap" and xs
    by (induction xs) (simp_all add: energy_sum_def)
  have ce: "ce = concat (map (socket_entries ?cps ?cw) (enumerate 0 (ei_socket_energy_uj energy)))"
    using split_result(1) [OF assms(1)] assms(2) by simp
  have "energy_sum ce \<le> sum_list (map (\<lambda>(i, e). unat e) (enumerate 0 (ei_socket_energy_uj energy)))"
    unfolding ce concat by (intro sum_list_mono) (auto simp: part)
  also have "\<dots> = sum_list (map unat (ei_socket_energy_uj energy))" by (simp add: map_enumerate_snd)
  finally show ?thesis .
qed

lemma engine_totals:
  assumes "perm_iter it" and "engine_small eng energy obs" and "model_ok (ae_model eng)"
    and "split_socket_to_cores eng energy obs = Inr ce"
  defines "pe \<equiv> fst (attribute_cores it (ae_model eng) (engine_inputs it ce obs) (ae_num_cores eng))"
  shows "energy_sum pe \<le> energy_sum ce"
    and "busy_energy it eng obs ce \<le> energy_sum pe + length (os_pid_cpu_times obs)"
proof -
  let ?ci = "engine_inputs it ce obs" and ?cs = "u32_range 0 (ae_num_cores eng)"
  let ?n = "length (os_pid_cpu_times obs)" and ?S = "sum_list (map unat (ei_socket_energy_uj energy))"
  have small: "split_small eng energy obs" "?S < 2 ^ 64" "?n * ?S < 2 ^ 50" "?n \<le> 2 ^ 50"
    using assms(2) by (auto simp: engine_small_def split_small_def)
  have ceS: "energy_sum ce \<le> ?S" by (rule split_total [OF small(1) assms(4)])
  have all: "sum_list (map (core_energy ?ci) cs) \<le> energy_sum ce" if "distinct cs" for cs
    using sum_lookup_le [OF that, of ce] by (simp add: core_energy_def [abs_def] engine_inputs_def)
  have pids: "core_pids ?ci c \<le> length (filter (\<lambda>x. pck_cpu (fst x) = c) (os_pid_cpu_times obs))" for c
    using core_pids_built by (simp add: core_pids_def engine_inputs_def)
  have each: "core_pids ?ci c \<le> 2 ^ 50 \<and> core_pids ?ci c * core_energy ?ci c < 2 ^ 50" for c
  proof -
    have n: "core_pids ?ci c \<le> ?n" using pids [of c] length_filter_le order_trans by blast
    have "core_energy ?ci c \<le> ?S" using all [of "[c]"] ceS by simp
    with n have "core_pids ?ci c * core_energy ?ci c \<le> ?n * ?S" by (intro mult_mono) auto
    with n small(3,4) show ?thesis by linarith
  qed
  have tot: "energy_sum (fst ([], [])) + sum_list (map (core_energy ?ci) ?cs) < 2 ^ 64"
    using all [OF distinct_u32_range, of 0 "ae_num_cores eng"] ceS small(2) by (simp add: energy_sum_def)
  note f = fold_attribute_core [OF assms(1,3) each tot]
  show "energy_sum pe \<le> energy_sum ce"
    using f all [OF distinct_u32_range, of 0 "ae_num_cores eng"]
    by (simp add: pe_def attribute_cores_def energy_sum_def)
  have "sum_list (map (core_pids ?ci) ?cs) \<le> ?n"
    by (rule order_trans [OF sum_list_mono sum_filter_cpu_le]) (rule pids, rule distinct_u32_range)
  then show "busy_energy it eng obs ce \<le> energy_sum pe + ?n"
    using f by (simp add: pe_def attribute_cores_def energy_sum_def busy_energy_def)
qed

lemma map_get_or_keys: "hm_wf m \<Longrightarrow> map (\<lambda>k. hm_get_or m k d) (map fst m) = map snd m"
  by (auto simp: hm_get_or_def hm_wf_def)

lemma unat_energy_sum: "energy_sum m < 2 ^ 64 \<Longrightarrow> unat (sum_list (map snd m)) = energy_sum m"
  unfolding energy_sum_def by (subst unat_sum_list) (simp_all add: comp_def)

lemma split_small_model [simp]:
  "split_small (eng\<lparr>ae_model := m\<rparr>) energy obs = split_small eng energy obs"
  "engine_small (eng\<lparr>ae_model := m\<rparr>) energy obs = engine_small eng energy obs"
  "split_socket_to_cores (eng\<lparr>ae_model := m\<rparr>) energy obs = split_socket_to_cores eng energy obs"
  by (simp_all add: split_small_def engine_small_def split_socket_to_cores_def)

text \<open>
  C2: The processes of a node never receive more CPU energy than its cores used, for
  every iteration order of the hash maps, and the cores on which processes ran hand out
  all of their energy but at most one microjoule per process and core.
\<close>

theorem cores_conserve_energy:
  assumes "perm_iter it" and "engine_small eng energy obs"
  shows "\<exists>ce. split_socket_to_cores eng energy obs = Inr ce \<and>
    (\<forall>has_freq has_counters.
       let eng' = eng\<lparr>ae_model := select_model has_freq has_counters\<rparr>;
           pe = fst (attribute_cores it (ae_model eng') (engine_inputs it ce obs) (ae_num_cores eng'))
       in energy_sum pe \<le> energy_sum ce \<and>
          busy_energy it eng' obs ce \<le> energy_sum pe + length (os_pid_cpu_times obs))"
proof -
  have small: "split_small eng energy obs" using assms(2) by (simp add: engine_small_def)
  obtain ce where ce: "split_socket_to_cores eng energy obs = Inr ce" using split_result(1) [OF small] by blast
  show ?thesis
    using ce engine_totals [OF assms(1), of "eng\<lparr>ae_model := select_model _ _\<rparr>" energy obs ce] assms(2)
    by (auto simp: Let_def select_model_ok)
qed


lemma attribute_Inl_iff:
  "attribute it now obs energy eng = Inl p \<longleftrightarrow>
     p = DivByZero \<and> ae_cores_per_socket eng = 0 \<and> ei_socket_energy_uj energy \<noteq> []"
proof -
  have one: "split_one_socket cps cw s ce = Inl p \<longleftrightarrow> p = DivByZero \<and> cps = 0" for cps cw s ce p
  proof (cases "cps = 0")
    case True
    then show ?thesis
      by (auto simp: split_one_socket_def u32_range_def f64_sum_def map_filter_simps case_prod_unfold)
  next
    case False
    then show ?thesis by (simp add: split_one_socket_def Let_def case_prod_unfold)
  qed
  have "split_sockets cps cw ss ce = Inl p \<longleftrightarrow> p = DivByZero \<and> cps = 0 \<and> ss \<noteq> []" for cps cw ss ce p
  proof (induction ss arbitrary: ce)
    case (Cons s ss)
    then show ?case using one [of cps cw s ce] by (auto split: sum.split)
  qed simp
  then have "split_socket_to_cores eng energy obs = Inl p \<longleftrightarrow>
      p = DivByZero \<and> ae_cores_per_socket eng = 0 \<and> ei_socket_energy_uj energy \<noteq> []" for p
    by (simp add: split_socket_to_cores_def enumerate_eq_zip)
  moreover have "attribute it now obs energy eng = Inl p \<longleftrightarrow> split_socket_to_cores eng energy obs = Inl p"
    by (cases "split_socket_to_cores eng energy obs")
      (simp_all only: attribute_def Let_def split_small_model sum.case case_prod_unfold sum.distinct sum.inject)
  ultimately show ?thesis by simp
qed

lemma attribute_returns:
  "ae_cores_per_socket eng \<noteq> 0 \<Longrightarrow> \<exists>snap eng'. attribute it now obs energy eng = Inr (snap, eng')"
  using attribute_Inl_iff [of it now obs energy eng] by (cases "attribute it now obs energy eng") auto

text \<open>
  C32: The engine panics (integer division by zero) exactly when it is given socket
  energies while it was configured with more sockets than cores, and otherwise always
  returns a snapshot.
\<close>

theorem attribute_panics_iff:
  "attribute it now obs energy eng = Inl p \<longleftrightarrow>
     p = DivByZero \<and> ae_cores_per_socket eng = 0 \<and> ei_socket_energy_uj energy \<noteq> []"
  by (rule attribute_Inl_iff)

subsection \<open>Processes and their drill-down\<close>

lemma hm_get_or_upsert:
  "hm_get_or (hm_upsert k d f m) k' e =
     (if k' = k then f (hm_get_or m k d) else hm_get_or m k' e)"
  by (simp add: hm_get_or_def hm_upsert_def)

lemma detail_ok_credit: "detail_ok totals \<Longrightarrow> detail_ok (credit_process core f e W wo totals)"
  by (simp add: detail_ok_def credit_process_def Let_def case_prod_unfold hm_get_or_upsert)

lemma detail_ok_fold_credit:
  "detail_ok totals \<Longrightarrow> detail_ok (fold (credit_process core f e W) wos totals)"
  by (induction wos arbitrary: totals) (simp_all add: detail_ok_credit)

lemma detail_ok_core: "detail_ok totals \<Longrightarrow> detail_ok (attribute_core it model ci core totals)"
  by (simp add: attribute_core_def Let_def detail_ok_fold_credit)

lemma detail_ok_cores: "detail_ok (attribute_cores it model ci n)"
proof -
  have "detail_ok (fold (attribute_core it model ci) cs totals)" if "detail_ok totals" for cs totals
    using that by (induction cs arbitrary: totals) (simp_all add: detail_ok_core)
  moreover have "detail_ok ([], [])" by (simp add: detail_ok_def hm_get_or_def)
  ultimately show ?thesis by (simp add: attribute_cores_def)
qed

lemma attribute_processes_eq:
  assumes "attribute it now obs energy eng = Inr (snap, eng')"
  obtains totals mem where "detail_ok totals"
    and "as_processes snap = build_processes (model_method (ae_model eng')) obs (ei_interval_ns energy) totals mem"
    and "\<exists>ce. totals = attribute_cores it (ae_model eng') (engine_inputs it ce obs) (ae_num_cores eng')"
proof (cases "split_socket_to_cores eng energy obs")
  case (Inr ce)
  let ?t = "attribute_cores it (ae_model eng') (engine_inputs it ce obs) (ae_num_cores eng')"
  show ?thesis
  proof (rule that [of ?t "attribute_memory it energy obs (fst ?t)"])
    show "as_processes snap =
        build_processes (model_method (ae_model eng')) obs (ei_interval_ns energy) ?t (attribute_memory it energy obs (fst ?t))"
      using assms unfolding attribute_def Let_def split_small_model Inr case_prod_unfold sum.case
        sum.inject prod.inject by (elim conjE) (drule sym, drule sym, simp)
  qed (use detail_ok_cores in blast)+
qed (use assms in \<open>simp add: attribute_def Let_def\<close>)

text \<open>
  Each process appears once in a snapshot, and the CPU power of a process is the
  power of exactly the energy that its per-core drill-down entries add up to.
\<close>

lemma process_detail_adds_up:
  assumes "attribute it now obs energy eng = Inr (snap, eng')"
  shows "distinct (map pp_pid (as_processes snap)) \<and>
    (\<forall>p \<in> set (as_processes snap).
       pb_cpu_uw (pp_power p) =
         energy_to_power (sum_list (map ca_energy_uj (pp_core_detail p))) (ei_interval_ns energy))"
proof -
  obtain totals mem where t: "detail_ok totals"
      "as_processes snap = build_processes (model_method (ae_model eng')) obs (ei_interval_ns energy) totals mem"
    using attribute_processes_eq [OF assms] by metis
  show ?thesis
    using t(1) unfolding t(2) detail_ok_def
    by (auto simp: build_processes_def Let_def case_prod_unfold comp_def hm_wf_def)
qed

subsection \<open>From energy to power\<close>

lemma div_add_bounds:
  fixes a b i :: nat
  shows "a div i + b div i \<le> (a + b) div i" and "(a + b) div i \<le> a div i + b div i + 1"
proof -
  have "(a + b) div i = a div i + b div i + (a mod i + b mod i) div i" by (rule div_add1_eq)
  moreover have "(a mod i + b mod i) div i \<le> 1"
  proof (cases "i = 0")
    case False
    then have "a mod i + b mod i < 2 * i" by (simp add: mult_2 add_strict_mono)
    then have "(a mod i + b mod i) div i < 2" by (rule less_mult_imp_div_less)
    then show ?thesis by simp
  qed simp
  ultimately show "a div i + b div i \<le> (a + b) div i" and "(a + b) div i \<le> a div i + b div i + 1" by simp_all
qed

lemma sum_div_bounds:
  fixes i :: nat
  shows "sum_list (map (\<lambda>e. e * m div i) es) \<le> sum_list es * m div i"
    and "sum_list es * m div i \<le> sum_list (map (\<lambda>e. e * m div i) es) + length es"
proof (induction es)
  case (Cons e es)
  { case 1 show ?case using Cons(1) div_add_bounds(1) [of "e * m" i "sum_list es * m"] by (simp add: distrib_right) }
  { case 2 show ?case using Cons(2) div_add_bounds(2) [of "e * m" "sum_list es * m" i] by (simp add: distrib_right) }
qed simp_all

lemma energy_to_power_unat:
  assumes "interval \<noteq> 0" and "unat e * 1000000000 div unat interval < 2 ^ 64"
  shows "unat (energy_to_power e interval) = unat e * 1000000000 div unat interval"
proof -
  have up: "unat (ucast w :: 128 word) = unat w" for w :: u64
  proof -
    have "unat w < 2 ^ 128" using unsigned_less [where 'a = nat, of w] by simp
    then show ?thesis by (simp add: unsigned_ucast_eq take_bit_nat_eq_self)
  qed
  have "unat e * 1000000000 < 2 ^ 64 * 1000000000" using unsigned_less [where 'a = nat, of e] by simp
  then have "unat (ucast e * 1000000000 :: 128 word) = unat e * 1000000000"
    by (simp add: unat_word_ariths up)
  then have "unat ((ucast e * 1000000000 :: 128 word) div ucast interval) = unat e * 1000000000 div unat interval"
    by (simp add: unat_div up)
  then show ?thesis using assms
    by (simp add: energy_to_power_def unsigned_ucast_eq take_bit_nat_eq_self)
qed

lemma process_power_bounds:
  assumes "perm_iter it" and "engine_small eng energy obs" and "ei_interval_ns energy \<noteq> 0"
    and "attribute it now obs energy eng = Inr (snap, eng')"
    and "sum_list (map unat (ei_socket_energy_uj energy)) * 1000000000 div unat (ei_interval_ns energy) < 2 ^ 64"
  defines "parts \<equiv> sum_list (map (\<lambda>p. unat (pb_cpu_uw (pp_power p))) (as_processes snap))
      + unat (pb_cpu_uw (as_idle_power snap))"
  shows "parts \<le> unat (pb_cpu_uw (np_measured (as_node snap)))"
    and "unat (pb_cpu_uw (np_measured (as_node snap))) \<le> parts + length (as_processes snap) + 1"
proof -
  let ?I = "ei_interval_ns energy"
  have small: "split_small eng energy obs" using assms(2) by (simp add: engine_small_def)
  obtain ce where ce: "split_socket_to_cores eng energy obs = Inr ce" using split_result(1) [OF small] by blast
  have eng': "eng' = eng\<lparr>ae_model := select_model (os_cpu_freq_times obs \<noteq> []) (os_core_counters obs \<noteq> [])\<rparr>"
    using assms(4) by (simp add: attribute_def Let_def ce case_prod_unfold)
  define totals where "totals = attribute_cores it (ae_model eng') (engine_inputs it ce obs) (ae_num_cores eng')"
  define pe where "pe = fst totals"
  define idle where "idle = sat_sub (sum_list (map snd ce)) (sum_list (map snd pe))"
  define pw where "pw = (\<lambda>e :: u64. unat e * 1000000000 div unat ?I)"
  have snap: "as_processes snap = build_processes (model_method (ae_model eng')) obs ?I totals (attribute_memory it energy obs pe)"
      "pb_cpu_uw (as_idle_power snap) = energy_to_power idle ?I"
      "pb_cpu_uw (np_measured (as_node snap)) = energy_to_power (sum_list (map snd ce)) ?I"
    using assms(4) eng' by (auto simp: attribute_def Let_def ce case_prod_unfold totals_def pe_def idle_def pb_default_def)
  have le: "energy_sum pe \<le> energy_sum ce"
    unfolding pe_def totals_def using assms(1,2) ce by (intro engine_totals(1)) (simp_all add: eng' select_model_ok)
  have ceS: "energy_sum ce \<le> sum_list (map unat (ei_socket_energy_uj energy))" by (rule split_total [OF small ce])
  then have ce64: "energy_sum ce < 2 ^ 64" using assms(2) by (auto simp: engine_small_def)
  have uidle: "unat idle = energy_sum ce - energy_sum pe"
    using le ce64 by (simp add: idle_def unat_simps unat_energy_sum)
  have "energy_sum ce * 1000000000 div unat ?I \<le>
      sum_list (map unat (ei_socket_energy_uj energy)) * 1000000000 div unat ?I"
    using ceS by (intro div_le_mono mult_right_mono) auto
  with assms(5) have fits: "energy_sum ce * 1000000000 div unat ?I < 2 ^ 64" by simp
  have exact: "unat (energy_to_power e ?I) = pw e" if "unat e \<le> energy_sum ce" for e
  proof -
    have "pw e \<le> energy_sum ce * 1000000000 div unat ?I"
      unfolding pw_def using that by (intro div_le_mono mult_right_mono) auto
    with fits show ?thesis using assms(3) by (simp add: pw_def energy_to_power_unat)
  qed
  have "detail_ok totals" unfolding totals_def by (rule detail_ok_cores)
  then have wf: "hm_wf pe" by (simp add: detail_ok_def pe_def)
  have entry: "unat e \<le> energy_sum ce" if "e \<in> snd ` set pe" for e
    using that le member_le_sum_list_nat [of _ pe "\<lambda>x. unat (snd x)"] by (fastforce simp: energy_sum_def)
  let ?es = "map (\<lambda>x. unat (snd x)) pe @ [unat idle]"
  have total: "sum_list ?es = energy_sum ce" using le uidle by (simp add: energy_sum_def)
  have "map (\<lambda>p. unat (pb_cpu_uw (pp_power p))) (as_processes snap) =
      map (\<lambda>e. unat (energy_to_power e ?I)) (map (\<lambda>k. hm_get_or pe k 0) (map fst pe))"
    by (simp add: snap(1) build_processes_def Let_def case_prod_unfold pe_def)
  also have "\<dots> = map pw (map snd pe)"
    unfolding map_get_or_keys [OF wf] using entry by (simp add: exact)
  finally have "parts = sum_list (map (\<lambda>e. e * 1000000000 div unat ?I) ?es)"
    using uidle by (simp add: parts_def snap(2) exact pw_def comp_def)
  moreover have "unat (pb_cpu_uw (np_measured (as_node snap))) = sum_list ?es * 1000000000 div unat ?I"
    unfolding total snap(3) using ce64 by (simp add: exact unat_energy_sum pw_def)
  moreover have "length ?es = length (as_processes snap) + 1"
    by (simp add: snap(1) build_processes_def Let_def case_prod_unfold pe_def)
  ultimately show "parts \<le> unat (pb_cpu_uw (np_measured (as_node snap)))"
    and "unat (pb_cpu_uw (np_measured (as_node snap))) \<le> parts + length (as_processes snap) + 1"
    using sum_div_bounds [where es = ?es and m = 1000000000 and i = "unat ?I"] by simp_all
qed

text \<open>
  The CPU power of all processes plus the idle power adds up to the measured CPU
  power of the node: it never exceeds it and falls short by at most one microwatt per
  process.
\<close>

lemma process_power_adds_up:
  assumes "perm_iter it" and "engine_small eng energy obs" and "ei_interval_ns energy \<noteq> 0"
    and "attribute it now obs energy eng = Inr (snap, eng')"
    and "sum_list (map unat (ei_socket_energy_uj energy)) * 1000000000 div unat (ei_interval_ns energy) < 2 ^ 64"
  shows "let parts = sum_list (map (\<lambda>p. unat (pb_cpu_uw (pp_power p))) (as_processes snap))
               + unat (pb_cpu_uw (as_idle_power snap));
             measured = unat (pb_cpu_uw (np_measured (as_node snap)))
         in parts \<le> measured \<and> measured \<le> parts + length (as_processes snap) + 1"
  using process_power_bounds [OF assms] by (simp add: Let_def)

subsection \<open>Memory energy\<close>

lemma shares_of_map:
  assumes "perm_iter it" and "energy_sum m < 2 ^ 64" and "0 < sum_list (map snd m)"
    and "length m * unat D < 2 ^ 50"
  defines "mem \<equiv> map (\<lambda>(pid, x). (pid, share D (f64_of_u64 (sum_list (map snd m))) (f64_of_u64 x))) (it m)"
  shows "energy_sum mem \<le> unat D \<and> unat D \<le> energy_sum mem + length mem"
proof -
  let ?ts = "map snd (it m)"
  have perm: "mset (it m) = mset m" using assms(1) by (simp add: perm_iter_def)
  have "sum_list ?ts = sum_list (map snd m)" "sum_list (map unat ?ts) = energy_sum m"
    using sum_list_perm [OF perm, of snd] sum_list_perm [OF perm, of "\<lambda>x. unat (snd x)"]
    by (simp_all add: energy_sum_def comp_def)
  moreover have len: "length (it m) = length m" using assms(1) by (rule perm_iter_length)
  ultimately show ?thesis
    using shares_of_u64_sum [of ?ts D] assms(2-4)
    by (simp add: mem_def energy_sum_def case_prod_unfold comp_def)
qed

text \<open>
  C23: The DRAM energy handed to the processes never exceeds the DRAM energy of the node,
  and when any is handed out, all of it is but at most one microjoule per process; this
  holds for the attribution by cache misses and for the fallback by CPU energy.
\<close>

theorem memory_conserves_energy:
  assumes "perm_iter it"
    and "energy_sum pe < 2 ^ 64" and "length pe * unat (sum_list (ei_dram_energy_uj energy)) < 2 ^ 50"
    and "energy_sum (aggregate_pid_counter it obs cc_cache_misses) < 2 ^ 64"
    and "length (aggregate_pid_counter it obs cc_cache_misses) * unat (sum_list (ei_dram_energy_uj energy)) < 2 ^ 50"
  shows "let mem = attribute_memory it energy obs pe; dram = unat (sum_list (ei_dram_energy_uj energy))
         in energy_sum mem \<le> dram \<and> (mem \<noteq> [] \<longrightarrow> dram \<le> energy_sum mem + length mem)"
proof -
  note cpu = shares_of_map [OF assms(1,2) _ assms(3)]
  note miss = shares_of_map [OF assms(1,4) _ assms(5)]
  show ?thesis
    unfolding attribute_memory_def Let_def
    using cpu miss by (auto simp: word_neq_0_conv energy_sum_def)
qed

subsection \<open>A small node\<close>

definition sample_engine :: AttributionEngine where
  "sample_engine = engine_new 4 2"

definition sample_energy :: EnergyInput where
  "sample_energy =
     \<lparr>ei_socket_energy_uj = [3000000, 1000000], ei_dram_energy_uj = [500000], ei_gpu_energy_uj = [],
      ei_platform_energy_uj = Some 6000000, ei_interval_ns = 1000000000\<rparr>"

definition sample_obs :: ObservationSnapshot where
  "sample_obs =
     \<lparr>os_pid_cpu_times =
        [(\<lparr>pck_cpu = 0, pck_pid = 10\<rparr>, 600000000), (\<lparr>pck_cpu = 0, pck_pid = 11\<rparr>, 200000000),
         (\<lparr>pck_cpu = 1, pck_pid = 10\<rparr>, 400000000)],
      os_cpu_freq_times = [(\<lparr>cfk_cpu = 0, cfk_freq_khz = 3000000\<rparr>, 1000000000)],
      os_core_counters = [], os_pid_cgroups = [(10, 77), (11, 78)]\<rparr>"

lemma sample_small: "engine_small sample_engine sample_energy sample_obs"
  by (simp add: engine_small_def split_small_def sample_engine_def sample_energy_def sample_obs_def engine_new_def)

lemma perm_iter_rev: "perm_iter rev"
  by (simp add: perm_iter_def)

theorem split_conserves_energy_witness:
  "\<exists>ce. split_socket_to_cores sample_engine sample_energy sample_obs = Inr ce \<and> hm_wf ce \<and>
     sum_list (map (\<lambda>c. unat (hm_get_or ce c 0)) [0, 1]) \<le> 3000000 \<and>
     3000000 \<le> sum_list (map (\<lambda>c. unat (hm_get_or ce c 0)) [0, 1]) + 2"
proof -
  have s: "split_small sample_engine sample_energy sample_obs" using sample_small by (simp add: engine_small_def)
  have cps: "ae_cores_per_socket sample_engine = 2" by (simp add: sample_engine_def engine_new_def)
  have es: "ei_socket_energy_uj sample_energy = [3000000, 1000000]" by (simp add: sample_energy_def)
  have cores: "socket_cores 2 0 = [0, 1]" by (simp add: socket_cores_def u32_range_def upt_rec)
  from split_conserves_energy [OF s] obtain ce where
    ce: "split_socket_to_cores sample_engine sample_energy sample_obs = Inr ce" "hm_wf ce" and all:
    "\<forall>i < 2. sum_list (map (\<lambda>c. unat (hm_get_or ce c 0)) (socket_cores 2 i)) \<le> unat ([3000000, 1000000] ! i :: u64) \<and>
       unat ([3000000, 1000000] ! i :: u64) \<le> sum_list (map (\<lambda>c. unat (hm_get_or ce c 0)) (socket_cores 2 i)) + unat (2 :: u32)"
    unfolding cps es by auto
  have "sum_list (map (\<lambda>c. unat (hm_get_or ce c 0)) (socket_cores 2 0)) \<le> 3000000"
    "3000000 \<le> sum_list (map (\<lambda>c. unat (hm_get_or ce c 0)) (socket_cores 2 0)) + 2"
    using all [THEN spec, of 0] by simp_all
  with ce show ?thesis unfolding cores by auto
qed

theorem cores_conserve_energy_witness:
  "\<exists>ce. split_socket_to_cores sample_engine sample_energy sample_obs = Inr ce \<and>
     energy_sum (fst (attribute_cores rev FrequencyWeightedModel (engine_inputs rev ce sample_obs) 4)) \<le> energy_sum ce"
proof -
  from cores_conserve_energy [OF perm_iter_rev sample_small] obtain ce where
    ce: "split_socket_to_cores sample_engine sample_energy sample_obs = Inr ce" and
    all: "\<forall>has_freq has_counters.
       let eng' = sample_engine\<lparr>ae_model := select_model has_freq has_counters\<rparr>;
           pe = fst (attribute_cores rev (ae_model eng') (engine_inputs rev ce sample_obs) (ae_num_cores eng'))
       in energy_sum pe \<le> energy_sum ce \<and>
          busy_energy rev eng' sample_obs ce \<le> energy_sum pe + length (os_pid_cpu_times sample_obs)"
    by blast
  have "ae_num_cores sample_engine = 4" by (simp add: sample_engine_def engine_new_def)
  with all [THEN spec, of True, THEN spec, of False] ce show ?thesis
    by (auto simp: Let_def select_model_def)
qed


lemma sample_returns: "\<exists>snap eng'. attribute rev 0 sample_obs sample_energy sample_engine = Inr (snap, eng')"
  by (rule attribute_returns) (simp add: sample_engine_def engine_new_def)

lemma process_detail_adds_up_witness:
  "\<exists>snap eng'. attribute rev 0 sample_obs sample_energy sample_engine = Inr (snap, eng') \<and>
    distinct (map pp_pid (as_processes snap)) \<and>
    (\<forall>p \<in> set (as_processes snap).
       pb_cpu_uw (pp_power p) = energy_to_power (sum_list (map ca_energy_uj (pp_core_detail p))) 1000000000)"
proof -
  obtain snap eng' where a: "attribute rev 0 sample_obs sample_energy sample_engine = Inr (snap, eng')"
    using sample_returns by blast
  from process_detail_adds_up [OF a] a show ?thesis by (auto simp: sample_energy_def)
qed

lemma process_power_adds_up_witness:
  "\<exists>snap eng'. attribute rev 0 sample_obs sample_energy sample_engine = Inr (snap, eng') \<and>
    (let parts = sum_list (map (\<lambda>p. unat (pb_cpu_uw (pp_power p))) (as_processes snap))
               + unat (pb_cpu_uw (as_idle_power snap));
         measured = unat (pb_cpu_uw (np_measured (as_node snap)))
     in parts \<le> measured \<and> measured \<le> parts + length (as_processes snap) + 1)"
proof -
  obtain snap eng' where a: "attribute rev 0 sample_obs sample_energy sample_engine = Inr (snap, eng')"
    using sample_returns by blast
  have "ei_interval_ns sample_energy \<noteq> 0"
    "sum_list (map unat (ei_socket_energy_uj sample_energy)) * 1000000000 div unat (ei_interval_ns sample_energy) < 2 ^ 64"
    by (simp_all add: sample_energy_def)
  from process_power_adds_up [OF perm_iter_rev sample_small this(1) a this(2)] a show ?thesis by blast
qed

theorem memory_conserves_energy_witness:
  "let mem = attribute_memory rev sample_energy sample_obs [(10, 2500000), (11, 400000)]
   in energy_sum mem \<le> 500000 \<and> 500000 \<le> energy_sum mem + length mem"
proof -
  have "attribute_memory rev sample_energy sample_obs [(10, 2500000), (11, 400000)] \<noteq> []"
    by (simp add: attribute_memory_def sample_energy_def sample_obs_def)
  moreover have no_misses: "aggregate_pid_counter rev sample_obs cc_cache_misses = []"
    by (simp add: aggregate_pid_counter_def sample_obs_def)
  ultimately show ?thesis
    using memory_conserves_energy [OF perm_iter_rev, of "[(10, 2500000), (11, 400000)]" sample_energy sample_obs]
    by (simp add: no_misses) (simp add: energy_sum_def sample_energy_def)
qed

end
