(* ===== verification/Classification.thy ===== *)
theory Classification
  imports Hash_Map Rust_Str
begin

text \<open>
  Classification of pods by namespace in the controller
  (\<open>keck-controller/src/application.rs\<close>).  What the Kubernetes API returns is an
  argument: the ClusterOperator objects with their related objects, and the namespaces
  that have an OLM Subscription.
\<close>

record ApplicationDef =
  ad_name :: str
  ad_namespaces :: "str list"
  ad_label_selectors :: "(str, str) hmap list"

record ClassificationData =
  cd_co_namespaces :: "(str, str) hmap"
  cd_operator_namespaces :: "str set"
  cd_app_defs :: "ApplicationDef list"

definition classification_default :: ClassificationData where
  "classification_default = \<lparr>cd_co_namespaces = [], cd_operator_namespaces = {}, cd_app_defs = []\<rparr>"

definition classify :: "ClassificationData \<Rightarrow> str \<Rightarrow> str \<times> str option" where
  "classify cls namespace =
     (case map_of (cd_co_namespaces cls) namespace of
        Some co_name \<Rightarrow> (''platform'', Some co_name)
      | None \<Rightarrow> if namespace \<in> cd_operator_namespaces cls then (''operator'', None) else (''application'', None))"

text \<open>
  A related object is its \<open>resource\<close> and \<open>name\<close> fields, each present only if it is a
  string in the JSON.
\<close>

record ClusterOperator =
  co_name :: "str option"
  co_related :: "(str option \<times> str option) list"

definition add_related :: "str \<Rightarrow> str option \<times> str option \<Rightarrow> (str, str) hmap \<Rightarrow> (str, str) hmap" where
  "add_related name obj ns_to_co =
     (let resource = (case fst obj of None \<Rightarrow> [] | Some r \<Rightarrow> r)
      in if resource \<noteq> ''namespaces'' then ns_to_co
         else (case snd obj of
                 None \<Rightarrow> ns_to_co
               | Some ns \<Rightarrow>
                   if ns = ''openshift-config'' \<or> ns = ''openshift-config-managed'' then ns_to_co
                   else let dominated = (str_contains ns name \<or>
                              str_contains ns (map (\<lambda>c. if c = CHR ''-'' then CHR ''_'' else c) name))
                        in (case map_of ns_to_co ns of
                              None \<Rightarrow> AList.update ns name ns_to_co
                            | Some existing \<Rightarrow>
                                if dominated \<and> \<not> str_contains ns existing
                                then AList.update ns name ns_to_co else ns_to_co)))"

definition discover_co_namespaces :: "ClusterOperator list option \<Rightarrow> (str, str) hmap" where
  "discover_co_namespaces listed =
     (case listed of
        None \<Rightarrow> []
      | Some items \<Rightarrow>
          fold (\<lambda>co m. let name = (case co_name co of None \<Rightarrow> [] | Some n \<Rightarrow> n)
                        in fold (add_related name) (co_related co) m) items [])"

text \<open>One round of the background loop.\<close>

definition refresh_classification :: "ClusterOperator list option \<Rightarrow> str list \<Rightarrow> ClassificationData" where
  "refresh_classification listed sub_namespaces =
     (let data = classification_default\<lparr>cd_co_namespaces := discover_co_namespaces listed\<rparr>
      in fold (\<lambda>ns data. if map_of (cd_co_namespaces data) ns = None
                         then data\<lparr>cd_operator_namespaces := insert ns (cd_operator_namespaces data)\<rparr>
                         else data) sub_namespaces data)"

subsection \<open>The three categories do not overlap\<close>

lemma refresh_fold:
  fixes data :: ClassificationData
  shows "cd_co_namespaces (fold (\<lambda>ns data. if map_of (cd_co_namespaces data) ns = None
            then data\<lparr>cd_operator_namespaces := insert ns (cd_operator_namespaces data)\<rparr> else data) subs data)
      = cd_co_namespaces data"
    and "cd_operator_namespaces (fold (\<lambda>ns data. if map_of (cd_co_namespaces data) ns = None
            then data\<lparr>cd_operator_namespaces := insert ns (cd_operator_namespaces data)\<rparr> else data) subs data)
      = cd_operator_namespaces data \<union> {ns \<in> set subs. map_of (cd_co_namespaces data) ns = None}"
  by (induction subs arbitrary: data) auto

text \<open>
  After every refresh a namespace is classified as operator exactly when it has a
  Subscription and no ClusterOperator claims it, as platform exactly when one does, and
  as application otherwise: the categories never overlap.
\<close>

lemma classify_refreshed:
  "classify (refresh_classification listed subs) ns =
     (case map_of (discover_co_namespaces listed) ns of
        Some co \<Rightarrow> (''platform'', Some co)
      | None \<Rightarrow> if ns \<in> set subs then (''operator'', None) else (''application'', None)) \<and>
   cd_operator_namespaces (refresh_classification listed subs) \<inter>
     dom (map_of (cd_co_namespaces (refresh_classification listed subs))) = {}"
  by (auto simp: classify_def refresh_classification_def Let_def refresh_fold classification_default_def
      split: option.split)

end
