(* ===== verification/Aggregator.thy ===== *)
theory Aggregator
  imports F64 Classification "HOL-Library.List_Lexorder" "HOL-Library.Char_ord"
begin

text \<open>
  The cluster aggregator of the controller (\<open>keck-controller/src/aggregator/mod.rs\<close>).
  Its state is the latest report of every pod and node, per metering method, and a
  history per namespace.  \<open>Instant::now()\<close> and \<open>SystemTime::now()\<close> are arguments in
  nanoseconds.  Sorting by descending power is stable, as in Rust.
\<close>

record PodPowerReport =
  ppr_node_name :: str
  ppr_pod_uid :: str
  ppr_pod_name :: str
  ppr_namespace :: str
  ppr_cpu_uw :: u64
  ppr_memory_uw :: u64
  ppr_gpu_uw :: u64
  ppr_storage_uw :: u64
  ppr_io_uw :: u64
  ppr_total_uw :: u64
  ppr_timestamp :: instant
  ppr_workload_uid :: str
  ppr_workload_name :: str
  ppr_workload_kind :: str
  ppr_workload_category :: str
  ppr_labels :: "(str, str) hmap"
  ppr_metering_method :: str

record SourceStatus =
  ss_name :: str
  ss_node_name :: str
  ss_component :: str
  ss_reading_type :: str
  ss_available :: bool
  ss_selected :: bool
  ss_power_uw :: u64

record NodePowerReport =
  npr_node_name :: str
  npr_cpu_uw :: u64
  npr_memory_uw :: u64
  npr_gpu_uw :: u64
  npr_platform_uw :: "u64 option"
  npr_psu_output_uw :: "u64 option"
  npr_idle_uw :: u64
  npr_error_ratio :: f64
  npr_pod_count :: u32
  npr_process_count :: u32
  npr_timestamp :: instant
  npr_cpu_source :: str
  npr_memory_source :: str
  npr_cpu_reading_type :: str
  npr_sources :: "SourceStatus list"
  npr_metering_method :: str

record AgentReport =
  ar_node :: NodePowerReport
  ar_pods :: "PodPowerReport list"

record PodState =
  pst_report :: PodPowerReport
  pst_received_at :: instant

record NodeState =
  nst_report :: NodePowerReport
  nst_received_at :: instant

record NsPower =
  ns_namespace :: str
  ns_cpu_uw :: u64
  ns_memory_uw :: u64
  ns_gpu_uw :: u64
  ns_storage_uw :: u64
  ns_io_uw :: u64
  ns_total_uw :: u64
  ns_pod_count :: nat

record ClusterPower =
  cl_cpu_uw :: u64
  cl_memory_uw :: u64
  cl_gpu_uw :: u64
  cl_platform_uw :: u64
  cl_psu_output_uw :: u64
  cl_psu_loss_uw :: u64
  cl_idle_uw :: u64
  cl_total_attributed_uw :: u64
  cl_node_count :: nat
  cl_pod_count :: nat
  cl_avg_error_ratio :: f64

record NodeSummary =
  nsum_node_name :: str
  nsum_cpu_uw :: u64
  nsum_memory_uw :: u64
  nsum_gpu_uw :: u64
  nsum_platform_uw :: "u64 option"
  nsum_psu_output_uw :: "u64 option"
  nsum_idle_uw :: u64
  nsum_error_ratio :: f64
  nsum_pod_count :: u32
  nsum_headroom_uw :: "u64 option"
  nsum_cpu_source :: str
  nsum_cpu_reading_type :: str
  nsum_metering_method :: str
  nsum_last_seen :: instant
  nsum_last_seen_secs_ago :: int

datatype GroupBy = GWorkload | GLabel str | GNamespace | GApplication

definition GroupBy_parse :: "str \<Rightarrow> GroupBy" where
  "GroupBy_parse raw =
     (if raw = ''namespace'' then GNamespace
      else if raw = ''workload'' then GWorkload
      else if raw = ''application'' then GApplication
      else if starts_with raw ''label:'' then GLabel (drop 6 raw)
      else GApplication)"

record PodPowerSummary =
  pps_pod_uid :: str
  pps_pod_name :: str
  pps_cpu_uw :: u64
  pps_memory_uw :: u64
  pps_gpu_uw :: u64
  pps_total_uw :: u64

record GroupPower =
  gp_group_key :: str
  gp_group_name :: str
  gp_group_kind :: str
  gp_namespace :: str
  gp_category :: str
  gp_cpu_uw :: u64
  gp_memory_uw :: u64
  gp_gpu_uw :: u64
  gp_storage_uw :: u64
  gp_io_uw :: u64
  gp_total_uw :: u64
  gp_pod_count :: nat
  gp_pods :: "PodPowerSummary list"

record ClusterAggregator =
  ca_pods :: "(str \<times> str, PodState) hmap"
  ca_nodes :: "(str \<times> str, NodeState) hmap"
  ca_staleness_threshold :: int
  ca_history :: "(str, (instant \<times> u64) list) hmap"
  ca_history_retention :: int

definition secs :: "int \<Rightarrow> int" where
  "secs n = n * 1000000000"

definition aggregator_new :: ClusterAggregator where
  "aggregator_new =
     \<lparr>ca_pods = [], ca_nodes = [], ca_staleness_threshold = secs 60, ca_history = [],
      ca_history_retention = secs 3600\<rparr>"

subsection \<open>Ingestion and eviction\<close>

definition evict_stale :: "instant \<Rightarrow> ClusterAggregator \<Rightarrow> ClusterAggregator" where
  "evict_stale now a =
     (let threshold = now - ca_staleness_threshold a
      in a\<lparr>ca_pods := hm_retain (\<lambda>_ state. threshold < pst_received_at state) (ca_pods a),
           ca_nodes := hm_retain (\<lambda>_ state. threshold < nst_received_at state) (ca_nodes a)\<rparr>)"

definition trim_history :: "instant \<Rightarrow> ClusterAggregator \<Rightarrow> ClusterAggregator" where
  "trim_history now_sys a =
     (let cutoff = now_sys - ca_history_retention a;
          trimmed = map (\<lambda>(ns, entries). (ns, filter (\<lambda>(ts, _). cutoff \<le> ts) entries)) (ca_history a)
      in a\<lparr>ca_history := hm_retain (\<lambda>_ entries. entries \<noteq> []) trimmed\<rparr>)"

definition fill_method :: "str \<Rightarrow> PodPowerReport \<Rightarrow> PodPowerReport" where
  "fill_method meth pod = (if ppr_metering_method pod = [] then pod\<lparr>ppr_metering_method := meth\<rparr> else pod)"

definition ingest_pod :: "instant \<Rightarrow> str \<Rightarrow> PodPowerReport \<Rightarrow> ClusterAggregator \<Rightarrow> ClusterAggregator" where
  "ingest_pod now meth pod a =
     (let namespace = ppr_namespace pod; total' = ppr_total_uw pod; ts = ppr_timestamp pod;
          pod' = fill_method meth pod
      in a\<lparr>ca_pods := AList.update (ppr_pod_uid pod', meth) \<lparr>pst_report = pod', pst_received_at = now\<rparr> (ca_pods a),
           ca_history := hm_push namespace (ts, total') (ca_history a)\<rparr>)"

definition report_method :: "AgentReport \<Rightarrow> str" where
  "report_method report =
     (if npr_metering_method (ar_node report) = [] then ''keck'' else npr_metering_method (ar_node report))"

definition ingest ::
  "instant \<Rightarrow> instant \<Rightarrow> instant \<Rightarrow> AgentReport \<Rightarrow> ClusterAggregator \<Rightarrow> ClusterAggregator" where
  "ingest now now_stale now_sys report a =
     (let node_name = npr_node_name (ar_node report);
          meth = report_method report;
          a1 = a\<lparr>ca_nodes := AList.update (node_name, meth)
                   \<lparr>nst_report = ar_node report, nst_received_at = now\<rparr> (ca_nodes a)\<rparr>;
          reported_uids = map ppr_pod_uid (ar_pods report);
          a2 = a1\<lparr>ca_pods := hm_retain (\<lambda>key state.
                   \<not> (snd key = meth \<and> ppr_node_name (pst_report state) = node_name \<and>
                      fst key \<notin> set reported_uids)) (ca_pods a1)\<rparr>;
          a3 = fold (ingest_pod now meth) (ar_pods report) a2
      in trim_history now_sys (evict_stale now_stale a3))"

definition evict_removed_nodes :: "str list \<Rightarrow> ClusterAggregator \<Rightarrow> ClusterAggregator" where
  "evict_removed_nodes live_node_names a =
     a\<lparr>ca_nodes := hm_retain (\<lambda>key _. fst key \<in> set live_node_names) (ca_nodes a),
       ca_pods := hm_retain (\<lambda>_ state. ppr_node_name (pst_report state) \<in> set live_node_names) (ca_pods a)\<rparr>"

subsection \<open>Views\<close>

definition matches_method :: "str \<Rightarrow> str option \<Rightarrow> bool" where
  "matches_method report_meth flt =
     (let m = (case flt of None \<Rightarrow> ''keck'' | Some f \<Rightarrow> f);
          rm = (if report_meth = [] then ''keck'' else report_meth)
      in rm = m)"

definition node_matches :: "str option \<Rightarrow> NodeState \<Rightarrow> bool" where
  "node_matches meth state = matches_method (npr_metering_method (nst_report state)) meth"

definition pod_matches :: "str option \<Rightarrow> PodState \<Rightarrow> bool" where
  "pod_matches meth state = matches_method (ppr_metering_method (pst_report state)) meth"

definition opt0 :: "u64 option \<Rightarrow> u64" where
  "opt0 x = (case x of None \<Rightarrow> 0 | Some v \<Rightarrow> v)"

definition add_node :: "NodeState \<Rightarrow> ClusterPower \<times> f64 \<Rightarrow> ClusterPower \<times> f64" where
  "add_node state acc =
     (let r = nst_report state; (c, error_sum) = acc
      in (c\<lparr>cl_cpu_uw := cl_cpu_uw c + npr_cpu_uw r, cl_memory_uw := cl_memory_uw c + npr_memory_uw r,
            cl_gpu_uw := cl_gpu_uw c + npr_gpu_uw r, cl_platform_uw := cl_platform_uw c + opt0 (npr_platform_uw r),
            cl_psu_output_uw := cl_psu_output_uw c + opt0 (npr_psu_output_uw r),
            cl_idle_uw := cl_idle_uw c + npr_idle_uw r, cl_node_count := cl_node_count c + 1\<rparr>,
          error_sum + npr_error_ratio r))"

definition cluster_power_zero :: ClusterPower where
  "cluster_power_zero =
     \<lparr>cl_cpu_uw = 0, cl_memory_uw = 0, cl_gpu_uw = 0, cl_platform_uw = 0, cl_psu_output_uw = 0,
      cl_psu_loss_uw = 0, cl_idle_uw = 0, cl_total_attributed_uw = 0, cl_node_count = 0, cl_pod_count = 0,
      cl_avg_error_ratio = Fin 0\<rparr>"

definition cluster_power :: "str option \<Rightarrow> ClusterAggregator \<Rightarrow> ClusterPower" where
  "cluster_power meth a =
     (let (c, error_sum) =
            fold add_node (filter (node_matches meth) (map snd (ca_nodes a))) (cluster_power_zero, f64_lit 0);
          n = cl_node_count c
      in c\<lparr>cl_pod_count := length (filter (pod_matches meth) (map snd (ca_pods a))),
           cl_total_attributed_uw := cl_cpu_uw c + cl_memory_uw c + cl_gpu_uw c,
           cl_psu_loss_uw := sat_sub (cl_platform_uw c) (cl_psu_output_uw c),
           cl_avg_error_ratio := (if 0 < n then error_sum / rnd (of_nat n) else f64_lit 0)\<rparr>)"

text \<open>\<open>sort_by(|a, b| b.total_uw.cmp(&a.total_uw))\<close>\<close>

definition sort_desc :: "('a \<Rightarrow> u64) \<Rightarrow> 'a list \<Rightarrow> 'a list" where
  "sort_desc f xs = sort_key (\<lambda>x. - int (unat (f x))) xs"

definition add_ns :: "PodPowerReport \<Rightarrow> NsPower \<Rightarrow> NsPower" where
  "add_ns r e =
     e\<lparr>ns_cpu_uw := ns_cpu_uw e + ppr_cpu_uw r, ns_memory_uw := ns_memory_uw e + ppr_memory_uw r,
       ns_gpu_uw := ns_gpu_uw e + ppr_gpu_uw r, ns_storage_uw := ns_storage_uw e + ppr_storage_uw r,
       ns_io_uw := ns_io_uw e + ppr_io_uw r, ns_total_uw := ns_total_uw e + ppr_total_uw r,
       ns_pod_count := ns_pod_count e + 1\<rparr>"

definition ns_zero :: "str \<Rightarrow> NsPower" where
  "ns_zero ns =
     \<lparr>ns_namespace = ns, ns_cpu_uw = 0, ns_memory_uw = 0, ns_gpu_uw = 0, ns_storage_uw = 0, ns_io_uw = 0,
      ns_total_uw = 0, ns_pod_count = 0\<rparr>"

definition all_pods_filtered :: "str option \<Rightarrow> ClusterAggregator \<Rightarrow> PodPowerReport list" where
  "all_pods_filtered meth a = map pst_report (filter (pod_matches meth) (map snd (ca_pods a)))"

definition namespace_power :: "str option \<Rightarrow> ClusterAggregator \<Rightarrow> NsPower list" where
  "namespace_power meth a =
     (let ns_map = fold (\<lambda>state. let r = pst_report state
                                in hm_upsert (ppr_namespace r) (ns_zero (ppr_namespace r)) (add_ns r))
                     (filter (pod_matches meth) (map snd (ca_pods a))) []
      in sort_desc ns_total_uw (map snd ns_map))"

definition pods_in_namespace :: "str \<Rightarrow> str option \<Rightarrow> ClusterAggregator \<Rightarrow> PodPowerReport list" where
  "pods_in_namespace namespace meth a =
     map pst_report (filter (\<lambda>s. ppr_namespace (pst_report s) = namespace \<and> pod_matches meth s) (map snd (ca_pods a)))"

text \<open>\<open>elapsed().as_secs()\<close> of an instant.\<close>

definition node_summaries :: "instant \<Rightarrow> str option \<Rightarrow> ClusterAggregator \<Rightarrow> NodeSummary list" where
  "node_summaries now meth a =
     map (\<lambda>state.
        let r = nst_report state;
            used = npr_cpu_uw r + npr_memory_uw r + npr_gpu_uw r;
            headroom = map_option (\<lambda>p. sat_sub p used) (npr_platform_uw r)
        in \<lparr>nsum_node_name = npr_node_name r, nsum_cpu_uw = npr_cpu_uw r, nsum_memory_uw = npr_memory_uw r,
            nsum_gpu_uw = npr_gpu_uw r, nsum_platform_uw = npr_platform_uw r,
            nsum_psu_output_uw = npr_psu_output_uw r, nsum_idle_uw = npr_idle_uw r,
            nsum_error_ratio = npr_error_ratio r, nsum_pod_count = npr_pod_count r, nsum_headroom_uw = headroom,
            nsum_cpu_source = npr_cpu_source r, nsum_cpu_reading_type = npr_cpu_reading_type r,
            nsum_metering_method = npr_metering_method r, nsum_last_seen = nst_received_at state,
            nsum_last_seen_secs_ago = max 0 (now - nst_received_at state) div 1000000000\<rparr>)
       (filter (node_matches meth) (map snd (ca_nodes a)))"

definition node_summary :: "instant \<Rightarrow> str \<Rightarrow> ClusterAggregator \<Rightarrow> NodeSummary option" where
  "node_summary now node_name a = find (\<lambda>n. nsum_node_name n = node_name) (node_summaries now None a)"

definition pod_power_of :: "str \<Rightarrow> ClusterAggregator \<Rightarrow> PodPowerReport option" where
  "pod_power_of pod_uid a = map_option (\<lambda>(_, s). pst_report s) (find (\<lambda>(key, _). fst key = pod_uid) (ca_pods a))"

definition namespace_history :: "str \<Rightarrow> instant \<Rightarrow> ClusterAggregator \<Rightarrow> (instant \<times> u64) list" where
  "namespace_history namespace since a =
     (case map_of (ca_history a) namespace of
        None \<Rightarrow> []
      | Some h \<Rightarrow> filter (\<lambda>(ts, _). since \<le> ts) h)"

definition cpu_source_info :: "ClusterAggregator \<Rightarrow> str \<times> str" where
  "cpu_source_info a =
     (let states = map snd (ca_nodes a);
          first = (case find (node_matches (Some ''keck'')) states of
                     Some s \<Rightarrow> Some s | None \<Rightarrow> (case states of [] \<Rightarrow> None | s # _ \<Rightarrow> Some s))
      in case first of
           None \<Rightarrow> (''unknown'', ''none'')
         | Some s \<Rightarrow> (npr_cpu_source (nst_report s), npr_cpu_reading_type (nst_report s)))"

definition memory_source_info :: "ClusterAggregator \<Rightarrow> str" where
  "memory_source_info a =
     (let states = map snd (ca_nodes a);
          first = (case find (node_matches (Some ''keck'')) states of
                     Some s \<Rightarrow> Some s | None \<Rightarrow> (case states of [] \<Rightarrow> None | s # _ \<Rightarrow> Some s))
      in case first of None \<Rightarrow> ''unknown'' | Some s \<Rightarrow> npr_memory_source (nst_report s))"

definition all_sources :: "ClusterAggregator \<Rightarrow> SourceStatus list" where
  "all_sources a =
     concat (map (\<lambda>s. npr_sources (nst_report s))
       (filter (node_matches (Some ''keck'')) (map snd (ca_nodes a))))"

definition available_methods :: "ClusterAggregator \<Rightarrow> str list" where
  "available_methods a = sort (remdups (map (\<lambda>(key, _). snd key) (ca_nodes a)))"

subsection \<open>Grouping\<close>

definition selector_matches :: "(str, str) hmap \<Rightarrow> (str, str) hmap \<Rightarrow> bool" where
  "selector_matches labels selector \<longleftrightarrow>
     selector \<noteq> [] \<and> list_all (\<lambda>(k, v). map_of labels k = Some v) selector"

definition matched_app :: "ClassificationData \<Rightarrow> PodPowerReport \<Rightarrow> str option" where
  "matched_app cls report =
     (case map_of (cd_co_namespaces cls) (ppr_namespace report) of
        Some co \<Rightarrow> Some co
      | None \<Rightarrow>
          map_option ad_name (find (\<lambda>app. ppr_namespace report \<in> set (ad_namespaces app) \<or>
              list_ex (selector_matches (ppr_labels report)) (ad_label_selectors app)) (cd_app_defs cls)))"

definition workload_key :: "PodPowerReport \<Rightarrow> str \<times> str \<times> str" where
  "workload_key report =
     (if ppr_workload_uid report = [] then (ppr_pod_uid report, ppr_pod_name report, ''Pod'')
      else (ppr_workload_uid report, ppr_workload_name report, ppr_workload_kind report))"

definition group_of :: "GroupBy \<Rightarrow> ClassificationData \<Rightarrow> PodPowerReport \<Rightarrow> (str \<times> str \<times> str) option" where
  "group_of group_by cls report =
     (case group_by of
        GWorkload \<Rightarrow> Some (workload_key report)
      | GLabel label_key \<Rightarrow> map_option (\<lambda>val. (val, val, label_key)) (map_of (ppr_labels report) label_key)
      | GNamespace \<Rightarrow> Some (ppr_namespace report, ppr_namespace report, ''Namespace'')
      | GApplication \<Rightarrow>
          (case snd (classify cls (ppr_namespace report)) of
             Some co \<Rightarrow> Some (''co:'' @ co, co, ''ClusterOperator'')
           | None \<Rightarrow>
               (case matched_app cls report of
                  Some app_name \<Rightarrow> Some (''app:'' @ app_name, app_name, ''KeckApplication'')
                | None \<Rightarrow>
                    (case map_of (ppr_labels report) ''app.kubernetes.io/part-of'' of
                       Some part_of \<Rightarrow> Some (''auto:'' @ part_of, part_of, ''auto-detected'')
                     | None \<Rightarrow> Some (workload_key report)))))"

definition pod_summary :: "PodPowerReport \<Rightarrow> PodPowerSummary" where
  "pod_summary r =
     \<lparr>pps_pod_uid = ppr_pod_uid r, pps_pod_name = ppr_pod_name r, pps_cpu_uw = ppr_cpu_uw r,
      pps_memory_uw = ppr_memory_uw r, pps_gpu_uw = ppr_gpu_uw r, pps_total_uw = ppr_total_uw r\<rparr>"

definition group_new :: "str \<times> str \<times> str \<Rightarrow> str \<Rightarrow> str \<Rightarrow> GroupPower" where
  "group_new g ns cat =
     (case g of (key, name, kind) \<Rightarrow>
      \<lparr>gp_group_key = key, gp_group_name = name, gp_group_kind = kind, gp_namespace = ns, gp_category = cat,
       gp_cpu_uw = 0, gp_memory_uw = 0, gp_gpu_uw = 0, gp_storage_uw = 0, gp_io_uw = 0, gp_total_uw = 0,
       gp_pod_count = 0, gp_pods = []\<rparr>)"

definition group_add :: "PodPowerReport \<Rightarrow> GroupPower \<Rightarrow> GroupPower" where
  "group_add r e =
     (let e' = e\<lparr>gp_cpu_uw := gp_cpu_uw e + ppr_cpu_uw r, gp_memory_uw := gp_memory_uw e + ppr_memory_uw r,
                 gp_gpu_uw := gp_gpu_uw e + ppr_gpu_uw r, gp_storage_uw := gp_storage_uw e + ppr_storage_uw r,
                 gp_io_uw := gp_io_uw e + ppr_io_uw r, gp_total_uw := gp_total_uw e + ppr_total_uw r,
                 gp_pod_count := gp_pod_count e + 1, gp_pods := gp_pods e @ [pod_summary r]\<rparr>
      in if gp_namespace e' \<noteq> ppr_namespace r then e'\<lparr>gp_namespace := []\<rparr> else e')"

definition group_step ::
  "GroupBy \<Rightarrow> str option \<Rightarrow> ClassificationData \<Rightarrow> PodPowerReport \<Rightarrow> (str, GroupPower) hmap \<Rightarrow> (str, GroupPower) hmap" where
  "group_step group_by category cls report groups =
     (let pod_category = fst (classify cls (ppr_namespace report))
      in if (case category of None \<Rightarrow> False | Some cat \<Rightarrow> pod_category \<noteq> cat) then groups
         else (case group_of group_by cls report of
                 None \<Rightarrow> groups
               | Some g \<Rightarrow>
                   hm_upsert (fst g) (group_new g (ppr_namespace report) pod_category) (group_add report) groups))"

definition all_pods :: "ClusterAggregator \<Rightarrow> PodPowerReport list" where
  "all_pods a = map (\<lambda>(_, s). pst_report s) (ca_pods a)"

definition group_power :: "GroupBy \<Rightarrow> str option \<Rightarrow> ClassificationData \<Rightarrow> ClusterAggregator \<Rightarrow> GroupPower list" where
  "group_power group_by category cls a =
     sort_desc gp_total_uw (map snd (fold (group_step group_by category cls) (all_pods a) []))"

end
