(* ===== verification/Agent_Sources.thy ===== *)
theory Agent_Sources
  imports Hardware_Net Attr_Conservation Aggregator
begin

text \<open>
  One round over the power sources in the collection loop (\<open>keck-agent/src/main.rs\<close>):
  conversion of counters to power, selection of one reading per component, and the node
  figures derived from the selection.  The reads of the round are a parameter.  The wire
  types of the agent are those of the controller, with the fields the agent does not send
  at the defaults the controller gives them.
\<close>

record ComponentReading =
  cr_power_uw :: u64
  cr_source :: str
  cr_reading_type :: ReadingType

record source_row =
  sr_name :: str
  sr_component :: str
  sr_type :: str
  sr_available :: bool
  sr_power :: u64

record collected =
  co_prev_readings :: "(str, u64) hmap"
  co_rows :: "source_row list"
  co_cpu :: "ComponentReading option"
  co_mem :: "ComponentReading option"
  co_gpu :: "ComponentReading option"
  co_platform :: "ComponentReading option"
  co_io :: "ComponentReading option"
  co_storage :: "ComponentReading option"
  co_fan :: "ComponentReading option"

fun type_str :: "ReadingType \<Rightarrow> str" where
  "type_str Measured = ''measured''"
| "type_str Estimated = ''estimated''"
| "type_str Derived = ''derived''"

fun reading_rank :: "ReadingType \<Rightarrow> nat" where
  "reading_rank Measured = 3"
| "reading_rank Estimated = 2"
| "reading_rank Derived = 1"

definition counter_delta :: "u64 \<Rightarrow> u64 \<Rightarrow> u64 \<Rightarrow> u64" where
  "counter_delta max_energy prev current =
     (if prev \<le> current then current - prev
      else if max_energy > 0 then (max_energy - prev) + current
      else current)"

definition reading_power :: "u64 \<Rightarrow> str \<Rightarrow> PowerReading \<Rightarrow> (str, u64) hmap \<Rightarrow> u64 \<times> (str, u64) hmap" where
  "reading_power interval_ns sid reading prev_readings =
     (case pr_energy_uj reading of
        Some current_energy \<Rightarrow>
          let prev = hm_get_or prev_readings sid current_energy;
              delta = counter_delta (pr_max_energy_uj reading) prev current_energy
          in (energy_to_power delta interval_ns, AList.update sid current_energy prev_readings)
      | None \<Rightarrow> (case pr_power_uw reading of Some pw \<Rightarrow> (pw, prev_readings) | None \<Rightarrow> (0, prev_readings)))"

definition is_better :: "ComponentReading option \<Rightarrow> ComponentReading \<Rightarrow> bool" where
  "is_better existing new =
     (case existing of
        None \<Rightarrow> True
      | Some old \<Rightarrow> reading_rank (cr_reading_type new) > reading_rank (cr_reading_type old))"

definition pick_better :: "ComponentReading option \<Rightarrow> ComponentReading \<Rightarrow> ComponentReading option" where
  "pick_better best cr = (if is_better best cr then Some cr else best)"

definition pick_platform :: "ComponentReading option \<Rightarrow> ComponentReading \<Rightarrow> ComponentReading option" where
  "pick_platform best cr =
     (case best of
        None \<Rightarrow> Some cr
      | Some existing \<Rightarrow> if cr_power_uw cr > cr_power_uw existing then Some cr else best)"

definition select_reading :: "Component \<Rightarrow> ComponentReading \<Rightarrow> collected \<Rightarrow> collected" where
  "select_reading component cr c =
     (case component of
        Cpu \<Rightarrow> c\<lparr>co_cpu := pick_better (co_cpu c) cr\<rparr>
      | Memory \<Rightarrow> c\<lparr>co_mem := pick_better (co_mem c) cr\<rparr>
      | Gpu \<Rightarrow> c\<lparr>co_gpu := pick_better (co_gpu c) cr\<rparr>
      | Platform \<Rightarrow> c\<lparr>co_platform := pick_platform (co_platform c) cr\<rparr>
      | Nic \<Rightarrow> c\<lparr>co_io := pick_better (co_io c) cr\<rparr>
      | Storage \<Rightarrow> c\<lparr>co_storage := pick_better (co_storage c) cr\<rparr>
      | Fan \<Rightarrow> c\<lparr>co_fan := pick_better (co_fan c) cr\<rparr>)"

definition collect_source ::
  "u64 \<Rightarrow> (power_source \<Rightarrow> SourceError + PowerReading) \<Rightarrow> power_source \<Rightarrow> collected \<Rightarrow> collected" where
  "collect_source interval_ns read source c =
     (let comp = component_display (source_component source)
      in case read source of
           Inl _ \<Rightarrow>
             c\<lparr>co_rows := co_rows c @ [\<lparr>sr_name = source_name source, sr_component = comp,
                 sr_type = type_str (source_reading_type source), sr_available = False, sr_power = 0\<rparr>]\<rparr>
         | Inr reading \<Rightarrow>
             let (power_uw, prev) = reading_power interval_ns (source_id source) reading (co_prev_readings c);
                 c' = c\<lparr>co_prev_readings := prev,
                        co_rows := co_rows c @ [\<lparr>sr_name = source_name source, sr_component = comp,
                          sr_type = type_str (pr_reading_type reading), sr_available = power_uw > 0, sr_power = power_uw\<rparr>]\<rparr>
             in if power_uw = 0 then c'
                else select_reading (source_component source)
                       \<lparr>cr_power_uw = power_uw, cr_source = source_name source, cr_reading_type = pr_reading_type reading\<rparr> c')"

definition collect_start :: "(str, u64) hmap \<Rightarrow> collected" where
  "collect_start prev_readings =
     \<lparr>co_prev_readings = prev_readings, co_rows = [], co_cpu = None, co_mem = None, co_gpu = None,
      co_platform = None, co_io = None, co_storage = None, co_fan = None\<rparr>"

definition collect_sources ::
  "u64 \<Rightarrow> (power_source \<Rightarrow> SourceError + PowerReading) \<Rightarrow> power_source list \<Rightarrow> (str, u64) hmap \<Rightarrow> collected" where
  "collect_sources interval_ns read sources prev_readings =
     fold (collect_source interval_ns read) sources (collect_start prev_readings)"

text \<open>The first read, which only fills the previous values.\<close>

definition initial_readings :: "(power_source \<Rightarrow> SourceError + PowerReading) \<Rightarrow> power_source list \<Rightarrow> (str, u64) hmap" where
  "initial_readings read sources =
     fold (\<lambda>source prev.
         case read source of
           Inl _ \<Rightarrow> prev
         | Inr reading \<Rightarrow>
             (case pr_energy_uj reading of None \<Rightarrow> prev | Some energy \<Rightarrow> AList.update (source_id source) energy prev))
       sources []"

subsection \<open>The node's figures\<close>

definition power_or_0 :: "ComponentReading option \<Rightarrow> u64" where
  "power_or_0 best = (case best of None \<Rightarrow> 0 | Some r \<Rightarrow> cr_power_uw r)"

definition source_or_none :: "ComponentReading option \<Rightarrow> str" where
  "source_or_none best = (case best of None \<Rightarrow> ''none'' | Some r \<Rightarrow> cr_source r)"

definition type_or_none :: "ComponentReading option \<Rightarrow> str" where
  "type_or_none best = (case best of None \<Rightarrow> ''none'' | Some r \<Rightarrow> type_str (cr_reading_type r))"

definition psu_output_uw :: "collected \<Rightarrow> u64 option" where
  "psu_output_uw c =
     (let total_out = sum_list (map sr_power (filter (\<lambda>r. sr_available r \<and> str_contains (sr_name r) ''Output'') (co_rows c)))
      in if total_out > 0 then Some total_out else None)"

definition total_attributed :: "collected \<Rightarrow> u64" where
  "total_attributed c =
     power_or_0 (co_cpu c) + power_or_0 (co_mem c) + power_or_0 (co_gpu c) + power_or_0 (co_io c)
       + power_or_0 (co_storage c) + power_or_0 (co_fan c)"

definition reference_power :: "collected \<Rightarrow> u64 option" where
  "reference_power c =
     (case psu_output_uw c of Some p \<Rightarrow> Some p | None \<Rightarrow> map_option cr_power_uw (co_platform c))"

definition idle_uw :: "collected \<Rightarrow> u64" where
  "idle_uw c = (case reference_power c of None \<Rightarrow> 0 | Some p \<Rightarrow> sat_sub p (total_attributed c))"

definition node_error_ratio :: "collected \<Rightarrow> f64" where
  "node_error_ratio c =
     (case reference_power c of
        None \<Rightarrow> f64_lit 0
      | Some p \<Rightarrow>
          if p > 0 then f64_of_u64 (i64_unsigned_abs (p - total_attributed c)) / f64_of_u64 p else f64_lit 0)"

definition row_selected :: "collected \<Rightarrow> source_row \<Rightarrow> bool" where
  "row_selected c r =
     (if sr_component r = ''cpu'' then source_or_none (co_cpu c) = sr_name r
      else if sr_component r = ''memory'' then source_or_none (co_mem c) = sr_name r
      else if sr_component r = ''gpu'' then power_or_0 (co_gpu c) > 0 \<and> sr_available r
      else if sr_component r = ''platform'' then co_platform c \<noteq> None \<and> sr_available r
      else False)"

definition sources_status :: "str \<Rightarrow> collected \<Rightarrow> SourceStatus list" where
  "sources_status node_name c =
     map (\<lambda>r. \<lparr>ss_name = sr_name r, ss_node_name = node_name, ss_component = sr_component r,
               ss_reading_type = sr_type r, ss_available = sr_available r, ss_selected = row_selected c r,
               ss_power_uw = sr_power r\<rparr>) (co_rows c)"

subsection \<open>Counters become exact power\<close>

lemma counter_delta_exact:
  assumes "E1 \<le> E2" and "E2 - E1 < unat M"
  shows "unat (counter_delta M (of_nat (E1 mod unat M)) (of_nat (E2 mod unat M))) = E2 - E1"
proof -
  let ?M = "unat M" and ?a = "E1 mod unat M" and ?b = "E2 mod unat M"
  have M: "0 < ?M" using assms(2) by simp
  have "?M < 2 ^ 64" using unsigned_less [where 'a = nat, of M] by simp
  have ab: "?a < ?M" "?b < ?M" using M by simp_all
  then have "?a < 2 ^ 64" "?b < 2 ^ 64" using \<open>?M < 2 ^ 64\<close> by (simp_all only: less_trans)
  then have u: "unat (of_nat ?a :: u64) = ?a" "unat (of_nat ?b :: u64) = ?b"
    by (simp_all add: unsigned_of_nat take_bit_nat_eq_self)
  obtain d where d: "E2 div ?M = E1 div ?M + d" using div_le_mono [OF assms(1), of ?M] le_Suc_ex by blast
  have "E1 = ?M * (E1 div ?M) + ?a" "E2 = ?M * (E1 div ?M + d) + ?b" unfolding d [symmetric] by simp_all
  then have diff: "E2 + ?a = E1 + ?M * d + ?b" by (simp only: add_mult_distrib2)
  show ?thesis
  proof (cases "?a \<le> ?b")
    case True
    have "d = 0" using diff assms True by (cases d) auto
    then show ?thesis using True diff u by (simp add: counter_delta_def unat_simps unat_sub)
  next
    case False
    have "d = 1"
    proof (cases d)
      case 0
      then show ?thesis using diff False assms(1) by simp
    next
      case (Suc n)
      then show ?thesis using diff assms(2) False ab by (cases n) auto
    qed
    then have "E2 - E1 = ?M - ?a + ?b" using diff ab assms(1) by simp
    moreover have "unat (M - of_nat ?a) = ?M - ?a" using ab u by (simp add: unat_sub unat_simps)
    moreover have "?M - ?a + ?b < 2 ^ 64" using False \<open>?M < 2 ^ 64\<close> ab by simp
    ultimately show ?thesis using False u M
      by (simp add: counter_delta_def unat_simps word_gt_0 unat_gt_0)
  qed
qed

text \<open>
  C24: An energy counter that wraps at its advertised range is turned into the exact
  average power, rounded down, as long as less than one range was consumed since the
  previous read, wherever the wrap falls and without overflow in between; the new value
  is remembered for the next round.
\<close>

theorem counter_power_exact:
  assumes "E1 \<le> E2" and "E2 - E1 < unat M" and "pr_max_energy_uj reading = M"
    and "pr_energy_uj reading = Some (of_nat (E2 mod unat M))"
    and "map_of prev sid = Some (of_nat (E1 mod unat M))"
    and "interval \<noteq> 0" and "(E2 - E1) * 1000000000 div unat interval < 2 ^ 64"
  shows "unat (fst (reading_power interval sid reading prev)) = (E2 - E1) * 1000000000 div unat interval \<and>
    map_of (snd (reading_power interval sid reading prev)) = (map_of prev)(sid \<mapsto> of_nat (E2 mod unat M))"
proof -
  have "unat (energy_to_power (counter_delta M (of_nat (E1 mod unat M)) (of_nat (E2 mod unat M))) interval)
      = (E2 - E1) * 1000000000 div unat interval"
    using energy_to_power_unat [OF assms(6)] counter_delta_exact [OF assms(1,2)] assms(7) by simp
  then show ?thesis using assms(3-5) by (auto simp: reading_power_def Let_def hm_get_or_def fun_eq_iff)
qed

theorem counter_power_exact_witness:
  "\<exists>reading. pr_energy_uj reading = Some 50 \<and>
     unat (fst (reading_power 1000000000 ''rapl:package:0'' reading [(''rapl:package:0'', 262100)])) = 93"
proof -
  let ?r = "\<lparr>pr_source_id = ''rapl:package:0'', pr_timestamp = 7, pr_component = Cpu, pr_granularity = GSocket 0,
    pr_reading_type = Estimated, pr_energy_uj = Some 50, pr_power_uw = None, pr_max_energy_uj = 262143\<rparr> :: PowerReading"
  have "unat (fst (reading_power 1000000000 ''rapl:package:0'' ?r [(''rapl:package:0'', 262100)]))
      = (262193 - 262100) * 1000000000 div unat (1000000000 :: u64)"
    by (rule counter_power_exact [of 262100 262193 262143, THEN conjunct1]) simp_all
  then have "unat (fst (reading_power 1000000000 ''rapl:package:0'' ?r [(''rapl:package:0'', 262100)])) = 93" by simp
  then show ?thesis by (intro exI [of _ ?r]) simp
qed

subsection \<open>Which reading is selected\<close>

text \<open>The first of the elements with the greatest key.\<close>

definition is_first_max :: "('a \<Rightarrow> nat) \<Rightarrow> 'a list \<Rightarrow> 'a option \<Rightarrow> bool" where
  "is_first_max key xs r \<longleftrightarrow>
     (case r of
        None \<Rightarrow> xs = []
      | Some x \<Rightarrow> \<exists>pre post. xs = pre @ x # post \<and> (\<forall>y \<in> set pre. key y < key x) \<and> (\<forall>y \<in> set post. key y \<le> key x))"

lemma is_first_max_snoc:
  assumes "is_first_max key xs r"
  shows "is_first_max key (xs @ [y]) (case r of None \<Rightarrow> Some y | Some x \<Rightarrow> if key x < key y then Some y else Some x)"
proof (cases r)
  case None
  then show ?thesis using assms by (auto simp: is_first_max_def intro!: exI [of _ "[]"])
next
  case (Some x)
  then obtain pre post where xs: "xs = pre @ x # post" "\<forall>z \<in> set pre. key z < key x" "\<forall>z \<in> set post. key z \<le> key x"
    using assms by (auto simp: is_first_max_def)
  show ?thesis
  proof (cases "key x < key y")
    case True
    then have "\<forall>z \<in> set xs. key z < key y" using xs by auto
    then show ?thesis using Some True by (simp add: is_first_max_def) (rule exI [of _ xs], simp)
  next
    case False
    then show ?thesis using Some xs
      by (simp add: is_first_max_def) (rule exI [of _ pre], rule exI [of _ "post @ [y]"], auto)
  qed
qed

definition selected_reading :: "Component \<Rightarrow> collected \<Rightarrow> ComponentReading option" where
  "selected_reading component c =
     (case component of Cpu \<Rightarrow> co_cpu c | Memory \<Rightarrow> co_mem c | Gpu \<Rightarrow> co_gpu c | Platform \<Rightarrow> co_platform c
      | Nic \<Rightarrow> co_io c | Storage \<Rightarrow> co_storage c | Fan \<Rightarrow> co_fan c)"

definition row_rank :: "source_row \<Rightarrow> nat" where
  "row_rank r = (if sr_type r = ''measured'' then 3 else if sr_type r = ''estimated'' then 2 else 1)"

definition row_key :: "Component \<Rightarrow> source_row \<Rightarrow> nat" where
  "row_key component r = (if component = Platform then unat (sr_power r) else row_rank r)"

definition reading_row :: "Component \<Rightarrow> ComponentReading \<Rightarrow> source_row" where
  "reading_row component cr = \<lparr>sr_name = cr_source cr, sr_component = component_display component,
     sr_type = type_str (cr_reading_type cr), sr_available = True, sr_power = cr_power_uw cr\<rparr>"

definition candidates :: "Component \<Rightarrow> collected \<Rightarrow> source_row list" where
  "candidates component c =
     filter (\<lambda>r. sr_component r = component_display component \<and> sr_available r) (co_rows c)"

lemma component_display_inj: "component_display a = component_display b \<longleftrightarrow> a = b"
  by (cases a; cases b) simp_all

lemma row_key_reading:
  "row_key component (reading_row component cr) =
     (if component = Platform then unat (cr_power_uw cr) else reading_rank (cr_reading_type cr))"
  by (cases "cr_reading_type cr") (simp_all add: row_key_def row_rank_def reading_row_def)

text \<open>One step on the field of the source's own component; the others stay.\<close>

lemma selected_select:
  "selected_reading component (select_reading component' cr c) =
     (if component' = component
      then (case selected_reading component c of
              None \<Rightarrow> Some cr
            | Some old \<Rightarrow> if row_key component (reading_row component old) < row_key component (reading_row component cr)
                          then Some cr else Some old)
      else selected_reading component c)"
  by (cases component; cases component')
    (simp_all add: selected_reading_def select_reading_def pick_better_def pick_platform_def is_better_def
      row_key_reading word_less_nat_alt split: option.split)

lemma co_rows_select [simp]: "co_rows (select_reading component cr c) = co_rows c"
  by (cases component) (simp_all add: select_reading_def)

lemma selected_update [simp]:
  "selected_reading component (c\<lparr>co_rows := rows\<rparr>) = selected_reading component c"
  "selected_reading component (c\<lparr>co_prev_readings := prev\<rparr>) = selected_reading component c"
  by (cases component; simp add: selected_reading_def)+

definition selection_inv :: "collected \<Rightarrow> bool" where
  "selection_inv c \<longleftrightarrow>
     (\<forall>component. is_first_max (row_key component) (candidates component c)
        (map_option (reading_row component) (selected_reading component c)))"

lemma collect_source_inv:
  assumes "selection_inv c"
  shows "selection_inv (collect_source interval read source c)"
proof (cases "read source")
  case (Inl e)
  then show ?thesis using assms by (simp add: collect_source_def selection_inv_def candidates_def)
next
  case (Inr reading)
  obtain p prev where rp: "reading_power interval (source_id source) reading (co_prev_readings c) = (p, prev)"
    by (cases "reading_power interval (source_id source) reading (co_prev_readings c)")
  define cr where "cr = \<lparr>cr_power_uw = p, cr_source = source_name source, cr_reading_type = pr_reading_type reading\<rparr>"
  define row where "row = \<lparr>sr_name = source_name source, sr_component = component_display (source_component source),
    sr_type = type_str (pr_reading_type reading), sr_available = p > 0, sr_power = p\<rparr>"
  define c' where "c' = c\<lparr>co_prev_readings := prev, co_rows := co_rows c @ [row]\<rparr>"
  have step: "collect_source interval read source c =
      (if p = 0 then c' else select_reading (source_component source) cr c')"
    by (simp add: collect_source_def Inr rp c'_def row_def cr_def)
  have sel: "selected_reading component c' = selected_reading component c" for component by (simp add: c'_def)
  have row: "row = reading_row (source_component source) cr" if "p \<noteq> 0"
    using that by (simp add: row_def reading_row_def cr_def word_neq_0_conv)
  have cand: "candidates component c' =
      candidates component c @ (if p \<noteq> 0 \<and> source_component source = component then [row] else [])" for component
    by (simp add: candidates_def c'_def row_def component_display_inj word_neq_0_conv)
  have cand_sel: "candidates component (select_reading (source_component source) cr c') = candidates component c'" for component
    by (simp add: candidates_def)
  show ?thesis
  proof (cases "p = 0")
    case True
    then show ?thesis using assms by (simp add: step selection_inv_def cand sel)
  next
    case False
    have "is_first_max (row_key component) (candidates component c')
        (map_option (reading_row component) (selected_reading component (select_reading (source_component source) cr c')))" for component
    proof (cases "source_component source = component")
      case True
      from assms have "is_first_max (row_key component) (candidates component c)
          (map_option (reading_row component) (selected_reading component c))" by (simp add: selection_inv_def)
      from is_first_max_snoc [OF this, of row] show ?thesis
        using False True row by (cases "selected_reading component c") (simp_all add: cand selected_select sel split: if_splits)
    next
      case diff: False
      then show ?thesis using assms by (simp add: selection_inv_def cand selected_select sel)
    qed
    then show ?thesis using False by (simp add: step selection_inv_def cand_sel)
  qed
qed

lemma collect_sources_inv: "selection_inv (collect_sources interval read sources prev)"
proof -
  have "selection_inv (fold (collect_source interval read) sources c)" if "selection_inv c" for c
    using that by (induction sources arbitrary: c) (simp_all add: collect_source_inv)
  moreover have "selection_inv (collect_start prev)"
    by (simp add: selection_inv_def collect_start_def candidates_def selected_reading_def is_first_max_def split: Component.split)
  ultimately show ?thesis by (simp add: collect_sources_def)
qed

lemma selected_le:
  assumes "selection_inv c" and "\<And>r. r \<in> set (co_rows c) \<Longrightarrow> unat (sr_power r) \<le> B"
  shows "unat (power_or_0 (selected_reading component c)) \<le> B"
proof (cases "selected_reading component c")
  case (Some cr)
  then have "is_first_max (row_key component) (candidates component c) (Some (reading_row component cr))"
    using assms(1) by (metis option.simps(9) selection_inv_def)
  then obtain pre post where "candidates component c = pre @ reading_row component cr # post" by (auto simp: is_first_max_def)
  then have "reading_row component cr \<in> set (candidates component c)" by simp
  then have "reading_row component cr \<in> set (co_rows c)" by (simp add: candidates_def)
  from assms(2) [OF this] Some show ?thesis by (simp add: power_or_0_def reading_row_def)
qed (simp add: power_or_0_def)

text \<open>
  C25: For every component the loop selects, among the sources that delivered a non-zero
  power, the first with the best kind of reading (measured before estimated before
  derived); for the platform it selects the first with the highest power.  It selects
  nothing only if no source of the component delivered power.
\<close>

theorem selection_exact:
  "let c = collect_sources interval read sources prev
   in is_first_max (row_key component) (candidates component c) (map_option (reading_row component) (selected_reading component c))"
  using collect_sources_inv by (simp add: selection_inv_def Let_def)

text \<open>
  Sources of one kind are not added up: of two sockets, or of two GPUs, only the first
  counts towards the node's power.
\<close>

definition sample_gpu :: "u8 \<Rightarrow> power_source" where
  "sample_gpu i = Dcgm \<lparr>ds_id = ''dcgm:gpu:'' @ show_nat (unat i), ds_display_name = ''DCGM A100 (GPU '' @ show_nat (unat i) @ '')'',
     ds_device_index = i, ds_dcgm_url = ''u'', ds_gpu_uuid = ''GPU-'' @ show_nat (unat i)\<rparr>"

definition sample_gpu_read :: "power_source \<Rightarrow> SourceError + PowerReading" where
  "sample_gpu_read src = Inr \<lparr>pr_source_id = source_id src, pr_timestamp = 7, pr_component = Gpu, pr_granularity = GNode,
     pr_reading_type = Measured, pr_energy_uj = None, pr_power_uw = Some 70, pr_max_energy_uj = 0\<rparr>"

lemma second_gpu_not_counted:
  "let c = collect_sources 1000000000 sample_gpu_read [sample_gpu 0, sample_gpu 1] []
   in power_or_0 (co_gpu c) = 70 \<and> map sr_power (co_rows c) = [70, 70] \<and> list_all (row_selected c) (co_rows c)"
  by code_simp

end
