(* ===== verification/Agent_Proc.thy ===== *)
theory Agent_Proc
  imports Hardware
begin

text \<open>
  What the agent reads from procfs (\<open>keck-agent/src/main.rs\<close>): process statistics, memory,
  disk I/O, the pod a process belongs to, and the caches of the previous values.
\<close>

definition proc_file :: "file_system \<Rightarrow> str \<Rightarrow> str \<Rightarrow> str option" where
  "proc_file fs pid_str file = fs_read fs (procfs_root fs @ ''/'' @ pid_str @ ''/'' @ file)"

record ProcStat =
  st_cpu_ticks :: u64
  st_minflt :: u64
  st_majflt :: u64

definition read_proc_stat :: "file_system \<Rightarrow> str \<Rightarrow> ProcStat option" where
  "read_proc_stat fs pid_str =
     (case proc_file fs pid_str ''stat'' of
        None \<Rightarrow> None
      | Some content \<Rightarrow>
          (case rsplit_once (CHR '')'') content of
             None \<Rightarrow> None
           | Some (_, after_comm) \<Rightarrow>
               let fields = split_whitespace after_comm
               in if length fields < 13 then None
                  else (case (parse_u64 (fields ! 7), parse_u64 (fields ! 9), parse_u64 (fields ! 11), parse_u64 (fields ! 12)) of
                          (Some minflt, Some majflt, Some utime, Some stime) \<Rightarrow>
                            Some \<lparr>st_cpu_ticks = utime + stime, st_minflt = minflt, st_majflt = majflt\<rparr>
                        | _ \<Rightarrow> None)))"

definition read_cpu_ticks :: "file_system \<Rightarrow> str \<Rightarrow> u64 option" where
  "read_cpu_ticks fs pid_str = map_option st_cpu_ticks (read_proc_stat fs pid_str)"

definition second_word :: "str \<Rightarrow> str option" where
  "second_word line = (case split_whitespace line of _ # w # _ \<Rightarrow> Some w | _ \<Rightarrow> None)"

definition read_pss_kb :: "file_system \<Rightarrow> str \<Rightarrow> u64 option" where
  "read_pss_kb fs pid_str =
     Option.bind (proc_file fs pid_str ''smaps_rollup'') (\<lambda>content.
     Option.bind (find (\<lambda>line. starts_with line ''Pss:'') (lines content)) (\<lambda>line.
     Option.bind (second_word line) parse_u64))"

definition read_rss_pages :: "file_system \<Rightarrow> str \<Rightarrow> u64 option" where
  "read_rss_pages fs pid_str =
     Option.bind (proc_file fs pid_str ''statm'') (\<lambda>content.
     Option.bind (second_word content) parse_u64)"

definition read_io_bytes :: "file_system \<Rightarrow> str \<Rightarrow> u64 option" where
  "read_io_bytes fs pid_str =
     map_option (\<lambda>content.
       fold (\<lambda>line sum. if starts_with line ''read_bytes:'' \<or> starts_with line ''write_bytes:''
                        then (case Option.bind (second_word line) parse_u64 of None \<Rightarrow> sum | Some v \<Rightarrow> sum + v)
                        else sum) (lines content) 0)
       (proc_file fs pid_str ''io'')"

definition uid_char :: "char \<Rightarrow> bool" where
  "uid_char c \<longleftrightarrow> is_digit c \<or> is_upper c \<or> is_lower c \<or> c = CHR ''_'' \<or> c = CHR ''-''"

definition pod_uid_of_line :: "str \<Rightarrow> str option" where
  "pod_uid_of_line line =
     (let path = last (split_char (CHR '':'') line)
      in case find_sub ''-pod'' path of
           None \<Rightarrow> None
         | Some pos \<Rightarrow>
             let uid = takeWhile uid_char (drop (pos + 4) path)
             in if 8 \<le> length uid then Some (map (\<lambda>c. if c = CHR ''_'' then CHR ''-'' else c) uid) else None)"

definition extract_pod_uid :: "str \<Rightarrow> str option" where
  "extract_pod_uid cgroup_content = find_map pod_uid_of_line (lines cgroup_content)"

definition pid_pod_uid :: "file_system \<Rightarrow> str \<Rightarrow> str option" where
  "pid_pod_uid fs pid_str = Option.bind (proc_file fs pid_str ''cgroup'') extract_pod_uid"

definition proc_entries :: "file_system \<Rightarrow> str list option" where
  "proc_entries fs = map_option (List.map_filter (\<lambda>e. e)) (fs_dir fs (procfs_root fs))"

definition count_processes :: "file_system \<Rightarrow> u32" where
  "count_processes fs =
     (case proc_entries fs of None \<Rightarrow> 0 | Some es \<Rightarrow> of_nat (length (filter (list_all is_digit) es)))"

text \<open>The caches of the collection loop, keyed by process.\<close>

record proc_caches =
  pc_cpu_ticks :: "(u32, u64) hmap"
  pc_page_faults :: "(u32, u64 \<times> u64) hmap"
  pc_pss :: "(u32, u64) hmap"
  pc_io_bytes :: "(u32, u64) hmap"

definition cleanup_stale_pids :: "file_system \<Rightarrow> proc_caches \<Rightarrow> proc_caches" where
  "cleanup_stale_pids fs c =
     (let active = set (List.map_filter parse_u32 (case proc_entries fs of None \<Rightarrow> [] | Some es \<Rightarrow> es))
      in \<lparr>pc_cpu_ticks = hm_retain (\<lambda>pid _. pid \<in> active) (pc_cpu_ticks c),
          pc_page_faults = hm_retain (\<lambda>pid _. pid \<in> active) (pc_page_faults c),
          pc_pss = hm_retain (\<lambda>pid _. pid \<in> active) (pc_pss c),
          pc_io_bytes = hm_retain (\<lambda>pid _. pid \<in> active) (pc_io_bytes c)\<rparr>)"

record ProcessMetrics =
  pm_pod_uid :: str
  pm_cpu_ticks :: u64
  pm_rss_pages :: u64
  pm_minflt_delta :: u64
  pm_majflt_delta :: u64
  pm_io_bytes_delta :: u64
  pm_net_bytes :: u64

text \<open>The running state of one scan over all processes.\<close>

record scan_state =
  sn_caches :: proc_caches
  sn_metrics :: "ProcessMetrics list"
  sn_cpu_ticks :: u64
  sn_pss :: u64
  sn_pgfaults :: u64
  sn_io_bytes :: u64

text \<open>A thread's status names another thread group; an unreadable status is let through.\<close>

definition is_thread :: "file_system \<Rightarrow> str \<Rightarrow> bool" where
  "is_thread fs pid_str =
     (case proc_file fs pid_str ''status'' of
        None \<Rightarrow> False
      | Some status \<Rightarrow>
          (case find (\<lambda>l. starts_with l ''Tgid:'') (lines status) of
             None \<Rightarrow> False
           | Some l \<Rightarrow> (case second_word l of None \<Rightarrow> [] | Some w \<Rightarrow> w) \<noteq> pid_str))"

definition read_pss :: "file_system \<Rightarrow> str \<Rightarrow> u64" where
  "read_pss fs pid_str =
     (case read_pss_kb fs pid_str of
        Some kb \<Rightarrow> kb
      | None \<Rightarrow> (case read_rss_pages fs pid_str of None \<Rightarrow> 0 | Some pages \<Rightarrow> pages) * 4)"

definition pss_of :: "file_system \<Rightarrow> bool \<Rightarrow> str \<Rightarrow> u32 \<Rightarrow> (u32, u64) hmap \<Rightarrow> u64 \<times> (u32, u64) hmap" where
  "pss_of fs refresh_pss pid_str pid cache =
     (if refresh_pss then let v = read_pss fs pid_str in (v, AList.update pid v cache)
      else (case map_of cache pid of
              Some v \<Rightarrow> (v, cache)
            | None \<Rightarrow> let v = read_pss fs pid_str in (v, AList.update pid v cache)))"

definition scan_process :: "file_system \<Rightarrow> bool \<Rightarrow> (u32, u64 \<times> u64) hmap \<Rightarrow> str \<Rightarrow> scan_state \<Rightarrow> scan_state" where
  "scan_process fs refresh_pss pid_net_bytes pid_str s =
     (if \<not> list_all is_digit pid_str then s
      else if is_thread fs pid_str then s
      else (case read_proc_stat fs pid_str of
              None \<Rightarrow> s
            | Some stat \<Rightarrow>
                let c = sn_caches s;
                    pid = (case parse_u32 pid_str of None \<Rightarrow> 0 | Some p \<Rightarrow> p);
                    cpu_delta = sat_sub (st_cpu_ticks stat) (hm_get_or (pc_cpu_ticks c) pid (st_cpu_ticks stat));
                    (prev_min, prev_maj) = hm_get_or (pc_page_faults c) pid (st_minflt stat, st_majflt stat);
                    minflt_delta = sat_sub (st_minflt stat) prev_min;
                    majflt_delta = sat_sub (st_majflt stat) prev_maj;
                    (pss, pss_cache) = pss_of fs refresh_pss pid_str pid (pc_pss c);
                    current_io = (case read_io_bytes fs pid_str of None \<Rightarrow> 0 | Some b \<Rightarrow> b);
                    io_delta = sat_sub current_io (hm_get_or (pc_io_bytes c) pid current_io);
                    s' = s\<lparr>sn_caches := \<lparr>pc_cpu_ticks = AList.update pid (st_cpu_ticks stat) (pc_cpu_ticks c),
                                         pc_page_faults = AList.update pid (st_minflt stat, st_majflt stat) (pc_page_faults c),
                                         pc_pss = pss_cache, pc_io_bytes = AList.update pid current_io (pc_io_bytes c)\<rparr>,
                           sn_cpu_ticks := sn_cpu_ticks s + cpu_delta, sn_pss := sn_pss s + pss,
                           sn_pgfaults := sn_pgfaults s + (minflt_delta + majflt_delta * 10),
                           sn_io_bytes := sn_io_bytes s + io_delta\<rparr>
                in (case pid_pod_uid fs pid_str of
                      None \<Rightarrow> s'
                    | Some pod_uid \<Rightarrow>
                        let net = (case map_of pid_net_bytes pid of None \<Rightarrow> 0 | Some (tx, rx) \<Rightarrow> tx + rx)
                        in s'\<lparr>sn_metrics := sn_metrics s' @
                             [\<lparr>pm_pod_uid = pod_uid, pm_cpu_ticks = cpu_delta, pm_rss_pages = pss,
                               pm_minflt_delta = minflt_delta, pm_majflt_delta = majflt_delta,
                               pm_io_bytes_delta = io_delta, pm_net_bytes = net\<rparr>]\<rparr>)))"

definition scan_start :: "proc_caches \<Rightarrow> scan_state" where
  "scan_start c = \<lparr>sn_caches = c, sn_metrics = [], sn_cpu_ticks = 0, sn_pss = 0, sn_pgfaults = 0, sn_io_bytes = 0\<rparr>"

definition scan_processes ::
  "file_system \<Rightarrow> bool \<Rightarrow> (u32, u64 \<times> u64) hmap \<Rightarrow> str list \<Rightarrow> proc_caches \<Rightarrow> scan_state" where
  "scan_processes fs refresh_pss pid_net_bytes entries c =
     fold (scan_process fs refresh_pss pid_net_bytes) entries (scan_start c)"

end
