(* ===== verification/Agent_Identity.thy ===== *)
theory Agent_Identity
  imports K8s_Enrich
begin

text \<open>
  Pod metadata of the agent (\<open>keck-agent/src/main.rs\<close>, \<open>k8s/workload.rs\<close>): the cache of
  pod identities and the resolution of a pod's workload through its owners.  Responses of
  the Kubernetes API are parameters, \<open>None\<close> for a failed request.
\<close>

record PodIdentity =
  pi_name :: str
  pi_namespace :: str
  pi_workload_uid :: str
  pi_workload_name :: str
  pi_workload_kind :: str
  pi_workload_category :: WorkloadCategory
  pi_labels :: "(str, str) hmap"

record OwnerMapping =
  om_uid :: str
  om_name :: str
  om_kind :: str

record k8s_pod =
  kp_uid :: "str option"
  kp_name :: "str option"
  kp_namespace :: "str option"
  kp_labels :: "(str \<times> str) list option"
  kp_owner_references :: "OwnerReference list option"

definition or_default :: "'a list option \<Rightarrow> 'a list" where
  "or_default x = (case x of None \<Rightarrow> [] | Some v \<Rightarrow> v)"

definition DEFAULT_CAPTURED_LABELS :: "str list" where
  "DEFAULT_CAPTURED_LABELS =
     [''app.kubernetes.io/name'', ''app.kubernetes.io/part-of'', ''app.kubernetes.io/component'',
      ''argocd.argoproj.io/instance'', ''olm.owner'']"

definition DEFAULT_CAPTURED_PREFIXES :: "str list" where
  "DEFAULT_CAPTURED_PREFIXES = [''operators.coreos.com/'']"

definition label_config :: "str option \<Rightarrow> str list \<times> str list" where
  "label_config var =
     (let raw = or_default var
      in if raw = [] then (DEFAULT_CAPTURED_LABELS, DEFAULT_CAPTURED_PREFIXES) else parse_label_config raw)"

definition discover_operator_namespaces :: "str option list option \<Rightarrow> str set" where
  "discover_operator_namespaces subscriptions =
     (case subscriptions of None \<Rightarrow> {} | Some items \<Rightarrow> set (List.map_filter (\<lambda>ns. ns) items))"

text \<open>The owners of an object, by kind, namespace and name.\<close>

type_synonym owners_of = "str \<Rightarrow> str \<Rightarrow> str \<Rightarrow> OwnerReference list option option"

definition resolve_intermediate_owner :: "owners_of \<Rightarrow> str \<Rightarrow> str \<Rightarrow> str \<Rightarrow> OwnerMapping option" where
  "resolve_intermediate_owner owners namespace owner_name owner_kind =
     (if owner_kind = ''ReplicaSet'' \<or> owner_kind = ''Job''
      then Option.bind (owners owner_kind namespace owner_name) (\<lambda>refs.
             map_option (\<lambda>r. \<lparr>om_uid = or_uid r, om_name = or_name r, om_kind = or_kind r\<rparr>)
               (select_controller_owner (or_default refs)))
      else None)"

definition resolve_owner ::
  "owners_of \<Rightarrow> str \<Rightarrow> str \<Rightarrow> str \<Rightarrow> OwnerReference list \<Rightarrow> (str, OwnerMapping) hmap \<Rightarrow>
     (str \<times> str \<times> str) \<times> (str, OwnerMapping) hmap" where
  "resolve_owner owners pod_uid name namespace owner_refs owner_cache =
     (case select_controller_owner owner_refs of
        None \<Rightarrow> ((pod_uid, name, ''Pod''), owner_cache)
      | Some ref \<Rightarrow>
          if or_kind ref = ''ReplicaSet'' \<or> or_kind ref = ''Job''
          then (case map_of owner_cache (or_uid ref) of
                  Some cached \<Rightarrow> ((om_uid cached, om_name cached, om_kind cached), owner_cache)
                | None \<Rightarrow>
                    let mapping = (case resolve_intermediate_owner owners namespace (or_name ref) (or_kind ref) of
                          Some m \<Rightarrow> m
                        | None \<Rightarrow> \<lparr>om_uid = or_uid ref, om_name = or_name ref, om_kind = or_kind ref\<rparr>)
                    in ((om_uid mapping, om_name mapping, om_kind mapping),
                        AList.update (or_uid ref) mapping owner_cache))
          else ((or_uid ref, or_name ref, or_kind ref), owner_cache))"

definition cache_pod ::
  "owners_of \<Rightarrow> str list \<Rightarrow> str list \<Rightarrow> str set \<Rightarrow> k8s_pod \<Rightarrow>
     (str, PodIdentity) hmap \<times> (str, OwnerMapping) hmap \<Rightarrow> (str, PodIdentity) hmap \<times> (str, OwnerMapping) hmap" where
  "cache_pod owners exact_labels prefix_labels operator_namespaces pod acc =
     (case kp_uid pod of
        None \<Rightarrow> acc
      | Some uid \<Rightarrow>
          let (cache, owner_cache) = acc;
              name = or_default (kp_name pod);
              namespace = or_default (kp_namespace pod);
              pod_labels = or_default (kp_labels pod);
              captured = capture_labels pod_labels exact_labels prefix_labels;
              category = classify_category namespace pod_labels operator_namespaces;
              ((wl_uid, wl_name, wl_kind), owner_cache') =
                resolve_owner owners uid name namespace (or_default (kp_owner_references pod)) owner_cache
          in (AList.update uid \<lparr>pi_name = name, pi_namespace = namespace, pi_workload_uid = wl_uid,
                pi_workload_name = wl_name, pi_workload_kind = wl_kind, pi_workload_category = category,
                pi_labels = captured\<rparr> cache, owner_cache'))"

definition refresh_pod_cache ::
  "owners_of \<Rightarrow> str list \<Rightarrow> str list \<Rightarrow> str set \<Rightarrow> k8s_pod list option \<Rightarrow>
     (str, PodIdentity) hmap \<times> (str, OwnerMapping) hmap \<Rightarrow> (str, PodIdentity) hmap \<times> (str, OwnerMapping) hmap" where
  "refresh_pod_cache owners exact_labels prefix_labels operator_namespaces listed acc =
     (case listed of
        None \<Rightarrow> acc
      | Some pod_list \<Rightarrow>
          fold (cache_pod owners exact_labels prefix_labels operator_namespaces) pod_list ([], snd acc))"

end
