(* ===== verification/Perf_Counters.thy ===== *)
theory Perf_Counters
  imports Rust_Parse
begin

text \<open>
  The reader of per-core hardware counters (\<open>keck-agent/src/perf_counters.rs\<close>).  Opening a
  counter and reading it are system calls and parameters: \<open>open_event\<close> gives the error, if
  any, and \<open>read_counter\<close> the value of a counter of a core, \<open>None\<close> when the read fails.
\<close>

datatype perf_event = INSTRUCTIONS | CPU_CYCLES | CACHE_MISSES

record CoreCounterDeltas =
  cd_core_id :: u32
  cd_instructions :: u64
  cd_cycles :: u64
  cd_cache_misses :: u64

record CoreSnapshot =
  cs_instructions :: u64
  cs_cycles :: u64
  cs_cache_misses :: u64

record HwCounterReader =
  hc_cores :: "u32 list"
  hc_prev :: "CoreSnapshot list"

text \<open>\<open>usize\<close> has 64 bits; a range that runs backwards wraps around.\<close>

fun count_ranges :: "str list \<Rightarrow> u64 \<Rightarrow> str + u64" where
  "count_ranges [] n = Inr n"
| "count_ranges (rng # rest) n =
     (case split_char (CHR ''-'') rng of
        [_] \<Rightarrow> count_ranges rest (n + 1)
      | [a, b] \<Rightarrow>
          (case (parse_u64 a, parse_u64 b) of
             (Some start, Some stop) \<Rightarrow> count_ranges rest (n + (stop - start + 1))
           | _ \<Rightarrow> Inl ''bad cpu range'')
      | _ \<Rightarrow> Inl ''bad format'')"

definition num_online_cpus :: "str + str \<Rightarrow> str + u64" where
  "num_online_cpus online =
     (case online of Inl e \<Rightarrow> Inl e | Inr cpus \<Rightarrow> count_ranges (split_char (CHR '','') (trim cpus)) 0)"

definition open_core :: "(perf_event \<Rightarrow> nat \<Rightarrow> str option) \<Rightarrow> nat \<Rightarrow> str option" where
  "open_core open_event cpu =
     (let describe = (\<lambda>name e. name @ '' on CPU '' @ show_nat cpu @ '': '' @ e)
      in case open_event INSTRUCTIONS cpu of
           Some e \<Rightarrow> Some (describe ''instructions'' e)
         | None \<Rightarrow>
             (case open_event CPU_CYCLES cpu of
                Some e \<Rightarrow> Some (describe ''cycles'' e)
              | None \<Rightarrow> map_option (describe ''cache_misses'') (open_event CACHE_MISSES cpu)))"

definition hw_new :: "(perf_event \<Rightarrow> nat \<Rightarrow> str option) \<Rightarrow> str + str \<Rightarrow> str + HwCounterReader" where
  "hw_new open_event online =
     (case num_online_cpus online of
        Inl e \<Rightarrow> Inl (''CPU count: '' @ e)
      | Inr num_cores \<Rightarrow>
          (case find_map (open_core open_event) [0..<unat num_cores] of
             Some e \<Rightarrow> Inl e
           | None \<Rightarrow> Inr \<lparr>hc_cores = map of_nat [0..<unat num_cores],
                         hc_prev = replicate (unat num_cores) \<lparr>cs_instructions = 0, cs_cycles = 0, cs_cache_misses = 0\<rparr>\<rparr>))"

definition read_core :: "(perf_event \<Rightarrow> u32 \<Rightarrow> u64 option) \<Rightarrow> u32 \<Rightarrow> CoreSnapshot" where
  "read_core read_counter core =
     (let val_of = (\<lambda>ev. case read_counter ev core of None \<Rightarrow> 0 | Some v \<Rightarrow> v)
      in \<lparr>cs_instructions = val_of INSTRUCTIONS, cs_cycles = val_of CPU_CYCLES, cs_cache_misses = val_of CACHE_MISSES\<rparr>)"

definition read_deltas ::
  "(perf_event \<Rightarrow> u32 \<Rightarrow> u64 option) \<Rightarrow> HwCounterReader \<Rightarrow> CoreCounterDeltas list \<times> HwCounterReader" where
  "read_deltas read_counter r =
     fold (\<lambda>(i, core) (deltas, r).
         let now = read_core read_counter core; prev = hc_prev r ! i
         in (deltas @ [\<lparr>cd_core_id = core,
                        cd_instructions = sat_sub (cs_instructions now) (cs_instructions prev),
                        cd_cycles = sat_sub (cs_cycles now) (cs_cycles prev),
                        cd_cache_misses = sat_sub (cs_cache_misses now) (cs_cache_misses prev)\<rparr>],
             r\<lparr>hc_prev := (hc_prev r)[i := now]\<rparr>))
       (enumerate 0 (hc_cores r)) ([], r)"

definition total_deltas :: "(perf_event \<Rightarrow> u32 \<Rightarrow> u64 option) \<Rightarrow> HwCounterReader \<Rightarrow> u64 \<times> HwCounterReader" where
  "total_deltas read_counter r =
     (let (deltas, r') = read_deltas read_counter r in (sum_list (map cd_cache_misses deltas), r'))"

text \<open>
  A failed read counts as zero, so the read after it reports the whole counter as one
  interval's work.
\<close>

lemma failed_read_spikes:
  "let r = \<lparr>hc_cores = [0], hc_prev = [\<lparr>cs_instructions = 900, cs_cycles = 900, cs_cache_misses = 900\<rparr>]\<rparr>;
       r1 = snd (read_deltas (\<lambda>_ _. None) r)
   in map cd_cycles (fst (read_deltas (\<lambda>_ _. Some 910) r)) = [10] \<and>
      map cd_cycles (fst (read_deltas (\<lambda>_ _. Some 910) r1)) = [910]"
  by code_simp

text \<open>
  The cores opened are the first as many as are online, not the online ones: with core 1
  offline, core 1 is opened and core 2 is not.
\<close>

lemma offline_core_opened:
  "map_sum (\<lambda>e. e) hc_cores (hw_new (\<lambda>_ _. None) (Inr ''0,2'')) = Inr [0, 1]"
  by code_simp

end
