(* ===== verification/Ebpf_Kernel.thy ===== *)
theory Ebpf_Kernel
  imports Common_Types
begin

text \<open>
  The kernel side (\<open>keck-ebpf/src/main.rs\<close>): the BPF maps are one record, each
  tracepoint or probe handler is a function on it.  What a handler reads from the
  kernel (the clock, the CPU it runs on, the fields of the tracepoint, the
  current cgroup, the performance counters) is its context argument.

  A BPF hash map has a fixed capacity: an insert of a new key into a full map
  fails, and the handlers ignore that failure.
\<close>

record bpf_maps =
  PID_CPU_TIME :: "(PidCpuKey, u64) hmap"
  CPU_SCHED_STATE :: "u32 \<Rightarrow> CpuSchedState"
  CPU_FREQ_TIME :: "(CpuFreqKey, u64) hmap"
  CPU_FREQ_STATE :: "u32 \<Rightarrow> CpuFreqState"
  PID_CGROUP :: "(u32, u64) hmap"
  PID_NET_BYTES :: "(u32, PidNetBytes) hmap"
  PID_HW_COUNTERS :: "(PidCpuCounterKey, PidCpuCounters) hmap"
  PMC_ENABLED :: u32

definition bpf_maps_new :: bpf_maps where
  "bpf_maps_new =
     \<lparr>PID_CPU_TIME = [],
      CPU_SCHED_STATE = (\<lambda>_. \<lparr>css_current_pid = 0, css_start_time_ns = 0, css_start_instructions = 0,
                            css_start_cycles = 0, css_start_cache_misses = 0\<rparr>),
      CPU_FREQ_TIME = [],
      CPU_FREQ_STATE = (\<lambda>_. \<lparr>cfs_current_freq_khz = 0, cfs_start_time_ns = 0\<rparr>),
      PID_CGROUP = [], PID_NET_BYTES = [], PID_HW_COUNTERS = [], PMC_ENABLED = 0\<rparr>"

definition bpf_insert :: "nat \<Rightarrow> 'k \<Rightarrow> 'v \<Rightarrow> ('k, 'v) hmap \<Rightarrow> ('k, 'v) hmap" where
  "bpf_insert cap k v m =
     (if map_of m k \<noteq> None \<or> length m < cap then AList.update k v m else m)"

text \<open>
  \<open>if let Some(val) = get_ptr_mut(&key) { *val = upd(*val) } else { insert(&key, init) }\<close>
\<close>

definition bpf_add :: "nat \<Rightarrow> 'k \<Rightarrow> 'v \<Rightarrow> ('v \<Rightarrow> 'v) \<Rightarrow> ('k, 'v) hmap \<Rightarrow> ('k, 'v) hmap" where
  "bpf_add cap k init upd m =
     (case map_of m k of Some v \<Rightarrow> AList.update k (upd v) m | None \<Rightarrow> bpf_insert cap k init m)"

subsection \<open>sched_switch\<close>

text \<open>
  \<open>PerfReads\<close> is what \<open>bpf_perf_event_read\<close> returns for the three counters of the
  current CPU; a negative result is an error.  The handler reads them once for
  the outgoing and once for the incoming task.
\<close>

record PerfReads =
  pr_instructions :: int
  pr_cycles :: int
  pr_cache_misses :: int

record SchedSwitchCtx =
  sc_now :: u64
  sc_cpu :: u32
  sc_prev_pid :: "int + u32"
  sc_next_pid :: "int + u32"
  sc_cgroup_id :: u64
  sc_perf_out :: PerfReads
  sc_perf_in :: PerfReads

definition read_perf_counter :: "int \<Rightarrow> u64" where
  "read_perf_counter result = (if result < 0 then 0 else word_of_int result)"

definition account_pmc ::
  "u32 \<Rightarrow> u32 \<Rightarrow> PerfReads \<Rightarrow> CpuSchedState \<Rightarrow> bpf_maps \<Rightarrow> bpf_maps" where
  "account_pmc cpu prev_pid perf state b =
     (let cur_instr = read_perf_counter (pr_instructions perf);
          cur_cycles = read_perf_counter (pr_cycles perf);
          cur_misses = read_perf_counter (pr_cache_misses perf);
          delta_instr = sat_sub cur_instr (css_start_instructions state);
          delta_cycles = sat_sub cur_cycles (css_start_cycles state);
          delta_misses = sat_sub cur_misses (css_start_cache_misses state)
      in if 0 < delta_instr \<or> 0 < delta_cycles
         then b\<lparr>PID_HW_COUNTERS :=
                 bpf_add MAX_PID_HW_COUNTER_ENTRIES \<lparr>pcck_cpu = cpu, pcck_pid = prev_pid\<rparr>
                   \<lparr>pcc_instructions = delta_instr, pcc_cycles = delta_cycles,
                    pcc_cache_misses = delta_misses\<rparr>
                   (\<lambda>v. \<lparr>pcc_instructions = pcc_instructions v + delta_instr,
                         pcc_cycles = pcc_cycles v + delta_cycles,
                         pcc_cache_misses = pcc_cache_misses v + delta_misses\<rparr>)
                   (PID_HW_COUNTERS b)\<rparr>
         else b)"

definition account_outgoing :: "SchedSwitchCtx \<Rightarrow> u32 \<Rightarrow> bpf_maps \<Rightarrow> bpf_maps" where
  "account_outgoing ctx prev_pid b =
     (let cpu = sc_cpu ctx; state = CPU_SCHED_STATE b cpu
      in if css_current_pid state \<noteq> 0 \<and> css_start_time_ns state \<noteq> 0
         then let elapsed = sat_sub (sc_now ctx) (css_start_time_ns state)
              in if 0 < elapsed
                 then let b' = b\<lparr>PID_CPU_TIME :=
                                  bpf_add MAX_PID_CPU_ENTRIES \<lparr>pck_cpu = cpu, pck_pid = prev_pid\<rparr>
                                    elapsed (\<lambda>t. t + elapsed) (PID_CPU_TIME b)\<rparr>
                      in if PMC_ENABLED b \<noteq> 0
                         then account_pmc cpu prev_pid (sc_perf_out ctx) state b'
                         else b'
                 else b
         else b)"

definition record_incoming :: "SchedSwitchCtx \<Rightarrow> u32 \<Rightarrow> bpf_maps \<Rightarrow> bpf_maps" where
  "record_incoming ctx next_pid b =
     (let cpu = sc_cpu ctx; perf = sc_perf_in ctx; state = CPU_SCHED_STATE b cpu;
          state1 = state\<lparr>css_current_pid := next_pid, css_start_time_ns := sc_now ctx\<rparr>;
          state2 = (if PMC_ENABLED b \<noteq> 0
                    then state1\<lparr>css_start_instructions := read_perf_counter (pr_instructions perf),
                                css_start_cycles := read_perf_counter (pr_cycles perf),
                                css_start_cache_misses := read_perf_counter (pr_cache_misses perf)\<rparr>
                    else state1);
          b1 = b\<lparr>CPU_SCHED_STATE := (CPU_SCHED_STATE b)(cpu := state2)\<rparr>
      in if next_pid \<noteq> 0
         then b1\<lparr>PID_CGROUP :=
                  bpf_insert MAX_PID_CGROUP_ENTRIES next_pid (sc_cgroup_id ctx) (PID_CGROUP b1)\<rparr>
         else b1)"

definition handle_sched_switch :: "SchedSwitchCtx \<Rightarrow> bpf_maps \<Rightarrow> (int + unit) \<times> bpf_maps" where
  "handle_sched_switch ctx b =
     (case sc_prev_pid ctx of
        Inl e \<Rightarrow> (Inl e, b)
      | Inr prev_pid \<Rightarrow>
          (case sc_next_pid ctx of
             Inl e \<Rightarrow> (Inl e, b)
           | Inr next_pid \<Rightarrow> (Inr (), record_incoming ctx next_pid (account_outgoing ctx prev_pid b))))"

definition sched_switch :: "SchedSwitchCtx \<Rightarrow> bpf_maps \<Rightarrow> u32 \<times> bpf_maps" where
  "sched_switch ctx b =
     (case handle_sched_switch ctx b of (Inr _, b') \<Rightarrow> (0, b') | (Inl _, b') \<Rightarrow> (1, b'))"

subsection \<open>cpu_frequency\<close>

text \<open>
  The state slot belongs to the CPU that runs the handler (\<open>fc_running_cpu\<close>); the
  time is recorded under the CPU named in the tracepoint (\<open>fc_cpu_id\<close>).
\<close>

record CpuFrequencyCtx =
  fc_now :: u64
  fc_running_cpu :: u32
  fc_new_freq_khz :: "int + u32"
  fc_cpu_id :: "int + u32"

definition handle_cpu_frequency :: "CpuFrequencyCtx \<Rightarrow> bpf_maps \<Rightarrow> (int + unit) \<times> bpf_maps" where
  "handle_cpu_frequency ctx b =
     (case fc_new_freq_khz ctx of
        Inl e \<Rightarrow> (Inl e, b)
      | Inr new_freq_khz \<Rightarrow>
          (case fc_cpu_id ctx of
             Inl e \<Rightarrow> (Inl e, b)
           | Inr cpu_id \<Rightarrow>
               let cpu = fc_running_cpu ctx; state = CPU_FREQ_STATE b cpu;
                   b1 = (if cfs_current_freq_khz state \<noteq> 0 \<and> cfs_start_time_ns state \<noteq> 0
                         then let elapsed = sat_sub (fc_now ctx) (cfs_start_time_ns state)
                              in if 0 < elapsed
                                 then b\<lparr>CPU_FREQ_TIME :=
                                         bpf_add MAX_CPU_FREQ_ENTRIES
                                           \<lparr>cfk_cpu = cpu_id, cfk_freq_khz = cfs_current_freq_khz state\<rparr>
                                           elapsed (\<lambda>t. t + elapsed) (CPU_FREQ_TIME b)\<rparr>
                                 else b
                         else b)
               in (Inr (), b1\<lparr>CPU_FREQ_STATE := (CPU_FREQ_STATE b1)(cpu :=
                      \<lparr>cfs_current_freq_khz = new_freq_khz, cfs_start_time_ns = fc_now ctx\<rparr>)\<rparr>)))"

definition cpu_frequency :: "CpuFrequencyCtx \<Rightarrow> bpf_maps \<Rightarrow> u32 \<times> bpf_maps" where
  "cpu_frequency ctx b =
     (case handle_cpu_frequency ctx b of (Inr _, b') \<Rightarrow> (0, b') | (Inl _, b') \<Rightarrow> (1, b'))"

subsection \<open>TCP probes\<close>

definition tgid_of :: "u64 \<Rightarrow> u32" where
  "tgid_of pid_tgid = ucast (drop_bit 32 pid_tgid)"

definition tcp_sendmsg :: "u64 \<Rightarrow> u64 option \<Rightarrow> bpf_maps \<Rightarrow> bpf_maps" where
  "tcp_sendmsg pid_tgid arg b =
     (let pid = tgid_of pid_tgid
      in if pid = 0 then b
         else (case arg of
                 None \<Rightarrow> b
               | Some sz \<Rightarrow>
                   b\<lparr>PID_NET_BYTES :=
                      bpf_add MAX_PID_NET_ENTRIES pid \<lparr>pnb_tx_bytes = sz, pnb_rx_bytes = 0\<rparr>
                        (\<lambda>v. v\<lparr>pnb_tx_bytes := pnb_tx_bytes v + sz\<rparr>) (PID_NET_BYTES b)\<rparr>))"

definition tcp_recvmsg :: "u64 \<Rightarrow> 64 word option \<Rightarrow> bpf_maps \<Rightarrow> bpf_maps" where
  "tcp_recvmsg pid_tgid ret b =
     (let pid = tgid_of pid_tgid
      in if pid = 0 then b
         else (case ret of
                 None \<Rightarrow> b
               | Some r \<Rightarrow>
                   if sint r \<le> 0 then b
                   else b\<lparr>PID_NET_BYTES :=
                           bpf_add MAX_PID_NET_ENTRIES pid \<lparr>pnb_tx_bytes = 0, pnb_rx_bytes = r\<rparr>
                             (\<lambda>v. v\<lparr>pnb_rx_bytes := pnb_rx_bytes v + r\<rparr>) (PID_NET_BYTES b)\<rparr>))"

subsection \<open>Kernel events\<close>

text \<open>
  Each event is one handler run to completion.  Events of different CPUs may be
  interleaved in any order.
\<close>

datatype kevent =
    KSched SchedSwitchCtx
  | KFreq CpuFrequencyCtx
  | KSend u64 "u64 option"
  | KRecv u64 "64 word option"

fun kernel_step :: "kevent \<Rightarrow> bpf_maps \<Rightarrow> bpf_maps" where
  "kernel_step (KSched ctx) b = snd (sched_switch ctx b)"
| "kernel_step (KFreq ctx) b = snd (cpu_frequency ctx b)"
| "kernel_step (KSend pid_tgid arg) b = tcp_sendmsg pid_tgid arg b"
| "kernel_step (KRecv pid_tgid ret) b = tcp_recvmsg pid_tgid ret b"

definition kernel_run :: "kevent list \<Rightarrow> bpf_maps \<Rightarrow> bpf_maps" where
  "kernel_run evs b = fold kernel_step evs b"

text \<open>
  Specification of the time accounting.  \<open>switches cpu evs\<close> is the history of one
  CPU: when it switched and to which task.  Between two consecutive switches the
  CPU ran the task of the first one, so that time is busy time, or idle time when
  that task is the idle task 0.
\<close>

fun switches :: "u32 \<Rightarrow> kevent list \<Rightarrow> (u64 \<times> u32) list" where
  "switches cpu [] = []"
| "switches cpu (KSched ctx # evs) =
     (case (sc_prev_pid ctx, sc_next_pid ctx) of
        (Inr _, Inr next_pid) \<Rightarrow>
          if sc_cpu ctx = cpu then (sc_now ctx, next_pid) # switches cpu evs else switches cpu evs
      | _ \<Rightarrow> switches cpu evs)"
| "switches cpu (_ # evs) = switches cpu evs"

fun busy_ns :: "(u64 \<times> u32) list \<Rightarrow> nat" where
  "busy_ns ((t, p) # (t', p') # sw) = (if p \<noteq> 0 then unat t' - unat t else 0) + busy_ns ((t', p') # sw)"
| "busy_ns _ = 0"

fun idle_ns :: "(u64 \<times> u32) list \<Rightarrow> nat" where
  "idle_ns ((t, p) # (t', p') # sw) = (if p = 0 then unat t' - unat t else 0) + idle_ns ((t', p') # sw)"
| "idle_ns _ = 0"

definition recorded_ns :: "u32 \<Rightarrow> bpf_maps \<Rightarrow> nat" where
  "recorded_ns cpu b = sum_list (map (\<lambda>x. unat (snd x)) (filter (\<lambda>(k, _). pck_cpu k = cpu) (PID_CPU_TIME b)))"

text \<open>The time charges that a trace makes, in order, from the state of each CPU.\<close>

type_synonym sched_view = "u32 \<Rightarrow> u32 \<times> u64"

definition sched_view_of :: "bpf_maps \<Rightarrow> sched_view" where
  "sched_view_of b = (\<lambda>cpu. (css_current_pid (CPU_SCHED_STATE b cpu), css_start_time_ns (CPU_SCHED_STATE b cpu)))"

definition charge :: "SchedSwitchCtx \<Rightarrow> u32 \<Rightarrow> u32 \<times> u64 \<Rightarrow> (PidCpuKey \<times> u64) list" where
  "charge ctx prev_pid s =
     (case s of (cur, start) \<Rightarrow>
        if cur \<noteq> 0 \<and> start \<noteq> 0 \<and> 0 < sat_sub (sc_now ctx) start
        then [(\<lparr>pck_cpu = sc_cpu ctx, pck_pid = prev_pid\<rparr>, sat_sub (sc_now ctx) start)] else [])"

fun charges :: "kevent list \<Rightarrow> sched_view \<Rightarrow> (PidCpuKey \<times> u64) list" where
  "charges [] s = []"
| "charges (KSched ctx # evs) s =
     (case (sc_prev_pid ctx, sc_next_pid ctx) of
        (Inr prev_pid, Inr next_pid) \<Rightarrow>
          charge ctx prev_pid (s (sc_cpu ctx)) @ charges evs (s(sc_cpu ctx := (next_pid, sc_now ctx)))
      | _ \<Rightarrow> charges evs s)"
| "charges (_ # evs) s = charges evs s"

definition charged_keys :: "kevent list \<Rightarrow> bpf_maps \<Rightarrow> PidCpuKey set" where
  "charged_keys evs b = fst ` set (charges evs (sched_view_of b))"

text \<open>A short trace on two CPUs, used to exercise the definitions.\<close>

definition sample_switch :: "u64 \<Rightarrow> u32 \<Rightarrow> u32 \<Rightarrow> u32 \<Rightarrow> kevent" where
  "sample_switch now cpu prev_pid next_pid =
     KSched \<lparr>sc_now = now, sc_cpu = cpu, sc_prev_pid = Inr prev_pid, sc_next_pid = Inr next_pid,
             sc_cgroup_id = 1, sc_perf_out = \<lparr>pr_instructions = 0, pr_cycles = 0, pr_cache_misses = 0\<rparr>,
             sc_perf_in = \<lparr>pr_instructions = 0, pr_cycles = 0, pr_cache_misses = 0\<rparr>\<rparr>"

definition sample_trace :: "kevent list" where
  "sample_trace =
     [sample_switch 100 0 0 7, sample_switch 120 1 0 9, sample_switch 250 0 7 0,
      sample_switch 300 0 0 8, sample_switch 320 1 9 0, sample_switch 420 0 8 7]"

subsection \<open>Facts about the maps\<close>

lemma hm_wf_bpf_insert [simp]: "hm_wf m \<Longrightarrow> hm_wf (bpf_insert cap k v m)"
  by (simp add: bpf_insert_def)

lemma hm_wf_bpf_add [simp]: "hm_wf m \<Longrightarrow> hm_wf (bpf_add cap k i u m)"
  by (simp add: bpf_add_def split: option.split)

lemma length_bpf_insert [simp]: "length m \<le> cap \<Longrightarrow> length (bpf_insert cap k v m) \<le> cap"
  by (auto simp: bpf_insert_def length_update)

lemma length_bpf_add [simp]: "length m \<le> cap \<Longrightarrow> length (bpf_add cap k i u m) \<le> cap"
  by (auto simp: bpf_add_def length_update split: option.split)

lemma bpf_add_upsert:
  "map_of m k \<noteq> None \<or> length m < cap \<Longrightarrow>
   bpf_add cap k w (\<lambda>t. t + w) m = hm_upsert k 0 (\<lambda>t. t + w) m" for w :: "'v::monoid_add"
  by (auto simp: bpf_add_def bpf_insert_def hm_upsert_def hm_get_or_def split: option.split)

text \<open>With room for every key, the kernel's accumulation is the one of the keyed store.\<close>

lemma fold_bpf_add_upsert:
  fixes cs :: "('k \<times> 'v::monoid_add) list"
  assumes "hm_wf m" and "card (dom (map_of m) \<union> fst ` set cs) \<le> cap"
  shows "fold (\<lambda>(k, w). bpf_add cap k w (\<lambda>t. t + w)) cs m =
    fold (\<lambda>c. hm_upsert (fst c) 0 (\<lambda>t. t + snd c)) cs m"
  using assms
proof (induction cs arbitrary: m)
  case (Cons c cs)
  obtain k w where c: "c = (k, w)" by (cases c)
  have fin: "finite (dom (map_of m) \<union> fst ` set (c # cs))" by (simp add: finite_dom_map_of)
  have room: "map_of m k \<noteq> None \<or> length m < cap"
  proof (cases "map_of m k")
    case None
    then have "k \<notin> dom (map_of m)" by (simp add: domIff)
    then have "Suc (length m) = card (insert k (dom (map_of m)))"
      using Cons.prems(1) by (simp add: length_hm_wf finite_dom_map_of)
    also have "\<dots> \<le> card (dom (map_of m) \<union> fst ` set (c # cs))"
      using fin by (intro card_mono) (auto simp: c)
    finally show ?thesis using Cons.prems(2) by simp
  qed simp
  have dom: "dom (map_of (hm_upsert k 0 (\<lambda>t. t + w) m)) \<union> fst ` set cs = dom (map_of m) \<union> fst ` set (c # cs)"
    by (auto simp: c hm_upsert_def domIff split: if_splits)
  show ?case using Cons.IH [of "hm_upsert k 0 (\<lambda>t. t + w) m"] Cons.prems room dom
    by (simp add: c bpf_add_upsert)
qed simp

subsection \<open>The capacity invariant\<close>

text \<open>Every map holds each key once and stays within its capacity.\<close>

definition bpf_inv :: "bpf_maps \<Rightarrow> bool" where
  "bpf_inv b \<longleftrightarrow>
     hm_wf (PID_CPU_TIME b) \<and> length (PID_CPU_TIME b) \<le> MAX_PID_CPU_ENTRIES \<and>
     hm_wf (CPU_FREQ_TIME b) \<and> length (CPU_FREQ_TIME b) \<le> MAX_CPU_FREQ_ENTRIES \<and>
     hm_wf (PID_CGROUP b) \<and> length (PID_CGROUP b) \<le> MAX_PID_CGROUP_ENTRIES \<and>
     hm_wf (PID_NET_BYTES b) \<and> length (PID_NET_BYTES b) \<le> MAX_PID_NET_ENTRIES \<and>
     hm_wf (PID_HW_COUNTERS b) \<and> length (PID_HW_COUNTERS b) \<le> MAX_PID_HW_COUNTER_ENTRIES"

lemma bpf_inv_new: "bpf_inv bpf_maps_new"
  by (simp add: bpf_inv_def bpf_maps_new_def)

lemma bpf_inv_account_outgoing: "bpf_inv b \<Longrightarrow> bpf_inv (account_outgoing ctx p b)"
  by (simp add: account_outgoing_def account_pmc_def bpf_inv_def Let_def)

lemma bpf_inv_record_incoming: "bpf_inv b \<Longrightarrow> bpf_inv (record_incoming ctx p b)"
  by (simp add: record_incoming_def bpf_inv_def Let_def)

lemma bpf_inv_sched_switch: "bpf_inv b \<Longrightarrow> bpf_inv (snd (sched_switch ctx b))"
  by (simp add: sched_switch_def handle_sched_switch_def bpf_inv_account_outgoing
      bpf_inv_record_incoming split: sum.split)

lemma bpf_inv_cpu_frequency: "bpf_inv b \<Longrightarrow> bpf_inv (snd (cpu_frequency ctx b))"
  by (simp add: cpu_frequency_def handle_cpu_frequency_def bpf_inv_def Let_def split: sum.split)

lemma bpf_inv_tcp:
  "bpf_inv b \<Longrightarrow> bpf_inv (tcp_sendmsg p a b)" "bpf_inv b \<Longrightarrow> bpf_inv (tcp_recvmsg p r b)"
  by (simp_all add: tcp_sendmsg_def tcp_recvmsg_def bpf_inv_def Let_def split: option.split)

lemma bpf_inv_step: "bpf_inv b \<Longrightarrow> bpf_inv (kernel_step e b)"
  by (cases e) (simp_all add: bpf_inv_sched_switch bpf_inv_cpu_frequency bpf_inv_tcp)

subsection \<open>Time accounting\<close>

lemma account_pmc_time [simp]:
  "PID_CPU_TIME (account_pmc cpu p perf s b) = PID_CPU_TIME b"
  "CPU_SCHED_STATE (account_pmc cpu p perf s b) = CPU_SCHED_STATE b"
  by (simp_all add: account_pmc_def Let_def)

lemma account_outgoing_time:
  "PID_CPU_TIME (account_outgoing ctx p b) =
     fold (\<lambda>(k, w). bpf_add MAX_PID_CPU_ENTRIES k w (\<lambda>t. t + w))
       (charge ctx p (sched_view_of b (sc_cpu ctx))) (PID_CPU_TIME b)"
  "sched_view_of (account_outgoing ctx p b) = sched_view_of b"
  by (simp_all add: account_outgoing_def charge_def sched_view_of_def Let_def)

lemma record_incoming_time:
  "PID_CPU_TIME (record_incoming ctx n b) = PID_CPU_TIME b"
  "sched_view_of (record_incoming ctx n b) = (sched_view_of b)(sc_cpu ctx := (n, sc_now ctx))"
  by (auto simp: record_incoming_def sched_view_of_def Let_def)

lemma sched_switch_time:
  "sc_prev_pid ctx = Inr p \<Longrightarrow> sc_next_pid ctx = Inr n \<Longrightarrow>
   snd (sched_switch ctx b) = record_incoming ctx n (account_outgoing ctx p b)"
  "sc_prev_pid ctx = Inl e \<or> sc_next_pid ctx = Inl e \<Longrightarrow> snd (sched_switch ctx b) = b"
  by (auto simp: sched_switch_def handle_sched_switch_def split: sum.split)

lemma other_steps_time:
  "PID_CPU_TIME (snd (cpu_frequency c b)) = PID_CPU_TIME b"
  "sched_view_of (snd (cpu_frequency c b)) = sched_view_of b"
  "PID_CPU_TIME (tcp_sendmsg t a b) = PID_CPU_TIME b" "sched_view_of (tcp_sendmsg t a b) = sched_view_of b"
  "PID_CPU_TIME (tcp_recvmsg t r b) = PID_CPU_TIME b" "sched_view_of (tcp_recvmsg t r b) = sched_view_of b"
  by (auto simp: cpu_frequency_def handle_cpu_frequency_def tcp_sendmsg_def tcp_recvmsg_def
      sched_view_of_def Let_def split: sum.split option.split)

lemma kernel_run_charges:
  "PID_CPU_TIME (kernel_run evs b) =
     fold (\<lambda>(k, w). bpf_add MAX_PID_CPU_ENTRIES k w (\<lambda>t. t + w))
       (charges evs (sched_view_of b)) (PID_CPU_TIME b)"
  unfolding kernel_run_def
proof (induction evs arbitrary: b)
  case (Cons e evs)
  show ?case
  proof (cases e)
    case (KSched ctx)
    show ?thesis
    proof (cases "\<exists>p n. sc_prev_pid ctx = Inr p \<and> sc_next_pid ctx = Inr n")
      case True
      then obtain p n where pn: "sc_prev_pid ctx = Inr p" "sc_next_pid ctx = Inr n" by blast
      then show ?thesis
        by (simp add: Cons.IH KSched sched_switch_time record_incoming_time account_outgoing_time
            del: fun_upd_apply)
    next
      case False
      then have "snd (sched_switch ctx b) = b"
        and "charges (KSched ctx # evs) (sched_view_of b) = charges evs (sched_view_of b)"
        by (auto simp: sched_switch_def handle_sched_switch_def split: sum.split)
      then show ?thesis by (simp add: Cons.IH KSched)
    qed
  qed (simp_all add: Cons.IH other_steps_time)
qed simp

text \<open>The charges of one CPU depend on the history of that CPU only.\<close>

lemma charges_busy:
  "sum_list (map (\<lambda>x. unat (snd x)) (filter (\<lambda>(k, _). pck_cpu k = cpu) (charges evs s))) =
     busy_ns (prod.swap (s cpu) # switches cpu evs)"
  if "snd (s cpu) = 0 \<Longrightarrow> fst (s cpu) = 0" and "\<And>t n. (t, n) \<in> set (switches cpu evs) \<Longrightarrow> t \<noteq> 0"
  using that
proof (induction evs arbitrary: s)
  case Nil
  then show ?case by (cases "s cpu") simp
next
  case (Cons e evs)
  show ?case
  proof (cases e)
    case (KSched ctx)
    show ?thesis
    proof (cases "\<exists>p n. sc_prev_pid ctx = Inr p \<and> sc_next_pid ctx = Inr n")
      case True
      then obtain p n where pn: "sc_prev_pid ctx = Inr p" "sc_next_pid ctx = Inr n" by blast
      obtain cur start where cs: "s cpu = (cur, start)" by (cases "s cpu")
      show ?thesis
      proof (cases "sc_cpu ctx = cpu")
        case True
        have now: "sc_now ctx \<noteq> 0" using Cons.prems(2) True by (auto simp: KSched pn)
        have IH: "sum_list (map (\<lambda>x. unat (snd x)) (filter (\<lambda>(k, _). pck_cpu k = cpu)
            (charges evs (s(cpu := (n, sc_now ctx)))))) = busy_ns ((sc_now ctx, n) # switches cpu evs)"
          by (subst Cons.IH) (use Cons.prems(2) now in \<open>auto simp: KSched pn True\<close>)
        have "unat (sat_sub (sc_now ctx) start) = 0" if "\<not> 0 < sat_sub (sc_now ctx) start"
          using that by (simp add: word_neq_0_conv [symmetric])
        then show ?thesis using Cons.prems(1) IH
          by (auto simp: KSched pn True cs charge_def unat_simps split: if_splits)
      next
        case False
        then have "charge ctx p (s (sc_cpu ctx)) = [] \<or>
            (\<exists>k w. charge ctx p (s (sc_cpu ctx)) = [(k, w)] \<and> pck_cpu k \<noteq> cpu)"
          by (auto simp: charge_def split: prod.split)
        moreover have "sum_list (map (\<lambda>x. unat (snd x)) (filter (\<lambda>(k, _). pck_cpu k = cpu)
            (charges evs (s(sc_cpu ctx := (n, sc_now ctx)))))) =
            busy_ns (prod.swap (s cpu) # switches cpu evs)"
          by (subst Cons.IH) (use Cons.prems False in \<open>auto simp: KSched pn\<close>)
        ultimately show ?thesis using False by (auto simp: KSched pn)
      qed
    next
      case False
      then show ?thesis using Cons.IH [of s] Cons.prems by (auto simp: KSched split: sum.splits)
    qed
  qed (use Cons in auto)
qed

lemma busy_idle_telescope:
  "sorted (map fst sw) \<Longrightarrow> sw \<noteq> [] \<Longrightarrow>
   busy_ns sw + idle_ns sw = unat (fst (last sw)) - unat (fst (hd sw))"
proof (induction sw rule: busy_ns.induct)
  case (1 t p t' p' sw)
  have "t \<le> t'" "t' \<le> fst (last ((t', p') # sw))" using 1(2) by (auto dest: last_in_set)
  then show ?case using 1 by (auto simp: unat_simps)
qed auto

text \<open>
  C4: On every CPU and for any interleaving of the events of all CPUs, the time
  recorded under the processes of that CPU plus its idle time is exactly the time
  from its first to its last context switch, when the clock of the CPU does not
  run backwards and the map has room for the processes seen.
\<close>

theorem sched_time_accounted:
  assumes "sorted (map fst (switches cpu evs))" and "switches cpu evs \<noteq> []"
    and "0 < fst (hd (switches cpu evs))"
    and "card (charged_keys evs bpf_maps_new) \<le> MAX_PID_CPU_ENTRIES"
  shows "recorded_ns cpu (kernel_run evs bpf_maps_new) + idle_ns (switches cpu evs) =
    unat (fst (last (switches cpu evs))) - unat (fst (hd (switches cpu evs)))"
proof -
  let ?sw = "switches cpu evs" and ?cs = "charges evs (sched_view_of bpf_maps_new)"
  have view: "sched_view_of bpf_maps_new = (\<lambda>_. (0, 0))" by (simp add: sched_view_of_def bpf_maps_new_def)
  have pos: "t \<noteq> 0" if "(t, n) \<in> set ?sw" for t n
  proof -
    have "fst (hd ?sw) \<le> t" using assms(1) that by (cases ?sw) force+
    with assms(3) show ?thesis by auto
  qed
  have busy: "sum_list (map (\<lambda>x. unat (snd x)) (filter (\<lambda>(k, _). pck_cpu k = cpu) ?cs)) = busy_ns ?sw"
    using assms(2) unfolding view by (subst charges_busy) (auto dest: pos simp: neq_Nil_conv)
  have tele: "busy_ns ?sw + idle_ns ?sw = unat (fst (last ?sw)) - unat (fst (hd ?sw))"
    using assms(1,2) by (rule busy_idle_telescope)
  have "busy_ns ?sw \<le> unat (fst (last ?sw))" using tele by simp
  also have "\<dots> < 2 ^ 64" using unsigned_less [of "fst (last ?sw)"] by simp
  finally have fits: "busy_ns ?sw < 2 ^ 64" .
  have "recorded_ns cpu (kernel_run evs bpf_maps_new) =
      sum_list (map (\<lambda>x. unat (snd x)) (filter (\<lambda>(k, _). pck_cpu k = cpu)
        (fold (\<lambda>c. hm_upsert (fst c) 0 (\<lambda>t. t + snd c)) ?cs [])))"
    using fold_bpf_add_upsert [of "[]" ?cs MAX_PID_CPU_ENTRIES] assms(4)
    by (simp add: recorded_ns_def kernel_run_charges charged_keys_def) (simp add: bpf_maps_new_def)
  also have "\<dots> = busy_ns ?sw"
    using busy fits unfolding filter_fold_upsert
    by (subst sum_unat_accumulate) (simp_all add: case_prod_unfold)
  finally show ?thesis using tele by simp
qed

theorem sched_time_accounted_witness:
  "recorded_ns 0 (kernel_run sample_trace bpf_maps_new) + 50 = 320"
proof -
  have sw: "switches 0 sample_trace = [(100, 7), (250, 0), (300, 8), (420, 7)]"
    by (simp add: sample_trace_def sample_switch_def)
  have "charged_keys sample_trace bpf_maps_new =
      {\<lparr>pck_cpu = 0, pck_pid = 7\<rparr>, \<lparr>pck_cpu = 1, pck_pid = 9\<rparr>, \<lparr>pck_cpu = 0, pck_pid = 8\<rparr>}"
    by (simp add: charged_keys_def sample_trace_def sample_switch_def charge_def sched_view_of_def
        bpf_maps_new_def sat_sub_def)
  then have "card (charged_keys sample_trace bpf_maps_new) \<le> MAX_PID_CPU_ENTRIES"
    by (simp add: MAX_PID_CPU_ENTRIES_def card_insert_if)
  from sched_time_accounted [OF _ _ _ this, of 0] show ?thesis by (simp add: sw)
qed

text \<open>
  C14: Every process gets exactly the time charged to it: after any run of the kernel
  handlers the entry of a process on a CPU is the sum of the intervals that ended with
  the switch away from it, and there is no entry for a process that was not charged.
\<close>

theorem sched_time_per_process:
  assumes "card (charged_keys evs bpf_maps_new) \<le> MAX_PID_CPU_ENTRIES"
  shows "map_of (PID_CPU_TIME (kernel_run evs bpf_maps_new)) k =
    (if k \<in> charged_keys evs bpf_maps_new
     then Some (sum_list (map snd (filter (\<lambda>c. fst c = k) (charges evs (sched_view_of bpf_maps_new)))))
     else None)"
proof -
  let ?cs = "charges evs (sched_view_of bpf_maps_new)"
  have "PID_CPU_TIME (kernel_run evs bpf_maps_new) =
      fold (\<lambda>c. hm_upsert (fst c) 0 (\<lambda>t. t + snd c)) ?cs []"
    using fold_bpf_add_upsert [of "[]" ?cs MAX_PID_CPU_ENTRIES] assms
    by (simp add: kernel_run_charges charged_keys_def) (simp add: bpf_maps_new_def)
  then show ?thesis using hms.get_accumulate [of fst snd ?cs "[]" k] by (simp add: charged_keys_def)
qed

theorem sched_time_per_process_witness:
  "map_of (PID_CPU_TIME (kernel_run sample_trace bpf_maps_new)) \<lparr>pck_cpu = 0, pck_pid = 8\<rparr> = Some 120"
proof -
  have cs: "charges sample_trace (sched_view_of bpf_maps_new) =
      [(\<lparr>pck_cpu = 0, pck_pid = 7\<rparr>, 150), (\<lparr>pck_cpu = 1, pck_pid = 9\<rparr>, 200), (\<lparr>pck_cpu = 0, pck_pid = 8\<rparr>, 120)]"
    by (simp add: sample_trace_def sample_switch_def charge_def sched_view_of_def bpf_maps_new_def sat_sub_def)
  have "card (charged_keys sample_trace bpf_maps_new) \<le> MAX_PID_CPU_ENTRIES"
    by (simp add: charged_keys_def cs MAX_PID_CPU_ENTRIES_def card_insert_if)
  from sched_time_per_process [OF this] show ?thesis by (simp add: cs charged_keys_def)
qed

text \<open>
  A frequency change of CPU 1 that is reported while CPU 0 runs the handler uses the
  state slot of CPU 0: the 500 ns that CPU 0 spent at 2 GHz are recorded for CPU 1.
\<close>

theorem cpu_frequency_charges_other_cpu:
  "CPU_FREQ_TIME (kernel_run
      [KFreq \<lparr>fc_now = 1000, fc_running_cpu = 0, fc_new_freq_khz = Inr 2000000, fc_cpu_id = Inr 0\<rparr>,
       KFreq \<lparr>fc_now = 1500, fc_running_cpu = 0, fc_new_freq_khz = Inr 3000000, fc_cpu_id = Inr 1\<rparr>]
      bpf_maps_new) = [(\<lparr>cfk_cpu = 1, cfk_freq_khz = 2000000\<rparr>, 500)]"
  by (simp add: kernel_run_def cpu_frequency_def handle_cpu_frequency_def bpf_maps_new_def Let_def
      sat_sub_def bpf_add_def bpf_insert_def MAX_CPU_FREQ_ENTRIES_def)

end
