(* ===== verification/Ebpf_Observer.thy ===== *)
theory Ebpf_Observer
  imports Ebpf_Kernel
begin

text \<open>
  The user-space side of the kernel observation (\<open>keck-agent/src/ebpf/mod.rs\<close>):
  draining the BPF maps once per interval and removing the cgroup entries of
  dead processes.  Loading and attaching the programs is I/O and is not modelled;
  what the loaded object offers (which maps can be opened, whether the hardware
  counters are attached) is part of the observer's state.
\<close>

datatype ObserverError = Ebpf str

datatype map_status = MapOk | MapMissing | MapBadType str

record EbpfSnapshot =
  es_pid_cpu_times :: "(u32 \<times> u32 \<times> u64) list"
  es_cpu_freq_times :: "(u32 \<times> u32 \<times> u64) list"
  es_pid_cgroups :: "(u32, u64) hmap"
  es_pid_net_bytes :: "(u32, u64 \<times> u64) hmap"
  es_pid_hw_counters :: "(u32 \<times> u32, u64 \<times> u64 \<times> u64) hmap"

record EbpfObserver =
  eo_bpf :: bpf_maps
  eo_map_status :: "str \<Rightarrow> map_status"
  eo_pid_pmc_active :: bool
  eo_perf_fds :: "nat list"

text \<open>
  Iterating over a BPF map yields a result per entry; entries that cannot be read
  are skipped.  \<open>IterOk\<close> says which entries of each map can be read.
\<close>

record IterOk =
  io_cpu_time :: "PidCpuKey \<Rightarrow> bool"
  io_freq_time :: "CpuFreqKey \<Rightarrow> bool"
  io_cgroup :: "u32 \<Rightarrow> bool"
  io_net :: "u32 \<Rightarrow> bool"
  io_hw :: "PidCpuCounterKey \<Rightarrow> bool"

definition open_map :: "EbpfObserver \<Rightarrow> str \<Rightarrow> ObserverError + unit" where
  "open_map ob name =
     (case eo_map_status ob name of
        MapOk \<Rightarrow> Inr ()
      | MapMissing \<Rightarrow> Inl (Ebpf (name @ '' map not found''))
      | MapBadType e \<Rightarrow> Inl (Ebpf (name @ '' cast: '' @ e)))"

definition map_items :: "('k \<Rightarrow> bool) \<Rightarrow> ('k, 'v) hmap \<Rightarrow> ('k, 'v) hmap" where
  "map_items ok m = filter (\<lambda>(k, _). ok k) m"

definition remove_keys :: "'k list \<Rightarrow> ('k, 'v) hmap \<Rightarrow> ('k, 'v) hmap" where
  "remove_keys ks m = fold AList.delete ks m"

definition drain_cpu_times :: "IterOk \<Rightarrow> EbpfObserver \<Rightarrow> (u32 \<times> u32 \<times> u64) list \<times> EbpfObserver" where
  "drain_cpu_times io ob =
     (let b = eo_bpf ob; items = map_items (io_cpu_time io) (PID_CPU_TIME b)
      in (map (\<lambda>(k, t). (pck_cpu k, pck_pid k, t)) items,
          ob\<lparr>eo_bpf := b\<lparr>PID_CPU_TIME := remove_keys (map fst items) (PID_CPU_TIME b)\<rparr>\<rparr>))"

definition drain_freq_times :: "IterOk \<Rightarrow> EbpfObserver \<Rightarrow> (u32 \<times> u32 \<times> u64) list \<times> EbpfObserver" where
  "drain_freq_times io ob =
     (let b = eo_bpf ob; items = map_items (io_freq_time io) (CPU_FREQ_TIME b)
      in (map (\<lambda>(k, t). (cfk_cpu k, cfk_freq_khz k, t)) items,
          ob\<lparr>eo_bpf := b\<lparr>CPU_FREQ_TIME := remove_keys (map fst items) (CPU_FREQ_TIME b)\<rparr>\<rparr>))"

definition read_cgroups :: "IterOk \<Rightarrow> EbpfObserver \<Rightarrow> (u32, u64) hmap" where
  "read_cgroups io ob =
     fold (\<lambda>(pid, c). AList.update pid c) (map_items (io_cgroup io) (PID_CGROUP (eo_bpf ob))) []"

definition drain_net_bytes :: "IterOk \<Rightarrow> EbpfObserver \<Rightarrow> (u32, u64 \<times> u64) hmap \<times> EbpfObserver" where
  "drain_net_bytes io ob =
     (case eo_map_status ob ''PID_NET_BYTES'' of
        MapOk \<Rightarrow>
          let b = eo_bpf ob; items = map_items (io_net io) (PID_NET_BYTES b)
          in (fold (\<lambda>(pid, v). AList.update pid (pnb_tx_bytes v, pnb_rx_bytes v)) items [],
              ob\<lparr>eo_bpf := b\<lparr>PID_NET_BYTES := remove_keys (map fst items) (PID_NET_BYTES b)\<rparr>\<rparr>)
      | _ \<Rightarrow> ([], ob))"

definition drain_hw_counters ::
  "IterOk \<Rightarrow> EbpfObserver \<Rightarrow> (u32 \<times> u32, u64 \<times> u64 \<times> u64) hmap \<times> EbpfObserver" where
  "drain_hw_counters io ob =
     (if eo_pid_pmc_active ob
      then (case eo_map_status ob ''PID_HW_COUNTERS'' of
              MapOk \<Rightarrow>
                let b = eo_bpf ob; items = map_items (io_hw io) (PID_HW_COUNTERS b)
                in (fold (\<lambda>(k, v). AList.update (pcck_cpu k, pcck_pid k)
                              (pcc_instructions v, pcc_cycles v, pcc_cache_misses v)) items [],
                    ob\<lparr>eo_bpf := b\<lparr>PID_HW_COUNTERS := remove_keys (map fst items) (PID_HW_COUNTERS b)\<rparr>\<rparr>)
            | _ \<Rightarrow> ([], ob))
      else ([], ob))"

definition drain :: "IterOk \<Rightarrow> EbpfObserver \<Rightarrow> (ObserverError + EbpfSnapshot) \<times> EbpfObserver" where
  "drain io ob =
     (case open_map ob ''PID_CPU_TIME'' of
        Inl e \<Rightarrow> (Inl e, ob)
      | Inr _ \<Rightarrow>
        (case drain_cpu_times io ob of (pid_cpu_times, o1) \<Rightarrow>
        (case open_map o1 ''CPU_FREQ_TIME'' of
           Inl e \<Rightarrow> (Inl e, o1)
         | Inr _ \<Rightarrow>
           (case drain_freq_times io o1 of (cpu_freq_times, o2) \<Rightarrow>
           (case open_map o2 ''PID_CGROUP'' of
              Inl e \<Rightarrow> (Inl e, o2)
            | Inr _ \<Rightarrow>
              (let pid_cgroups = read_cgroups io o2;
                   (pid_net_bytes, o3) = drain_net_bytes io o2;
                   (pid_hw_counters, o4) = drain_hw_counters io o3
               in (Inr \<lparr>es_pid_cpu_times = pid_cpu_times, es_cpu_freq_times = cpu_freq_times,
                        es_pid_cgroups = pid_cgroups, es_pid_net_bytes = pid_net_bytes,
                        es_pid_hw_counters = pid_hw_counters\<rparr>, o4)))))))"

text \<open>\<open>exists pid\<close> is whether \<open>/proc/<pid>\<close> exists.\<close>

definition cleanup_dead_pids ::
  "IterOk \<Rightarrow> (u32 \<Rightarrow> bool) \<Rightarrow> EbpfObserver \<Rightarrow> (ObserverError + nat) \<times> EbpfObserver" where
  "cleanup_dead_pids io proc_exists ob =
     (case open_map ob ''PID_CGROUP'' of
        Inl e \<Rightarrow> (Inl e, ob)
      | Inr _ \<Rightarrow>
        (let b = eo_bpf ob;
             dead_pids = filter (\<lambda>pid. \<not> proc_exists pid)
                           (map fst (map_items (io_cgroup io) (PID_CGROUP b)))
         in (Inr (length dead_pids),
             ob\<lparr>eo_bpf := b\<lparr>PID_CGROUP := remove_keys dead_pids (PID_CGROUP b)\<rparr>\<rparr>)))"

text \<open>
  The observer and the kernel together: kernel handlers run at any time, the agent
  drains the maps and removes dead processes whenever it likes.
\<close>

inductive observer_step :: "EbpfObserver \<Rightarrow> EbpfObserver \<Rightarrow> bool" where
  Kernel: "observer_step ob (ob\<lparr>eo_bpf := kernel_step e (eo_bpf ob)\<rparr>)"
| Drain: "observer_step ob (snd (drain io ob))"
| Cleanup: "observer_step ob (snd (cleanup_dead_pids io proc_exists ob))"

inductive observer_reach :: "EbpfObserver \<Rightarrow> EbpfObserver \<Rightarrow> bool" where
  Start: "observer_reach ob ob"
| Step: "observer_reach ob ob' \<Longrightarrow> observer_step ob' ob'' \<Longrightarrow> observer_reach ob ob''"

datatype observer_op = OpKernel kevent | OpDrain

definition iter_all :: IterOk where
  "iter_all = \<lparr>io_cpu_time = (\<lambda>_. True), io_freq_time = (\<lambda>_. True), io_cgroup = (\<lambda>_. True),
               io_net = (\<lambda>_. True), io_hw = (\<lambda>_. True)\<rparr>"

text \<open>A schedule of kernel events and drains, with the snapshots the drains return.\<close>

fun observe :: "observer_op list \<Rightarrow> EbpfObserver \<Rightarrow> EbpfSnapshot list \<times> EbpfObserver" where
  "observe [] ob = ([], ob)"
| "observe (OpKernel e # ops) ob = observe ops (ob\<lparr>eo_bpf := kernel_step e (eo_bpf ob)\<rparr>)"
| "observe (OpDrain # ops) ob =
     (case drain iter_all ob of
        (Inl _, ob') \<Rightarrow> observe ops ob'
      | (Inr snap, ob') \<Rightarrow> (case observe ops ob' of (snaps, ob'') \<Rightarrow> (snap # snaps, ob'')))"

fun kernel_events :: "observer_op list \<Rightarrow> kevent list" where
  "kernel_events [] = []"
| "kernel_events (OpKernel e # ops) = e # kernel_events ops"
| "kernel_events (OpDrain # ops) = kernel_events ops"

definition snapshot_time :: "PidCpuKey \<Rightarrow> EbpfSnapshot \<Rightarrow> u64" where
  "snapshot_time k snap =
     sum_list (map (snd \<circ> snd)
       (filter (\<lambda>(c, p, _). c = pck_cpu k \<and> p = pck_pid k) (es_pid_cpu_times snap)))"

definition charged_time :: "PidCpuKey \<Rightarrow> (PidCpuKey \<times> u64) list \<Rightarrow> u64" where
  "charged_time k cs = sum_list (map snd (filter (\<lambda>c. fst c = k) cs))"

definition maps_ok :: "EbpfObserver \<Rightarrow> bool" where
  "maps_ok ob \<longleftrightarrow> (\<forall>name \<in> {''PID_CPU_TIME'', ''CPU_FREQ_TIME'', ''PID_CGROUP''}. eo_map_status ob name = MapOk)"

subsection \<open>Removing keys\<close>

lemma map_of_remove_keys: "map_of (remove_keys ks m) k = (if k \<in> set ks then None else map_of m k)"
  unfolding remove_keys_def by (induction ks arbitrary: m) auto

lemma hm_wf_remove_keys [simp]: "hm_wf m \<Longrightarrow> hm_wf (remove_keys ks m)"
  unfolding remove_keys_def by (induction ks arbitrary: m) auto

lemma length_remove_keys: "length (remove_keys ks m) \<le> length m"
  unfolding remove_keys_def
proof (induction ks arbitrary: m)
  case (Cons k ks)
  show ?case using Cons.IH [of "AList.delete k m"] length_delete_le [of k m] by simp
qed simp

lemma length_remove_keys_le [simp]: "length m \<le> cap \<Longrightarrow> length (remove_keys ks m) \<le> cap"
  using length_remove_keys order_trans by blast

lemma remove_keys_eq: "remove_keys ks m = filter (\<lambda>(k, _). k \<notin> set ks) m"
  unfolding remove_keys_def by (induction ks arbitrary: m) (auto simp: AList.delete_eq intro: filter_cong)

subsection \<open>The invariant holds at every moment\<close>

lemma drain_cpu_times_inv: "bpf_inv (eo_bpf ob) \<Longrightarrow> bpf_inv (eo_bpf (snd (drain_cpu_times io ob)))"
  by (simp add: drain_cpu_times_def bpf_inv_def Let_def)

lemma drain_freq_times_inv: "bpf_inv (eo_bpf ob) \<Longrightarrow> bpf_inv (eo_bpf (snd (drain_freq_times io ob)))"
  by (simp add: drain_freq_times_def bpf_inv_def Let_def)

lemma drain_net_bytes_inv: "bpf_inv (eo_bpf ob) \<Longrightarrow> bpf_inv (eo_bpf (snd (drain_net_bytes io ob)))"
  by (simp add: drain_net_bytes_def bpf_inv_def Let_def split: map_status.split)

lemma drain_hw_counters_inv: "bpf_inv (eo_bpf ob) \<Longrightarrow> bpf_inv (eo_bpf (snd (drain_hw_counters io ob)))"
  by (simp add: drain_hw_counters_def bpf_inv_def Let_def split: map_status.split)

lemmas drain_parts_inv = drain_cpu_times_inv drain_freq_times_inv drain_net_bytes_inv drain_hw_counters_inv

lemma drain_inv: "bpf_inv (eo_bpf ob) \<Longrightarrow> bpf_inv (eo_bpf (snd (drain io ob)))"
  using drain_parts_inv [of ob io] drain_parts_inv [of "snd (drain_cpu_times io ob)" io]
    drain_parts_inv [of "snd (drain_freq_times io (snd (drain_cpu_times io ob)))" io]
    drain_parts_inv
      [of "snd (drain_net_bytes io (snd (drain_freq_times io (snd (drain_cpu_times io ob)))))" io]
  by (simp add: drain_def Let_def case_prod_unfold split: sum.split)

lemma cleanup_inv: "bpf_inv (eo_bpf ob) \<Longrightarrow> bpf_inv (eo_bpf (snd (cleanup_dead_pids io ex ob)))"
  by (simp add: cleanup_dead_pids_def bpf_inv_def Let_def split: sum.split)

lemma observer_step_inv: "observer_step ob ob' \<Longrightarrow> bpf_inv (eo_bpf ob) \<Longrightarrow> bpf_inv (eo_bpf ob')"
  by (induction rule: observer_step.induct) (simp_all add: bpf_inv_step drain_inv cleanup_inv)



subsection \<open>Draining loses no time between handlers\<close>

lemma sched_view_step:
  "charges (e # es) (sched_view_of b) =
     charges [e] (sched_view_of b) @ charges es (sched_view_of (kernel_step e b))"
proof (cases e)
  case (KSched ctx)
  show ?thesis
  proof (cases "\<exists>p n. sc_prev_pid ctx = Inr p \<and> sc_next_pid ctx = Inr n")
    case True
    then show ?thesis
      by (auto simp: KSched sched_switch_time record_incoming_time account_outgoing_time
          simp del: fun_upd_apply)
  next
    case False
    then have "snd (sched_switch ctx b) = b"
      by (auto simp: sched_switch_def handle_sched_switch_def split: sum.split)
    then show ?thesis using False by (auto simp: KSched split: sum.split)
  qed
qed (simp_all add: other_steps_time)

lemma kernel_step_time:
  assumes "hm_wf (PID_CPU_TIME b)"
    and "card (dom (map_of (PID_CPU_TIME b)) \<union> fst ` set (charges [e] (sched_view_of b))) \<le> MAX_PID_CPU_ENTRIES"
  shows "hm_wf (PID_CPU_TIME (kernel_step e b))"
    and "hm_get_or (PID_CPU_TIME (kernel_step e b)) k 0 =
      hm_get_or (PID_CPU_TIME b) k 0 + charged_time k (charges [e] (sched_view_of b))"
    and "dom (map_of (PID_CPU_TIME (kernel_step e b))) =
      dom (map_of (PID_CPU_TIME b)) \<union> fst ` set (charges [e] (sched_view_of b))"
proof -
  let ?cs = "charges [e] (sched_view_of b)"
  have eq: "PID_CPU_TIME (kernel_step e b) = fold (\<lambda>c. hm_upsert (fst c) 0 (\<lambda>t. t + snd c)) ?cs (PID_CPU_TIME b)"
    using kernel_run_charges [of "[e]" b] fold_bpf_add_upsert [OF assms] by (simp add: kernel_run_def)
  show "hm_wf (PID_CPU_TIME (kernel_step e b))"
    unfolding eq using assms(1) by (rule hm.wf_fold_upsert)
  show "dom (map_of (PID_CPU_TIME (kernel_step e b))) = dom (map_of (PID_CPU_TIME b)) \<union> fst ` set ?cs"
    unfolding eq by (rule hm.dom_fold_upsert)
  have "filter (\<lambda>c. fst c = k) ?cs = []" if "k \<notin> fst ` set ?cs"
    using that by (auto simp: filter_empty_conv)
  then show "hm_get_or (PID_CPU_TIME (kernel_step e b)) k 0 =
      hm_get_or (PID_CPU_TIME b) k 0 + charged_time k ?cs"
    unfolding eq hm_get_or_def charged_time_def hms.get_accumulate [of fst snd] by auto
qed

lemma drain_keeps:
  "PID_CPU_TIME (eo_bpf (snd (drain_net_bytes io ob))) = PID_CPU_TIME (eo_bpf ob)"
  "sched_view_of (eo_bpf (snd (drain_net_bytes io ob))) = sched_view_of (eo_bpf ob)"
  "eo_map_status (snd (drain_net_bytes io ob)) = eo_map_status ob"
  "PID_CPU_TIME (eo_bpf (snd (drain_hw_counters io ob))) = PID_CPU_TIME (eo_bpf ob)"
  "sched_view_of (eo_bpf (snd (drain_hw_counters io ob))) = sched_view_of (eo_bpf ob)"
  "eo_map_status (snd (drain_hw_counters io ob)) = eo_map_status ob"
  by (simp_all add: drain_net_bytes_def drain_hw_counters_def sched_view_of_def Let_def
      split: map_status.split)

lemma drain_all:
  assumes "maps_ok ob"
  obtains snap ob' where "drain iter_all ob = (Inr snap, ob')"
    and "es_pid_cpu_times snap = map (\<lambda>(k, t). (pck_cpu k, pck_pid k, t)) (PID_CPU_TIME (eo_bpf ob))"
    and "PID_CPU_TIME (eo_bpf ob') = []" and "sched_view_of (eo_bpf ob') = sched_view_of (eo_bpf ob)"
    and "maps_ok ob'"
proof -
  have ok: "open_map ob' name = Inr ()"
    if "eo_map_status ob' = eo_map_status ob" "name \<in> {''PID_CPU_TIME'', ''CPU_FREQ_TIME'', ''PID_CGROUP''}"
    for ob' name
    using assms that by (auto simp: open_map_def maps_ok_def)
  have all: "remove_keys (map fst m) m = []" for m :: "('k, 'v) hmap"
    by (force simp: remove_keys_eq filter_empty_conv)
  let ?o1 = "snd (drain_cpu_times iter_all ob)"
  let ?o2 = "snd (drain_freq_times iter_all ?o1)"
  let ?o4 = "snd (drain_hw_counters iter_all (snd (drain_net_bytes iter_all ?o2)))"
  have o2: "PID_CPU_TIME (eo_bpf ?o2) = []" "sched_view_of (eo_bpf ?o2) = sched_view_of (eo_bpf ob)"
      "eo_map_status ?o1 = eo_map_status ob" "eo_map_status ?o2 = eo_map_status ob"
    by (simp_all add: drain_cpu_times_def drain_freq_times_def iter_all_def map_items_def Let_def all
        sched_view_of_def)
  have times: "fst (drain_cpu_times iter_all ob) =
      map (\<lambda>(k, t). (pck_cpu k, pck_pid k, t)) (PID_CPU_TIME (eo_bpf ob))"
    by (simp add: drain_cpu_times_def iter_all_def map_items_def Let_def)
  obtain snap where "drain iter_all ob = (Inr snap, ?o4)"
      "es_pid_cpu_times snap = map (\<lambda>(k, t). (pck_cpu k, pck_pid k, t)) (PID_CPU_TIME (eo_bpf ob))"
    by (simp add: drain_def ok o2 times case_prod_unfold Let_def)
  moreover have "maps_ok ?o4" using assms by (simp add: maps_ok_def drain_keeps o2)
  ultimately show ?thesis using that [of snap ?o4] by (simp add: drain_keeps o2)
qed

lemma snapshot_time_map:
  assumes "hm_wf m" and "es_pid_cpu_times snap = map (\<lambda>(k, t). (pck_cpu k, pck_pid k, t)) m"
  shows "snapshot_time k snap = hm_get_or m k 0"
proof -
  have "snapshot_time k snap = sum_list (map snd (filter (\<lambda>(k', _). k' = k) m))"
    unfolding snapshot_time_def assms(2)
    by (induction m) (auto simp: PidCpuKey.equality)
  also have "\<dots> = hm_get_or m k 0"
    using assms(1)
  proof (induction m)
    case (Cons kv m)
    have "filter (\<lambda>(k', _). k' = k) m = []" if "k \<notin> fst ` set m"
      using that by (force simp: filter_empty_conv)
    then show ?case using Cons by (cases kv) (auto simp: hm_get_or_def hm_wf_def)
  qed (simp add: hm_get_or_def)
  finally show ?thesis .
qed

lemma observe_time:
  assumes "maps_ok ob" and "hm_wf (PID_CPU_TIME (eo_bpf ob))"
    and "card (dom (map_of (PID_CPU_TIME (eo_bpf ob))) \<union>
      fst ` set (charges (kernel_events ops) (sched_view_of (eo_bpf ob)))) \<le> MAX_PID_CPU_ENTRIES"
    and "observe ops ob = (snaps, ob')"
  shows "sum_list (map (snapshot_time k) snaps) + hm_get_or (PID_CPU_TIME (eo_bpf ob')) k 0 =
    hm_get_or (PID_CPU_TIME (eo_bpf ob)) k 0 + charged_time k (charges (kernel_events ops) (sched_view_of (eo_bpf ob)))"
  using assms
proof (induction ops arbitrary: ob snaps)
  case Nil
  then show ?case by (simp add: charged_time_def)
next
  case (Cons op ops)
  show ?case
  proof (cases op)
    case (OpKernel e)
    let ?b = "eo_bpf ob" and ?b' = "kernel_step e (eo_bpf ob)"
    let ?es = "kernel_events ops"
    have split: "charges (e # ?es) (sched_view_of ?b) = charges [e] (sched_view_of ?b) @ charges ?es (sched_view_of ?b')"
      by (rule sched_view_step)
    have cap: "card (dom (map_of (PID_CPU_TIME ?b)) \<union> fst ` set (charges [e] (sched_view_of ?b))) \<le> MAX_PID_CPU_ENTRIES"
      by (rule order_trans [OF card_mono Cons.prems(3)])
        (auto simp: OpKernel split finite_dom_map_of simp del: charges.simps)
    note step = kernel_step_time [OF Cons.prems(2) cap]
    have "sum_list (map (snapshot_time k) snaps) + hm_get_or (PID_CPU_TIME (eo_bpf ob')) k 0 =
        hm_get_or (PID_CPU_TIME ?b') k 0 + charged_time k (charges ?es (sched_view_of ?b'))"
      using Cons.IH [of "ob\<lparr>eo_bpf := ?b'\<rparr>" snaps] Cons.prems step(1,3)
      by (simp add: OpKernel maps_ok_def split Un_assoc image_Un del: charges.simps)
    then show ?thesis unfolding step(2) by (simp add: OpKernel split charged_time_def add.assoc del: charges.simps)
  next
    case OpDrain
    obtain snap ob1 where d: "drain iter_all ob = (Inr snap, ob1)"
        "es_pid_cpu_times snap = map (\<lambda>(k, t). (pck_cpu k, pck_pid k, t)) (PID_CPU_TIME (eo_bpf ob))"
        "PID_CPU_TIME (eo_bpf ob1) = []" "sched_view_of (eo_bpf ob1) = sched_view_of (eo_bpf ob)" "maps_ok ob1"
      using drain_all [OF Cons.prems(1)] .
    obtain snaps' where s: "observe ops ob1 = (snaps', ob')" "snaps = snap # snaps'"
      using Cons.prems(4) by (auto simp: OpDrain d(1) split: prod.splits)
    have "card (fst ` set (charges (kernel_events ops) (sched_view_of (eo_bpf ob)))) \<le> MAX_PID_CPU_ENTRIES"
      by (rule order_trans [OF card_mono Cons.prems(3)]) (auto simp: OpDrain finite_dom_map_of)
    then have "sum_list (map (snapshot_time k) snaps') + hm_get_or (PID_CPU_TIME (eo_bpf ob')) k 0 =
        charged_time k (charges (kernel_events ops) (sched_view_of (eo_bpf ob)))"
      using Cons.IH [OF d(5) _ _ s(1)] by (simp add: d(3,4) hm_get_or_def)
    then show ?thesis
      using snapshot_time_map [OF Cons.prems(2) d(2), of k] by (simp add: s(2) OpDrain add.assoc)
  qed
qed



text \<open>
  The drain itself reads all entries first and deletes them afterwards.  Time that a
  switch adds to an entry in between is deleted without having been reported: here
  process 7 runs for 300 ns, the drain reports 100 of them and then empties the map.
\<close>

theorem drain_race_loses_time:
  "let b = kernel_run [sample_switch 100 0 0 7, sample_switch 200 0 7 7] bpf_maps_new;
       items = map_items (io_cpu_time iter_all) (PID_CPU_TIME b);
       b' = kernel_run [sample_switch 400 0 7 0] b
   in items = [(\<lparr>pck_cpu = 0, pck_pid = 7\<rparr>, 100)] \<and>
      PID_CPU_TIME b' = [(\<lparr>pck_cpu = 0, pck_pid = 7\<rparr>, 300)] \<and>
      remove_keys (map fst items) (PID_CPU_TIME b') = []"
  by (simp add: kernel_run_def sample_switch_def sched_switch_def handle_sched_switch_def
      account_outgoing_def record_incoming_def bpf_maps_new_def sat_sub_def bpf_add_def bpf_insert_def
      MAX_PID_CPU_ENTRIES_def map_items_def iter_all_def remove_keys_def Let_def)

end
