(* ===== verification/Agent_Pods.thy ===== *)
theory Agent_Pods
  imports Agent_Proc Agent_Identity Hardware_Net Perf_Counters Ebpf_Observer Aggregator
begin

text \<open>
  Attribution of the node's power to pods in the agent (\<open>keck-agent/src/main.rs\<close>): by
  processor time from procfs, by the eBPF snapshot, and GPU power from the DCGM exporter.
  The reports are those of the controller's wire format.  Every map is iterated in the
  order of its list.  The clock is read once per report; it is the parameter \<open>now\<close>.
\<close>

definition pod_report ::
  "str \<Rightarrow> instant \<Rightarrow> (str, PodIdentity) hmap \<Rightarrow> str \<Rightarrow> u64 \<Rightarrow> u64 \<Rightarrow> u64 \<Rightarrow> u64 \<Rightarrow> PodPowerReport" where
  "pod_report node_name now pod_cache pod_uid cpu mem storage io =
     (let identity = map_of pod_cache pod_uid; field = (\<lambda>f. case identity of None \<Rightarrow> [] | Some i \<Rightarrow> f i)
      in \<lparr>ppr_node_name = node_name, ppr_pod_uid = pod_uid,
          ppr_pod_name = (case identity of Some info \<Rightarrow> pi_name info | None \<Rightarrow> pod_uid),
          ppr_namespace = (case identity of Some info \<Rightarrow> pi_namespace info | None \<Rightarrow> ''unknown''),
          ppr_cpu_uw = cpu, ppr_memory_uw = mem, ppr_gpu_uw = 0, ppr_storage_uw = storage, ppr_io_uw = io,
          ppr_total_uw = cpu + mem + storage + io, ppr_timestamp = now,
          ppr_workload_uid = field pi_workload_uid, ppr_workload_name = field pi_workload_name,
          ppr_workload_kind = field pi_workload_kind,
          ppr_workload_category = (case identity of None \<Rightarrow> ''application'' | Some i \<Rightarrow> category_str (pi_workload_category i)),
          ppr_labels = (case identity of None \<Rightarrow> [] | Some i \<Rightarrow> pi_labels i), ppr_metering_method = []\<rparr>)"

definition recalculate_total :: "PodPowerReport \<Rightarrow> PodPowerReport" where
  "recalculate_total p =
     p\<lparr>ppr_total_uw := ppr_cpu_uw p + ppr_memory_uw p + ppr_gpu_uw p + ppr_storage_uw p + ppr_io_uw p\<rparr>"

definition ratio :: "u64 \<Rightarrow> u64 \<Rightarrow> f64" where
  "ratio part whole = (if whole > 0 then f64_of_u64 part / f64_of_u64 whole else f64_lit 0)"

definition part_of :: "u64 \<Rightarrow> f64 \<Rightarrow> u64" where
  "part_of amount r = f64_to_u64 (f64_of_u64 amount * r)"

subsection \<open>By processor time from procfs\<close>

record PodMetrics =
  pdm_cpu_ticks :: u64
  pdm_pss_kb :: u64
  pdm_pgfaults :: u64
  pdm_io_bytes :: u64
  pdm_net_bytes :: u64

definition pod_metrics_zero :: PodMetrics where
  "pod_metrics_zero = \<lparr>pdm_cpu_ticks = 0, pdm_pss_kb = 0, pdm_pgfaults = 0, pdm_io_bytes = 0, pdm_net_bytes = 0\<rparr>"

definition add_process :: "ProcessMetrics \<Rightarrow> PodMetrics \<Rightarrow> PodMetrics" where
  "add_process pm entry =
     \<lparr>pdm_cpu_ticks = pdm_cpu_ticks entry + pm_cpu_ticks pm, pdm_pss_kb = pdm_pss_kb entry + pm_rss_pages pm,
      pdm_pgfaults = pdm_pgfaults entry + (pm_minflt_delta pm + pm_majflt_delta pm * 10),
      pdm_io_bytes = pdm_io_bytes entry + pm_io_bytes_delta pm, pdm_net_bytes = pdm_net_bytes entry + pm_net_bytes pm\<rparr>"

definition pod_metrics :: "ProcessMetrics list \<Rightarrow> (str, PodMetrics) hmap" where
  "pod_metrics ms = fold (\<lambda>pm. hm_upsert (pm_pod_uid pm) pod_metrics_zero (add_process pm)) ms []"

record node_power =
  nd_cpu_uw :: u64
  nd_mem_uw :: u64
  nd_storage_uw :: u64
  nd_io_uw :: u64

definition attribute_pod ::
  "str \<Rightarrow> instant \<Rightarrow> (str, PodIdentity) hmap \<Rightarrow> node_power \<Rightarrow> u64 \<Rightarrow> scan_state \<Rightarrow> u64 \<Rightarrow> str \<times> PodMetrics \<Rightarrow> PodPowerReport" where
  "attribute_pod node_name now pod_cache pwr total_llc_misses scan total_net e =
     (let (pod_uid, metrics) = e;
          has_llc = total_llc_misses > 0;
          pss_weight = (if has_llc then f64_lit (6 / 10) else f64_lit 1);
          llc_weight = (if has_llc then f64_lit (4 / 10) else f64_lit 0);
          cpu_ratio = ratio (pdm_cpu_ticks metrics) (sn_cpu_ticks scan);
          pss_ratio = ratio (pdm_pss_kb metrics) (sn_pss scan);
          llc_ratio = cpu_ratio;
          mem_ratio = pss_weight * pss_ratio + llc_weight * llc_ratio;
          disk_io_ratio = ratio (pdm_io_bytes metrics) (sn_io_bytes scan);
          net_ratio = (if total_net > 0 then f64_of_u64 (pdm_net_bytes metrics) / f64_of_u64 total_net else cpu_ratio)
      in pod_report node_name now pod_cache pod_uid (part_of (nd_cpu_uw pwr) cpu_ratio)
           (part_of (nd_mem_uw pwr) mem_ratio) (part_of (nd_storage_uw pwr) disk_io_ratio)
           (part_of (nd_io_uw pwr) net_ratio))"

definition enumerate_pods ::
  "file_system \<Rightarrow> str \<Rightarrow> instant \<Rightarrow> node_power \<Rightarrow> u64 \<Rightarrow> (str, PodIdentity) hmap \<Rightarrow> (u32, u64 \<times> u64) hmap \<Rightarrow> u64 \<Rightarrow>
     proc_caches \<Rightarrow> PodPowerReport list \<times> proc_caches" where
  "enumerate_pods fs node_name now pwr total_llc_misses pod_cache pid_net_bytes tick_count caches =
     (case proc_entries fs of
        None \<Rightarrow> ([], caches)
      | Some entries \<Rightarrow>
          let scan = scan_processes fs (tick_count mod 5 = 0) pid_net_bytes entries caches
          in if sn_metrics scan = [] then ([], sn_caches scan)
             else let total_net = sum_list (map pm_net_bytes (sn_metrics scan))
                  in (map (attribute_pod node_name now pod_cache pwr total_llc_misses scan total_net)
                        (pod_metrics (sn_metrics scan)), sn_caches scan))"

subsection \<open>By the eBPF snapshot\<close>

definition show_pid :: "u32 \<Rightarrow> str" where
  "show_pid pid = show_nat (unat pid)"

definition resolve_pid :: "file_system \<Rightarrow> u32 \<Rightarrow> (u32, str) hmap \<Rightarrow> (u32, str) hmap" where
  "resolve_pid fs pid m =
     (if map_of m pid \<noteq> None then m
      else (case pid_pod_uid fs (show_pid pid) of None \<Rightarrow> m | Some uid \<Rightarrow> AList.update pid uid m))"

definition pid_pods :: "file_system \<Rightarrow> EbpfSnapshot \<Rightarrow> (u32, str) hmap" where
  "pid_pods fs snapshot = fold (\<lambda>(_, pid, _). resolve_pid fs pid) (es_pid_cpu_times snapshot) []"

definition pod_cpu_ns :: "(u32, str) hmap \<Rightarrow> EbpfSnapshot \<Rightarrow> (str, u64) hmap" where
  "pod_cpu_ns pids snapshot =
     fold (\<lambda>(_, pid, time_ns) m.
         case map_of pids pid of None \<Rightarrow> m | Some uid \<Rightarrow> hm_upsert uid 0 (\<lambda>v. v + time_ns) m)
       (es_pid_cpu_times snapshot) []"

definition pod_sums :: "(u32 \<Rightarrow> u64) \<Rightarrow> (u32, str) hmap \<Rightarrow> (str, u64) hmap" where
  "pod_sums f pids = fold (\<lambda>(pid, uid). hm_upsert uid 0 (\<lambda>v. v + f pid)) pids []"

definition rss_of :: "file_system \<Rightarrow> u32 \<Rightarrow> u64" where
  "rss_of fs pid = (case read_rss_pages fs (show_pid pid) of None \<Rightarrow> 0 | Some v \<Rightarrow> v)"

definition pss_kb_of :: "file_system \<Rightarrow> u32 \<Rightarrow> u64" where
  "pss_kb_of fs pid = (case read_pss_kb fs (show_pid pid) of None \<Rightarrow> 0 | Some v \<Rightarrow> v)"

definition enumerate_pods_ebpf ::
  "file_system \<Rightarrow> str \<Rightarrow> instant \<Rightarrow> u64 \<Rightarrow> u64 \<Rightarrow> (str, PodIdentity) hmap \<Rightarrow> EbpfSnapshot \<Rightarrow> PodPowerReport list" where
  "enumerate_pods_ebpf fs node_name now total_cpu_uw total_mem_uw pod_cache snapshot =
     (let pids = pid_pods fs snapshot; cpu_ns = pod_cpu_ns pids snapshot;
          total_cpu_ns = sum_list (map snd cpu_ns);
          rss = pod_sums (rss_of fs) pids; total_rss = sum_list (map snd rss)
      in map (\<lambda>(uid, ns).
           pod_report node_name now pod_cache uid (part_of total_cpu_uw (ratio ns total_cpu_ns))
             (part_of total_mem_uw (ratio (hm_get_or rss uid 0) total_rss)) 0 0) cpu_ns)"

definition core_weight :: "CoreCounterDeltas list \<Rightarrow> EbpfSnapshot \<Rightarrow> (u32, f64) hmap" where
  "core_weight core_counters snapshot =
     (let by_cycles = fold (\<lambda>c m. if cd_cycles c > 0 then AList.update (cd_core_id c) (f64_of_u64 (cd_cycles c)) m else m)
                        core_counters [];
          by_freq = (if by_cycles = []
                     then fold (\<lambda>(cpu, freq_khz, time_ns).
                            hm_upsert cpu (f64_lit 0) (\<lambda>v. v + f64_sq (f64_of_u32 freq_khz / f64_lit 1000000) * f64_of_u64 time_ns))
                          (es_cpu_freq_times snapshot) []
                     else by_cycles)
      in if by_freq = []
         then fold (\<lambda>(cpu, _, time_ns). hm_upsert cpu (f64_lit 0) (\<lambda>v. v + f64_of_u64 time_ns)) (es_pid_cpu_times snapshot) []
         else by_freq)"

definition pid_weight :: "f64 \<Rightarrow> f64 \<Rightarrow> EbpfSnapshot \<Rightarrow> u32 \<Rightarrow> u32 \<times> u64 \<Rightarrow> f64" where
  "pid_weight alpha beta snapshot cpu pt =
     (let (pid, time_ns) = pt
      in if es_pid_hw_counters snapshot \<noteq> []
         then let (instr, cyc, misses) = hm_get_or (es_pid_hw_counters snapshot) (cpu, pid) (0, 0, 0);
                  ipc = ratio instr cyc; miss_ratio = ratio misses instr;
                  workload_factor = f64_lit 1 + alpha * ipc + beta * miss_ratio
              in f64_of_u64 time_ns * workload_factor
         else f64_of_u64 time_ns)"

definition core_pid_time :: "EbpfSnapshot \<Rightarrow> (u32, (u32 \<times> u64) list) hmap" where
  "core_pid_time snapshot = fold (\<lambda>(cpu, pid, time_ns). hm_push cpu (pid, time_ns)) (es_pid_cpu_times snapshot) []"

definition split_core ::
  "f64 \<Rightarrow> f64 \<Rightarrow> EbpfSnapshot \<Rightarrow> (u32, f64) hmap \<Rightarrow> (u32, str) hmap \<Rightarrow> u32 \<times> (u32 \<times> u64) list \<Rightarrow> (str, f64) hmap \<Rightarrow> (str, f64) hmap" where
  "split_core alpha beta snapshot core_energy pids cp pod_uw =
     (let (cpu, times) = cp; ce = hm_get_or core_energy cpu (f64_lit 0)
      in if ce \<le> f64_lit 0 then pod_uw
         else let weights = map (\<lambda>pt. (fst pt, pid_weight alpha beta snapshot cpu pt)) times;
                  total_weight = f64_sum (map snd weights)
              in if total_weight \<le> f64_lit 0 then pod_uw
                 else fold (\<lambda>(pid, weight) m.
                        case map_of pids pid of
                          None \<Rightarrow> m
                        | Some uid \<Rightarrow> hm_upsert uid (f64_lit 0) (\<lambda>v. v + ce * (weight / total_weight)) m) weights pod_uw)"

definition all_uids :: "str list \<Rightarrow> str list \<Rightarrow> str list" where
  "all_uids xs ys = remdups (xs @ ys)"

definition enumerate_pods_ebpf_weighted ::
  "file_system \<Rightarrow> str \<Rightarrow> instant \<Rightarrow> u64 \<Rightarrow> u64 \<Rightarrow> u64 \<Rightarrow> CoreCounterDeltas list \<Rightarrow> (str, PodIdentity) hmap \<Rightarrow>
     EbpfSnapshot \<Rightarrow> f64 \<Rightarrow> f64 \<Rightarrow> PodPowerReport list" where
  "enumerate_pods_ebpf_weighted fs node_name now total_cpu_uw total_mem_uw total_llc_misses core_counters pod_cache snapshot alpha beta =
     (let weights = core_weight core_counters snapshot; total_weight = f64_sum (map snd weights)
      in if total_weight \<le> f64_lit 0 then []
         else let core_energy = map (\<lambda>(cpu, weight). (cpu, f64_of_u64 total_cpu_uw * (weight / total_weight))) weights;
                  pids = pid_pods fs snapshot;
                  pod_uw = fold (split_core alpha beta snapshot core_energy pids) (core_pid_time snapshot) [];
                  pss = pod_sums (pss_kb_of fs) pids;
                  total_pss = sum_list (map (\<lambda>(pid, _). pss_kb_of fs pid) pids);
                  total_pod_cpu = f64_sum (map snd pod_uw)
              in map (\<lambda>uid.
                   let cpu_uw = hm_get_or pod_uw uid (f64_lit 0);
                       pss_ratio = ratio (hm_get_or pss uid 0) total_pss;
                       llc_ratio = (if f64_lit 0 < total_pod_cpu then cpu_uw / total_pod_cpu else f64_lit 0);
                       mem_ratio = (if total_llc_misses > 0 then f64_lit (6 / 10) * pss_ratio + f64_lit (4 / 10) * llc_ratio
                                    else pss_ratio)
                   in pod_report node_name now pod_cache uid (f64_to_u64 cpu_uw) (part_of total_mem_uw mem_ratio) 0 0)
                 (all_uids (map fst pod_uw) (map fst pss)))"

text \<open>The figures of the snapshot replace those of the scan, pod by pod.\<close>

definition merge_ebpf :: "PodPowerReport list \<Rightarrow> PodPowerReport list \<Rightarrow> PodPowerReport list" where
  "merge_ebpf ebpf_pods pods =
     (let ebpf_map = fold (\<lambda>p. AList.update (ppr_pod_uid p) (ppr_cpu_uw p, ppr_memory_uw p)) ebpf_pods []
      in map (\<lambda>pod.
           case map_of ebpf_map (ppr_pod_uid pod) of
             None \<Rightarrow> pod
           | Some (ebpf_cpu, ebpf_mem) \<Rightarrow>
               recalculate_total (pod\<lparr>ppr_cpu_uw := ebpf_cpu, ppr_memory_uw := ebpf_mem\<rparr>)) pods)"

subsection \<open>GPU power\<close>

definition add_gpu_uw :: "u64 \<Rightarrow> PodPowerReport \<Rightarrow> PodPowerReport" where
  "add_gpu_uw gpu_uw p = recalculate_total (p\<lparr>ppr_gpu_uw := ppr_gpu_uw p + gpu_uw\<rparr>)"

fun update_first :: "('a \<Rightarrow> bool) \<Rightarrow> ('a \<Rightarrow> 'a) \<Rightarrow> 'a list \<Rightarrow> 'a list option" where
  "update_first P f [] = None"
| "update_first P f (x # xs) = (if P x then Some (f x # xs) else map_option ((#) x) (update_first P f xs))"

definition add_gpu_line ::
  "str \<Rightarrow> instant \<Rightarrow> (str, PodIdentity) hmap \<Rightarrow> str \<Rightarrow> PodPowerReport list \<Rightarrow> PodPowerReport list" where
  "add_gpu_line node_name now pod_cache line pods =
     (if \<not> starts_with line power_usage then pods
      else if (case extract_label line ''Hostname'' of None \<Rightarrow> False | Some h \<Rightarrow> h \<noteq> node_name) then pods
      else (case extract_label line ''pod'' of
              None \<Rightarrow> pods
            | Some name \<Rightarrow>
                if name = [] then pods
                else let namespace = or_default (extract_label line ''namespace'');
                         watts = (case Option.bind (rsplit_once (CHR '' '') line) (\<lambda>(_, v). parse_f64 v) of
                                    None \<Rightarrow> f64_lit 0 | Some w \<Rightarrow> w)
                     in if watts \<le> f64_lit 0 then pods
                        else let gpu_uw = f64_to_u64 (watts * f64_lit 1000000)
                             in (case update_first (\<lambda>p. ppr_pod_name p = name \<and> ppr_namespace p = namespace) (add_gpu_uw gpu_uw) pods of
                                   Some pods' \<Rightarrow> pods'
                                 | None \<Rightarrow>
                                     (case find (\<lambda>(_, info). pi_name info = name \<and> pi_namespace info = namespace) pod_cache of
                                        None \<Rightarrow> pods
                                      | Some (uid, identity) \<Rightarrow>
                                          pods @ [\<lparr>ppr_node_name = node_name, ppr_pod_uid = uid, ppr_pod_name = name,
                                            ppr_namespace = namespace, ppr_cpu_uw = 0, ppr_memory_uw = 0, ppr_gpu_uw = gpu_uw,
                                            ppr_storage_uw = 0, ppr_io_uw = 0, ppr_total_uw = gpu_uw, ppr_timestamp = now,
                                            ppr_workload_uid = pi_workload_uid identity, ppr_workload_name = pi_workload_name identity,
                                            ppr_workload_kind = pi_workload_kind identity,
                                            ppr_workload_category = category_str (pi_workload_category identity),
                                            ppr_labels = pi_labels identity, ppr_metering_method = []\<rparr>]))))"

definition add_gpu_power_to_pods ::
  "file_system \<Rightarrow> http \<Rightarrow> env_vars \<Rightarrow> str \<Rightarrow> instant \<Rightarrow> (str, PodIdentity) hmap \<Rightarrow> PodPowerReport list \<Rightarrow> PodPowerReport list" where
  "add_gpu_power_to_pods fs http env node_name now pod_cache pods =
     (case dcgm_url fs http env of
        None \<Rightarrow> pods
      | Some url \<Rightarrow>
          (case http url NoAuth of
             Inl _ \<Rightarrow> pods
           | Inr resp \<Rightarrow>
               (case hr_text resp of
                  Inl _ \<Rightarrow> pods
                | Inr body \<Rightarrow> fold (add_gpu_line node_name now pod_cache) (lines body) pods)))"

end
