(* ===== verification/Tuner.thy ===== *)
theory Tuner
  imports Hash_Map Rust_Parse
begin

text \<open>
  The online tuner of the attribution coefficients (\<open>keck-agent/src/attribution/tuner.rs\<close>),
  in binary64 arithmetic.  The learning rate is read from the environment.
\<close>

subsection \<open>Square roots\<close>

function isqrt_search :: "int \<Rightarrow> int \<Rightarrow> int \<Rightarrow> int" where
  "isqrt_search lo hi n =
     (if hi - lo \<le> 1 then lo
      else let mid = (lo + hi) div 2 in if mid * mid \<le> n then isqrt_search mid hi n else isqrt_search lo mid n)"
  by pat_completeness auto

termination by (relation "measure (\<lambda>(lo, hi, _). nat (hi - lo))") auto

declare isqrt_search.simps [simp del]

definition isqrt :: "int \<Rightarrow> int" where
  "isqrt n = isqrt_search 0 (n + 1) n"

text \<open>
  The root is computed to about sixty bits with a sticky bit for the rest, and rounded
  once, so the result is the correctly rounded root.
\<close>

definition f64_sqrt :: "f64 \<Rightarrow> f64" where
  "f64_sqrt x =
     (case x of
        NaN \<Rightarrow> NaN | NInf \<Rightarrow> NaN | PInf \<Rightarrow> PInf
      | Fin q \<Rightarrow>
          if q < 0 then NaN
          else if q = 0 then Fin 0
          else let k = 60 - ilog2_rat q div 2; m = q * 4 powi k; s = isqrt \<lfloor>m\<rfloor>
               in rnd ((of_int s + (if of_int (s * s) = m then 0 else 1 / 2)) / 2 powi k))"

lemma isqrt_search_correct:
  "lo * lo \<le> n \<Longrightarrow> n < hi * hi \<Longrightarrow> 0 \<le> lo \<Longrightarrow> lo < hi \<Longrightarrow>
   (let s = isqrt_search lo hi n in 0 \<le> s \<and> s * s \<le> n \<and> n < (s + 1) * (s + 1))"
proof (induction lo hi n rule: isqrt_search.induct)
  case (1 lo hi n)
  show ?case
  proof (cases "hi - lo \<le> 1")
    case True
    then have hi: "hi = lo + 1" using "1.prems" by simp
    show ?thesis using "1.prems" unfolding hi by (simp add: isqrt_search.simps [of lo "lo + 1" n])
  next
    case False
    then have "lo < (lo + hi) div 2" "(lo + hi) div 2 < hi" "0 \<le> (lo + hi) div 2" using "1.prems" by auto
    then show ?thesis using False "1.prems" "1.IH" by (simp add: isqrt_search.simps [of lo hi n] Let_def)
  qed
qed

lemma isqrt_correct: "0 \<le> n \<Longrightarrow> 0 \<le> isqrt n \<and> isqrt n * isqrt n \<le> n \<and> n < (isqrt n + 1) * (isqrt n + 1)"
proof -
  assume n: "0 \<le> n"
  then have "0 \<le> n * n" by simp
  then have "n < (n + 1) * (n + 1)" unfolding distrib_right distrib_left using n by linarith
  with n show ?thesis using isqrt_search_correct [of 0 n "n + 1"] by (simp add: isqrt_def Let_def)
qed

subsection \<open>The tuner\<close>

record CoefficientTuner =
  tu_alpha :: f64
  tu_beta :: f64
  tu_learning_rate :: f64
  tu_alpha_grad_ema :: f64
  tu_beta_grad_ema :: f64
  tu_ema_decay :: f64
  tu_min_ipc_diversity :: f64
  tu_updates :: u64
  tu_qualifying_cores :: u64
  tu_last_logged_alpha :: f64
  tu_last_logged_beta :: f64

record PidObs =
  po_time_ns :: u64
  po_ipc :: f64
  po_miss_ratio :: f64
  po_cycles :: f64

definition tuner_new :: "str option \<Rightarrow> f64 \<Rightarrow> f64 \<Rightarrow> CoefficientTuner" where
  "tuner_new rate_var alpha beta =
     \<lparr>tu_alpha = alpha, tu_beta = beta,
      tu_learning_rate = (case Option.bind rate_var parse_f64 of None \<Rightarrow> f64_lit (1 / 1000) | Some lr \<Rightarrow> lr),
      tu_alpha_grad_ema = f64_lit 0, tu_beta_grad_ema = f64_lit 0, tu_ema_decay = f64_lit (9 / 10),
      tu_min_ipc_diversity = f64_lit 2, tu_updates = 0, tu_qualifying_cores = 0,
      tu_last_logged_alpha = alpha, tu_last_logged_beta = beta\<rparr>"

definition tuner_current :: "CoefficientTuner \<Rightarrow> f64 \<times> f64" where
  "tuner_current t = (tu_alpha t, tu_beta t)"

definition consistency_error :: "PidObs list \<Rightarrow> f64 \<Rightarrow> f64 \<Rightarrow> f64" where
  "consistency_error pids alpha beta =
     (let weights = map (\<lambda>p. f64_of_u64 (po_time_ns p) * (f64_lit 1 + alpha * po_ipc p + beta * po_miss_ratio p)) pids;
          total_weight = f64_sum weights
      in if total_weight \<le> f64_lit 0 then f64_lit 0
         else let total_cycles = f64_sum (map po_cycles pids);
                  epc = map (\<lambda>(p, w). w / total_weight * total_cycles / po_cycles p) (zip pids weights);
                  n = rnd (of_nat (length epc));
                  mean = f64_sum epc / n
              in if mean \<le> f64_lit 0 then f64_lit 0
                 else f64_sqrt (f64_sum (map (\<lambda>e. f64_sq (e - mean)) epc) / n) / mean)"

definition observe_pid ::
  "(u32 \<times> u32, u64 \<times> u64 \<times> u64) hmap \<Rightarrow> u32 \<times> u32 \<times> u64 \<Rightarrow> (u32, PidObs list) hmap \<Rightarrow> (u32, PidObs list) hmap" where
  "observe_pid pid_hw_counters cpt m =
     (let (cpu, pid, time_ns) = cpt; (instr, cycles, misses) = hm_get_or pid_hw_counters (cpu, pid) (0, 0, 0)
      in if time_ns = 0 \<or> cycles = 0 then m
         else hm_push cpu \<lparr>po_time_ns = time_ns, po_ipc = f64_of_u64 instr / f64_of_u64 cycles,
                po_miss_ratio = (if instr > 0 then f64_of_u64 misses / f64_of_u64 instr else f64_lit 0),
                po_cycles = f64_of_u64 cycles\<rparr> m)"

definition core_gradient :: "CoefficientTuner \<Rightarrow> PidObs list \<Rightarrow> f64 \<times> f64 \<times> u64 \<Rightarrow> f64 \<times> f64 \<times> u64" where
  "core_gradient t pids acc =
     (let (total_d_alpha, total_d_beta, qualifying) = acc;
          max_ipc = foldl f64_max (f64_lit 0) (map po_ipc pids);
          min_ipc = foldl f64_min PInf (map po_ipc pids)
      in if length pids < 2 then acc
         else if min_ipc \<le> f64_lit 0 \<or> max_ipc / min_ipc < tu_min_ipc_diversity t then acc
         else let err = consistency_error pids (tu_alpha t) (tu_beta t);
                  eps = f64_lit (1 / 100);
                  err_da = consistency_error pids (tu_alpha t + eps) (tu_beta t);
                  err_db = consistency_error pids (tu_alpha t) (tu_beta t + eps)
              in (total_d_alpha + (err_da - err) / eps, total_d_beta + (err_db - err) / eps, qualifying + 1))"

definition apply_gradient :: "f64 \<times> f64 \<times> u64 \<Rightarrow> CoefficientTuner \<Rightarrow> CoefficientTuner" where
  "apply_gradient grad t =
     (let (total_d_alpha, total_d_beta, qualifying) = grad;
          d_alpha = total_d_alpha / f64_of_u64 qualifying;
          d_beta = total_d_beta / f64_of_u64 qualifying;
          alpha_ema = tu_ema_decay t * tu_alpha_grad_ema t + (f64_lit 1 - tu_ema_decay t) * d_alpha;
          beta_ema = tu_ema_decay t * tu_beta_grad_ema t + (f64_lit 1 - tu_ema_decay t) * d_beta;
          alpha = f64_clamp (tu_alpha t - tu_learning_rate t * alpha_ema) (f64_lit (5 / 100)) (f64_lit 2);
          beta = f64_clamp (tu_beta t - tu_learning_rate t * beta_ema) (f64_lit (1 / 100)) (f64_lit 10);
          t' = t\<lparr>tu_alpha_grad_ema := alpha_ema, tu_beta_grad_ema := beta_ema, tu_alpha := alpha, tu_beta := beta,
                 tu_updates := tu_updates t + 1, tu_qualifying_cores := tu_qualifying_cores t + qualifying\<rparr>;
          alpha_change = \<bar>alpha - tu_last_logged_alpha t\<bar> / tu_last_logged_alpha t;
          beta_change = \<bar>beta - tu_last_logged_beta t\<bar> / tu_last_logged_beta t
      in if alpha_change > f64_lit (5 / 100) \<or> beta_change > f64_lit (5 / 100)
         then t'\<lparr>tu_last_logged_alpha := alpha, tu_last_logged_beta := beta\<rparr>
         else t')"

definition tuner_update ::
  "(u32 \<times> u32, u64 \<times> u64 \<times> u64) hmap \<Rightarrow> (u32 \<times> u32 \<times> u64) list \<Rightarrow> CoefficientTuner \<Rightarrow> CoefficientTuner" where
  "tuner_update pid_hw_counters pid_cpu_times t =
     (if pid_hw_counters = [] \<or> pid_cpu_times = [] then t
      else let core_pids = fold (observe_pid pid_hw_counters) pid_cpu_times [];
               grad = fold (core_gradient t) (map snd core_pids) (f64_lit 0, f64_lit 0, 0)
           in if snd (snd grad) = 0 then t else apply_gradient grad t)"

subsection \<open>The coefficients stay in their range\<close>

definition coefficient_ok :: "rat \<Rightarrow> rat \<Rightarrow> f64 \<Rightarrow> bool" where
  "coefficient_ok lo hi x \<longleftrightarrow> x = NaN \<or> (f64_lit lo \<le> x \<and> x \<le> f64_lit hi)"

lemma clamp_ok:
  assumes "f64_lit lo = Fin a" and "f64_lit hi = Fin b" and "a \<le> b"
  shows "coefficient_ok lo hi (f64_clamp x (f64_lit lo) (f64_lit hi))"
  using assms by (cases x) (auto simp: coefficient_ok_def f64_clamp_def less_eq_f64_def less_f64_def)

lemma apply_gradient_ok:
  "coefficient_ok (5 / 100) 2 (tu_alpha (apply_gradient grad t))" (is ?a)
  "coefficient_ok (1 / 100) 10 (tu_beta (apply_gradient grad t))" (is ?b)
  "tu_learning_rate (apply_gradient grad t) = tu_learning_rate t"
proof -
  have l: "\<exists>a. f64_lit q = Fin a \<and> q - 1 / 200 \<le> a \<and> a \<le> q + 1 / 200" if q: "0 < q" "q \<le> 16" for q
  proof -
    have "q \<le> 2 powi 4" using q by (simp add: power_int_def)
    then obtain r where r: "rnd q = Fin r"
      using bounded_f64_rnd [of q 4] q(1) by (auto elim: bounded_f64E)
    have "\<bar>r - q\<bar> \<le> 16 * 2 powi (- 53)" using rnd_abs_error [OF _ q(2) _ r] q(1) by simp
    also have "\<dots> \<le> (1 / 200 :: rat)" by (simp add: power_int_minus)
    finally have "q - 1 / 200 \<le> r" "r \<le> q + 1 / 200" by linarith+
    then show ?thesis using r by (simp add: f64_lit_def)
  qed
  obtain a where a: "f64_lit (5 / 100) = Fin a" "a \<le> 5 / 100 + 1 / 200" using l [of "5 / 100"] by auto
  obtain b where b: "f64_lit 2 = Fin b" "2 - 1 / 200 \<le> b" using l [of 2] by auto
  obtain c where c: "f64_lit (1 / 100) = Fin c" "c \<le> 1 / 100 + 1 / 200" using l [of "1 / 100"] by auto
  obtain d where d: "f64_lit 10 = Fin d" "10 - 1 / 200 \<le> d" using l [of 10] by auto
  have "coefficient_ok (5 / 100) 2 (f64_clamp x (f64_lit (5 / 100)) (f64_lit 2))" for x
    using a b by (intro clamp_ok [OF a(1) b(1)]) linarith
  then show ?a by (auto simp: apply_gradient_def Let_def case_prod_unfold)
  have "coefficient_ok (1 / 100) 10 (f64_clamp x (f64_lit (1 / 100)) (f64_lit 10))" for x
    using c d by (intro clamp_ok [OF c(1) d(1)]) linarith
  then show ?b by (auto simp: apply_gradient_def Let_def case_prod_unfold)
  show "tu_learning_rate (apply_gradient grad t) = tu_learning_rate t"
    by (auto simp: apply_gradient_def Let_def case_prod_unfold)
qed


end
