(* ===== verification/Agent.thy ===== *)
theory Agent
  imports Agent_Sources Agent_Pods Tuner
begin

text \<open>
  One round of the agent's collection loop (\<open>main\<close> in \<open>keck-agent/src/main.rs\<close>), as a
  function of the state the loop carries and of what the round reads from outside: files,
  HTTP, the environment, counters, the kernel's maps and the Kubernetes API.  Clock
  readings of one round are one instant.  Sending the report and the health flag follow.
\<close>

record agent_config =
  cf_node_name :: str
  cf_interval_ns :: u64
  cf_sources :: "power_source list"
  cf_exact_labels :: "str list"
  cf_prefix_labels :: "str list"
  cf_operator_namespaces :: "str set"
  cf_api_key :: "str option"

record agent_state =
  ag_prev_readings :: "(str, u64) hmap"
  ag_caches :: proc_caches
  ag_tick_count :: u64
  ag_pod_cache :: "(str, PodIdentity) hmap"
  ag_owner_cache :: "(str, OwnerMapping) hmap"
  ag_last_pod_refresh :: instant
  ag_observer :: "EbpfObserver option"
  ag_counters :: "HwCounterReader option"
  ag_tuner :: "CoefficientTuner option"
  ag_healthy :: bool

record agent_inputs =
  in_now :: instant
  in_fs :: file_system
  in_http :: http
  in_env :: env_vars
  in_read_counter :: "perf_event \<Rightarrow> u32 \<Rightarrow> u64 option"
  in_iter :: IterOk
  in_proc_exists :: "u32 \<Rightarrow> bool"
  in_owners :: owners_of
  in_listed :: "k8s_pod list option"

definition get_node_name :: "file_system \<Rightarrow> env_vars \<Rightarrow> str" where
  "get_node_name fs env =
     (case env ''NODE_NAME'' of
        Some n \<Rightarrow> n
      | None \<Rightarrow> (case env ''HOSTNAME'' of
                   Some n \<Rightarrow> n
                 | None \<Rightarrow> (case fs_read fs ''/etc/hostname'' of Some s \<Rightarrow> trim s | None \<Rightarrow> ''unknown'')))"

definition env_f64 :: "env_vars \<Rightarrow> str \<Rightarrow> rat \<Rightarrow> f64" where
  "env_f64 env var d = (case Option.bind (env var) parse_f64 of Some v \<Rightarrow> v | None \<Rightarrow> f64_lit d)"

definition init_tuner :: "env_vars \<Rightarrow> CoefficientTuner option" where
  "init_tuner env =
     (if env ''KECK_AUTO_TUNE'' = Some ''true''
      then Some (tuner_new (env ''KECK_TUNE_LEARNING_RATE'') (env_f64 env ''KECK_ALPHA'' (3 / 10)) (env_f64 env ''KECK_BETA'' (3 / 2)))
      else None)"

definition refresh_due :: "agent_config \<Rightarrow> agent_inputs \<Rightarrow> agent_state \<Rightarrow> agent_state" where
  "refresh_due cfg inp st =
     (if 30 * 1000000000 \<le> in_now inp - ag_last_pod_refresh st
      then let (pods, owners) = refresh_pod_cache (in_owners inp) (cf_exact_labels cfg) (cf_prefix_labels cfg)
                 (cf_operator_namespaces cfg) (in_listed inp) (ag_pod_cache st, ag_owner_cache st)
           in st\<lparr>ag_pod_cache := pods, ag_owner_cache := owners, ag_last_pod_refresh := in_now inp\<rparr>
      else st)"

definition read_counters :: "agent_inputs \<Rightarrow> agent_state \<Rightarrow> CoreCounterDeltas list \<times> agent_state" where
  "read_counters inp st =
     (case ag_counters st of
        None \<Rightarrow> ([], st)
      | Some r \<Rightarrow> let (deltas, r') = read_deltas (in_read_counter inp) r in (deltas, st\<lparr>ag_counters := Some r'\<rparr>))"

definition drain_maps :: "agent_inputs \<Rightarrow> agent_state \<Rightarrow> EbpfSnapshot option \<times> agent_state" where
  "drain_maps inp st =
     (case ag_observer st of
        None \<Rightarrow> (None, st)
      | Some ob \<Rightarrow> let (res, ob') = drain (in_iter inp) ob in (result_ok res, st\<lparr>ag_observer := Some ob'\<rparr>))"

definition feed_tuner :: "EbpfSnapshot option \<Rightarrow> agent_state \<Rightarrow> agent_state" where
  "feed_tuner snapshot st =
     (case (ag_tuner st, snapshot) of
        (Some t, Some s) \<Rightarrow> st\<lparr>ag_tuner := Some (tuner_update (es_pid_hw_counters s) (es_pid_cpu_times s) t)\<rparr>
      | _ \<Rightarrow> st)"

definition coefficients :: "env_vars \<Rightarrow> agent_state \<Rightarrow> f64 \<times> f64" where
  "coefficients env st =
     (case ag_tuner st of
        Some t \<Rightarrow> tuner_current t
      | None \<Rightarrow> (env_f64 env ''KECK_ALPHA'' (3 / 10), env_f64 env ''KECK_BETA'' (3 / 2)))"

definition override_by_ebpf ::
  "agent_config \<Rightarrow> agent_inputs \<Rightarrow> collected \<Rightarrow> CoreCounterDeltas list \<Rightarrow> EbpfSnapshot option \<Rightarrow> agent_state \<Rightarrow>
     PodPowerReport list \<Rightarrow> PodPowerReport list" where
  "override_by_ebpf cfg inp c core_counters snapshot st pods =
     (case snapshot of
        Some s \<Rightarrow>
          if type_or_none (co_cpu c) = ''estimated'' \<and> es_pid_cpu_times s \<noteq> []
          then let (alpha, beta) = coefficients (in_env inp) st;
                   ebpf_pods = enumerate_pods_ebpf_weighted (in_fs inp) (cf_node_name cfg) (in_now inp) (power_or_0 (co_cpu c))
                     (power_or_0 (co_mem c)) (sum_list (map cd_cache_misses core_counters)) core_counters (ag_pod_cache st) s alpha beta
               in if ebpf_pods \<noteq> [] then merge_ebpf ebpf_pods pods else pods
          else pods
      | None \<Rightarrow> pods)"

definition end_of_tick :: "agent_inputs \<Rightarrow> agent_state \<Rightarrow> agent_state" where
  "end_of_tick inp st =
     (let tick_count = ag_tick_count st + 1; st' = st\<lparr>ag_tick_count := tick_count\<rparr>
      in if tick_count mod 30 = 0
         then st'\<lparr>ag_caches := cleanup_stale_pids (in_fs inp) (ag_caches st),
                  ag_observer := map_option (\<lambda>ob. snd (cleanup_dead_pids (in_iter inp) (in_proc_exists inp) ob)) (ag_observer st)\<rparr>
         else st')"

definition node_report :: "agent_config \<Rightarrow> agent_inputs \<Rightarrow> collected \<Rightarrow> PodPowerReport list \<Rightarrow> NodePowerReport" where
  "node_report cfg inp c pods =
     \<lparr>npr_node_name = cf_node_name cfg, npr_cpu_uw = power_or_0 (co_cpu c), npr_memory_uw = power_or_0 (co_mem c),
      npr_gpu_uw = power_or_0 (co_gpu c), npr_platform_uw = map_option cr_power_uw (co_platform c),
      npr_psu_output_uw = psu_output_uw c, npr_idle_uw = idle_uw c, npr_error_ratio = node_error_ratio c,
      npr_pod_count = of_nat (length pods), npr_process_count = count_processes (in_fs inp), npr_timestamp = in_now inp,
      npr_cpu_source = source_or_none (co_cpu c), npr_memory_source = source_or_none (co_mem c),
      npr_cpu_reading_type = type_or_none (co_cpu c), npr_sources = sources_status (cf_node_name cfg) c,
      npr_metering_method = []\<rparr>"

definition agent_round :: "agent_config \<Rightarrow> agent_inputs \<Rightarrow> agent_state \<Rightarrow> AgentReport \<times> agent_state" where
  "agent_round cfg inp st0 =
     (let st1 = refresh_due cfg inp st0;
          c = collect_sources (cf_interval_ns cfg) (source_read (in_fs inp) (in_http inp) (in_env inp) (in_now inp))
                (cf_sources cfg) (ag_prev_readings st1);
          (core_counters, st2) = read_counters inp (st1\<lparr>ag_prev_readings := co_prev_readings c\<rparr>);
          (snapshot, st3) = drain_maps inp st2;
          st4 = feed_tuner snapshot st3;
          net_bytes = (case snapshot of None \<Rightarrow> [] | Some s \<Rightarrow> es_pid_net_bytes s);
          (pods1, caches) = enumerate_pods (in_fs inp) (cf_node_name cfg) (in_now inp)
            \<lparr>nd_cpu_uw = power_or_0 (co_cpu c), nd_mem_uw = power_or_0 (co_mem c),
             nd_storage_uw = power_or_0 (co_storage c), nd_io_uw = power_or_0 (co_io c)\<rparr>
            (sum_list (map cd_cache_misses core_counters)) (ag_pod_cache st4) net_bytes (ag_tick_count st4) (ag_caches st4);
          st5 = st4\<lparr>ag_caches := caches\<rparr>;
          pods2 = override_by_ebpf cfg inp c core_counters snapshot st5 pods1;
          pods3 = (if power_or_0 (co_gpu c) > 0
                   then add_gpu_power_to_pods (in_fs inp) (in_http inp) (in_env inp) (cf_node_name cfg) (in_now inp) (ag_pod_cache st5) pods2
                   else pods2)
      in (\<lparr>ar_node = node_report cfg inp c pods3, ar_pods = pods3\<rparr>, end_of_tick inp st5))"

text \<open>The authorization header of the request, and the health flag after the response.\<close>

definition report_header :: "agent_config \<Rightarrow> str option" where
  "report_header cfg = map_option (\<lambda>key. ''Bearer '' @ key) (cf_api_key cfg)"

definition after_send :: "bool \<Rightarrow> agent_state \<Rightarrow> agent_state" where
  "after_send success st = (if success then st\<lparr>ag_healthy := True\<rparr> else st)"

end
