(* ===== verification/Agent_Conservation.thy ===== *)
theory Agent_Conservation
  imports Agent Apportion
begin

text \<open>
  The pods of one scan never receive more than the node's power, in spite of the
  rounding of the binary64 ratios, and every pod is reported once.
\<close>

subsection \<open>Ratios of parts to a whole\<close>

lemma repr_1: "repr 1"
  using repr_of_int [of 1] by simp

lemma ratio_value:
  assumes "unat t \<le> unat T"
  obtains r where "ratio t T = Fin r" and "0 \<le> r" and "r \<le> 1"
    and "0 < T \<Longrightarrow> r \<le> val (f64_of_u64 t) / val (f64_of_u64 T) + uro" and "T = 0 \<Longrightarrow> r = 0"
proof (cases "T = 0")
  case True
  then show ?thesis using that [of 0] by (simp add: ratio_def)
next
  case False
  then have T: "0 < T" by (simp add: word_neq_0_conv)
  then obtain b where b: "f64_of_u64 T = Fin b" "1 \<le> b" by (rule f64_of_u64_ge1)
  let ?a = "val (f64_of_u64 t)"
  have a: "f64_of_u64 t = Fin ?a" "0 \<le> ?a" by (rule f64_of_u64_val)+
  have "?a \<le> b" using f64_of_u64_mono [of t T] assms b(1) by (simp add: unat_simps val_def)
  then have q: "0 \<le> ?a / b" "?a / b \<le> 1" using a(2) b(2) by (simp_all add: divide_le_eq)
  obtain r where r: "rnd (?a / b) = Fin r" "0 \<le> r" "r \<le> 1" using rnd_le_Fin [OF q repr_1] .
  have "\<bar>r - ?a / b\<bar> \<le> uro" using rnd_abs_error [OF q _ r(1)] by (simp add: uro_def)
  then have "r \<le> ?a / b + uro" by linarith
  moreover have "f64_of_u64 t / Fin b = Fin r" using b(2) r(1) by (subst a(1)) simp
  then have "ratio t T = Fin r" using T b(1) by (simp add: ratio_def)
  ultimately show ?thesis using that [of r] r(2,3) b(1) False by (simp add: val_def)
qed

lemma val_ratio:
  assumes "unat t \<le> unat T"
  shows "ratio t T = Fin (val (ratio t T))" and "0 \<le> val (ratio t T)" and "val (ratio t T) \<le> 1"
    and "0 < T \<Longrightarrow> val (ratio t T) \<le> val (f64_of_u64 t) / val (f64_of_u64 T) + uro"
    and "T = 0 \<Longrightarrow> val (ratio t T) = 0"
  by (rule ratio_value [OF assms]; simp add: val_def)+

text \<open>The ratios add up to one, up to a rounding error per part.\<close>

lemma sum_ratios:
  assumes "sum_list (map unat ts) \<le> unat T"
  shows "sum_list (map (\<lambda>t. val (ratio t T)) ts) \<le> 1 + (of_nat (length ts) + 3) * uro"
proof (cases "T = 0")
  case True
  have "unat t \<le> unat T" if "t \<in> set ts" for t
    using member_le_sum_list_nat [OF that, of unat] assms by simp
  then have "map (\<lambda>t. val (ratio t T)) ts = map (\<lambda>_. 0) ts" using True val_ratio(5) by (intro map_cong) auto
  then have "sum_list (map (\<lambda>t. val (ratio t T)) ts) = 0" by (simp only: sum_list_0)
  also have "0 \<le> 1 + (of_nat (length ts) + 3) * uro" by (simp add: add_nonneg_nonneg)
  finally show ?thesis .
next
  case False
  then have T: "0 < T" by (simp add: word_neq_0_conv)
  have le: "unat t \<le> unat T" if "t \<in> set ts" for t
    using member_le_sum_list_nat [OF that, of unat] assms by simp
  define b where "b = val (f64_of_u64 T)"
  define S :: rat where "S = of_nat (sum_list (map unat ts))"
  define N :: rat where "N = of_nat (unat T)"
  define V where "V = sum_list (map (\<lambda>t. val (f64_of_u64 t)) ts)"
  have S: "S \<le> N" unfolding S_def N_def using assms by (simp only: of_nat_le_iff)
  have S0: "0 \<le> S" unfolding S_def by (rule of_nat_0_le_iff)
  have N: "1 \<le> N" unfolding N_def using False by (simp add: unat_gt_0 Suc_le_eq del: of_nat_unat)
  have "\<bar>b - N\<bar> \<le> N * uro" unfolding b_def N_def by (rule f64_of_u64_val)
  then have b: "N - N * uro \<le> b" by linarith
  have "\<bar>V - S\<bar> \<le> S * uro" unfolding V_def S_def by (rule sum_val_error)
  then have "V \<le> S + S * uro" by linarith
  also have "\<dots> \<le> N + N * uro" using S by (intro add_mono mult_right_mono) simp_all
  finally have V: "V \<le> N + N * uro" .
  have small: "0 < N - N * uro" using N uro_le_half mult_left_mono [OF uro_le_half, of N] by linarith
  then have b0: "0 < b" using b by linarith
  have "3 * uro \<le> 1" unfolding uro_eq by simp
  then have "(1 + uro) \<le> (1 - uro) * (1 + 3 * uro)" using mult_right_mono [of "3 * uro" 1 uro] by (simp add: algebra_simps)
  from mult_left_mono [OF this, of N] have "N + N * uro \<le> (N - N * uro) * (1 + 3 * uro)" using N by (simp add: algebra_simps)
  also have "\<dots> \<le> b * (1 + 3 * uro)" using b by (intro mult_right_mono) simp_all
  finally have Vb: "V / b \<le> 1 + 3 * uro" using V b0 by (simp add: divide_le_eq mult.commute)
  have "sum_list (map (\<lambda>t. val (ratio t T)) us) \<le> sum_list (map (\<lambda>t. val (f64_of_u64 t)) us) / b + of_nat (length us) * uro"
    if "set us \<subseteq> set ts" for us
    using that
  proof (induction us)
    case (Cons u us)
    have "val (ratio u T) \<le> val (f64_of_u64 u) / b + uro" using val_ratio(4) [OF le T] Cons.prems by (simp add: b_def)
    with Cons show ?case by (simp add: add_divide_distrib algebra_simps)
  qed simp
  from this [of ts] Vb show ?thesis by (simp add: V_def [symmetric] algebra_simps)
qed

subsection \<open>Distributing an amount by weights\<close>

lemma part_of_le:
  assumes "0 \<le> v" and "v \<le> 2" and "unat amount < 2 ^ 50"
  shows "of_nat (unat (part_of amount (Fin v))) \<le> (of_nat (unat amount) * v + 2 * of_nat (unat amount) * uro :: rat)"
proof -
  define e :: rat where "e = of_nat (unat amount)"
  have e: "f64_of_u64 amount = Fin e" unfolding e_def using assms(3) by (intro f64_of_u64_exact) simp
  have e0: "0 \<le> e" unfolding e_def by (rule of_nat_0_le_iff)
  have "e \<le> of_nat (2 ^ 50)" unfolding e_def using assms(3) by (subst of_nat_le_iff) simp
  then have e50: "e \<le> 2 ^ 50" by simp
  have ev: "0 \<le> e * v" "e * v \<le> 2 * e" using e0 assms(1,2) mult_left_mono [OF assms(2) e0] by simp_all
  have "2 * e \<le> 2 powi 51" using e50 by (simp add: power_int_def)
  with ev(2) have "e * v \<le> 2 powi 51" by (rule order_trans)
  with ev(1) have "bounded_f64 51 (rnd (e * v))" by (intro bounded_f64_rnd) simp_all
  then obtain p where p: "rnd (e * v) = Fin p" "0 \<le> p" "p \<le> 2 powi 51" by (rule bounded_f64E)
  have err: "p \<le> e * v + 2 * e * uro"
  proof (cases "unat amount = 0")
    case True
    then show ?thesis using p by (simp add: e_def)
  next
    case False
    then have "1 \<le> 2 * e" unfolding e_def by (simp del: of_nat_unat)
    from rnd_abs_error [OF ev this p(1)] show ?thesis unfolding uro_def [symmetric] by linarith
  qed
  have "p < 2 ^ 64" using p(3) by (rule order_le_less_trans) (simp add: power_int_def)
  from unat_f64_to_u64 [OF p(2) this] have "int (unat (part_of amount (Fin v))) = \<lfloor>p\<rfloor>"
    by (simp add: part_of_def e p(1))
  then have "of_nat (unat (part_of amount (Fin v))) = (of_int \<lfloor>p\<rfloor> :: rat)" by (metis of_int_of_nat_eq)
  also have "\<dots> \<le> e * v + 2 * e * uro" using of_int_floor_le err by (rule order_trans)
  finally show ?thesis by (simp add: e_def)
qed

lemma parts_conserve:
  assumes "\<And>v. v \<in> set vs \<Longrightarrow> 0 \<le> v \<and> v \<le> 2"
    and "sum_list vs \<le> 1 + (6 * of_nat (length vs) + 8) * uro"
    and "(length vs + 1) * unat amount < 2 ^ 50"
  shows "sum_list (map (\<lambda>v. unat (part_of amount (Fin v))) vs) \<le> unat amount"
proof -
  define e :: rat where "e = of_nat (unat amount)"
  define n :: rat where "n = of_nat (length vs)"
  have "unat amount \<le> (length vs + 1) * unat amount" by simp
  with assms(3) have small: "unat amount < 2 ^ 50" by (rule order_le_less_trans [rotated])
  have e0: "0 \<le> e" unfolding e_def by (rule of_nat_0_le_iff)
  have "of_nat (sum_list (map (\<lambda>v. unat (part_of amount (Fin v))) us)) \<le> e * sum_list us + 2 * of_nat (length us) * (e * uro)"
    if "set us \<subseteq> set vs" for us
    using that
  proof (induction us)
    case (Cons u us)
    have "of_nat (unat (part_of amount (Fin u))) \<le> e * u + 2 * e * uro"
      unfolding e_def using assms(1) [of u] Cons.prems by (intro part_of_le small) simp_all
    with Cons show ?case by (simp add: algebra_simps)
  qed simp
  from this [of vs] have "of_nat (sum_list (map (\<lambda>v. unat (part_of amount (Fin v))) vs)) \<le> e * sum_list vs + 2 * n * (e * uro)"
    by (simp add: n_def)
  also have "\<dots> \<le> e * (1 + (6 * n + 8) * uro) + 2 * n * (e * uro)"
    unfolding n_def using assms(2) e0 by (intro add_right_mono mult_left_mono)
  also have "\<dots> = e + 8 * ((n + 1) * e) * uro" by (simp add: algebra_simps)
  also have "\<dots> < e + 1"
  proof -
    have "(n + 1) * e = of_nat ((length vs + 1) * unat amount)" by (simp only: n_def e_def of_nat_mult of_nat_add of_nat_1)
    also have "\<dots> < of_nat (2 ^ 50)" using assms(3) by (subst of_nat_less_iff)
    finally show ?thesis unfolding uro_eq by (simp add: mult.commute)
  qed
  finally have "of_nat (sum_list (map (\<lambda>v. unat (part_of amount (Fin v))) vs)) < (of_nat (unat amount + 1) :: rat)"
    by (simp only: e_def of_nat_add of_nat_1)
  then show ?thesis by (subst (asm) of_nat_less_iff) simp
qed

text \<open>The memory weight mixes two ratios.\<close>

lemma mix_value:
  assumes "0 \<le> a" "a \<le> 1" "0 \<le> b" "b \<le> 1" and "0 \<le> r" "r \<le> 1" "0 \<le> s" "s \<le> 1"
  obtains v where "Fin a * Fin r + Fin b * Fin s = Fin v" and "0 \<le> v" and "v \<le> 2" and "v \<le> a * r + b * s + 4 * uro"
proof -
  have ar: "0 \<le> a * r" "a * r \<le> 1" and bs: "0 \<le> b * s" "b * s \<le> 1" using assms by (simp_all add: mult_le_one)
  obtain x where x: "rnd (a * r) = Fin x" "0 \<le> x" "x \<le> 1" using rnd_le_Fin [OF ar repr_1] .
  obtain y where y: "rnd (b * s) = Fin y" "0 \<le> y" "y \<le> 1" using rnd_le_Fin [OF bs repr_1] .
  have "\<bar>x - a * r\<bar> \<le> 1 * uro" "\<bar>y - b * s\<bar> \<le> 1 * uro"
    unfolding uro_def by (rule rnd_abs_error [OF ar _ x(1)] rnd_abs_error [OF bs _ y(1)]; simp)+
  then have xy: "x \<le> a * r + uro" "y \<le> b * s + uro" by linarith+
  have sum: "0 \<le> x + y" "x + y \<le> 2" using x y by linarith+
  have "repr 2" using repr_of_int [of 2] by simp
  from rnd_le_Fin [OF sum this] obtain v where v: "rnd (x + y) = Fin v" "0 \<le> v" "v \<le> 2" .
  have "\<bar>v - (x + y)\<bar> \<le> 2 * uro" unfolding uro_def by (rule rnd_abs_error [OF sum _ v(1)]) simp
  then have "v \<le> a * r + b * s + 4 * uro" using xy by linarith
  then show ?thesis using that [of v] v x(1) y(1) by simp
qed

definition mem_weights :: "u64 \<Rightarrow> f64 \<times> f64" where
  "mem_weights llc = (if llc > 0 then (f64_lit (6 / 10), f64_lit (4 / 10)) else (f64_lit 1, f64_lit 0))"

lemma mem_weights_value:
  obtains a b where "mem_weights llc = (Fin a, Fin b)" and "0 \<le> a" "a \<le> 1" "0 \<le> b" "b \<le> 1" and "a + b \<le> 1 + 2 * uro"
proof (cases "llc > 0")
  case True
  have lit: "\<exists>a. f64_lit q = Fin a \<and> 0 \<le> a \<and> a \<le> 1 \<and> a \<le> q + uro" if q: "0 \<le> q" "q \<le> 1" for q
  proof -
    obtain r where r: "rnd q = Fin r" "0 \<le> r" "r \<le> 1" using rnd_le_Fin [OF q repr_1] .
    have "\<bar>r - q\<bar> \<le> 1 * uro" unfolding uro_def by (rule rnd_abs_error [OF q _ r(1)]) simp
    then have "r \<le> q + uro" by linarith
    then show ?thesis using r by (simp add: f64_lit_def)
  qed
  obtain a where "f64_lit (6 / 10) = Fin a" "0 \<le> a" "a \<le> 1" "a \<le> 6 / 10 + uro" using lit [of "6 / 10"] by auto
  moreover obtain b where "f64_lit (4 / 10) = Fin b" "0 \<le> b" "b \<le> 1" "b \<le> 4 / 10 + uro" using lit [of "4 / 10"] by auto
  ultimately show ?thesis using True that [of a b] by (simp add: mem_weights_def)
next
  case False
  then show ?thesis using that [of 1 0] rnd_repr [OF repr_1] by (simp add: mem_weights_def f64_lit_def)
qed

lemma sum_mix:
  assumes "\<And>x. x \<in> set xs \<Longrightarrow> 0 \<le> r x \<and> r x \<le> 1 \<and> 0 \<le> s x \<and> s x \<le> 1"
    and "sum_list (map r xs) \<le> 1 + (of_nat (length xs) + 3) * uro"
    and "sum_list (map s xs) \<le> 1 + (of_nat (length xs) + 3) * uro"
    and "mem_weights llc = (p, q)"
  defines "v \<equiv> \<lambda>x. val (p * Fin (r x) + q * Fin (s x))"
  shows "x \<in> set xs \<Longrightarrow> p * Fin (r x) + q * Fin (s x) = Fin (v x) \<and> 0 \<le> v x \<and> v x \<le> 2"
    and "sum_list (map v xs) \<le> 1 + (6 * of_nat (length xs) + 8) * uro"
proof -
  obtain a b where ab: "p = Fin a" "q = Fin b" "0 \<le> a" "a \<le> 1" "0 \<le> b" "b \<le> 1" "a + b \<le> 1 + 2 * uro"
    using mem_weights_value [of llc] assms(4) by (metis prod.inject)
  have one: "p * Fin (r x) + q * Fin (s x) = Fin (v x) \<and> 0 \<le> v x \<and> v x \<le> 2 \<and> v x \<le> a * r x + b * s x + 4 * uro"
    if x: "x \<in> set xs" for x
  proof -
    from assms(1) [OF x] have "0 \<le> r x" "r x \<le> 1" "0 \<le> s x" "s x \<le> 1" by auto
    from mix_value [OF ab(3-6) this] show ?thesis unfolding v_def ab(1,2) by (metis val_def f64.case(4))
  qed
  then show "x \<in> set xs \<Longrightarrow> p * Fin (r x) + q * Fin (s x) = Fin (v x) \<and> 0 \<le> v x \<and> v x \<le> 2" by blast
  define n :: rat where "n = of_nat (length xs)"
  have n0: "0 \<le> n" unfolding n_def by simp
  have "sum_list (map v ys) \<le> a * sum_list (map r ys) + b * sum_list (map s ys) + 4 * of_nat (length ys) * uro"
    if "set ys \<subseteq> set xs" for ys
    using that
  proof (induction ys)
    case (Cons y ys)
    then have "v y \<le> a * r y + b * s y + 4 * uro" using one by simp
    with Cons show ?case by (simp add: algebra_simps)
  qed simp
  from this [of xs] have "sum_list (map v xs) \<le> a * sum_list (map r xs) + b * sum_list (map s xs) + 4 * n * uro"
    by (simp add: n_def)
  also have "\<dots> \<le> a * (1 + (n + 3) * uro) + b * (1 + (n + 3) * uro) + 4 * n * uro"
    unfolding n_def using assms(2,3) ab by (intro add_mono mult_left_mono order_refl)
  also have "\<dots> = (a + b) * (1 + (n + 3) * uro) + 4 * n * uro" by (simp add: algebra_simps)
  also have "\<dots> \<le> (1 + 2 * uro) * (1 + (n + 3) * uro) + 4 * n * uro"
    using ab(7) n0 by (intro add_right_mono mult_right_mono) simp_all
  also have "\<dots> \<le> 1 + (6 * n + 8) * uro"
  proof -
    have "uro * uro \<le> 1 / 2 * uro" by (intro mult_right_mono uro_le_half) simp
    then have "2 * (n + 3) * (uro * uro) \<le> 2 * (n + 3) * (1 / 2 * uro)" using n0 by (intro mult_left_mono) simp_all
    then show ?thesis by (simp add: algebra_simps)
  qed
  finally show "sum_list (map v xs) \<le> 1 + (6 * of_nat (length xs) + 8) * uro" by (simp add: n_def)
qed

subsection \<open>Pods hold parts of the totals of a scan\<close>

text \<open>The 64-bit totals of a scan do not wrap around: they never decrease.\<close>

fun scan_no_wrap :: "file_system \<Rightarrow> bool \<Rightarrow> (u32, u64 \<times> u64) hmap \<Rightarrow> str list \<Rightarrow> scan_state \<Rightarrow> bool" where
  "scan_no_wrap fs refresh net [] s = True"
| "scan_no_wrap fs refresh net (e # es) s =
     (let s' = scan_process fs refresh net e s
      in sn_cpu_ticks s \<le> sn_cpu_ticks s' \<and> sn_pss s \<le> sn_pss s' \<and> sn_io_bytes s \<le> sn_io_bytes s' \<and>
         scan_no_wrap fs refresh net es s')"

lemma unat_plus_no_wrap: "a \<le> a + b \<Longrightarrow> unat (a + b) = unat a + unat b" for a b :: "'a::len word"
proof -
  assume le: "a \<le> a + b"
  have ab: "unat a < 2 ^ LENGTH('a)" "unat b < 2 ^ LENGTH('a)" using unsigned_less [where 'a = nat] by auto
  have "unat a + unat b < 2 ^ LENGTH('a)"
  proof (rule ccontr)
    assume ge: "\<not> unat a + unat b < 2 ^ LENGTH('a)"
    with ab have "unat a + unat b - 2 ^ LENGTH('a) < 2 ^ LENGTH('a)" by linarith
    with ge have "unat (a + b) = unat a + unat b - 2 ^ LENGTH('a)" by (simp add: unat_word_ariths le_mod_geq)
    with ab ge have "unat (a + b) < unat a" by linarith
    with le show False by (simp add: unat_simps)
  qed
  then show ?thesis by (rule unat_plus_bounded)
qed

definition scan_ok :: "scan_state \<Rightarrow> bool" where
  "scan_ok s \<longleftrightarrow>
     sum_list (map (\<lambda>m. unat (pm_cpu_ticks m)) (sn_metrics s)) \<le> unat (sn_cpu_ticks s) \<and>
     sum_list (map (\<lambda>m. unat (pm_rss_pages m)) (sn_metrics s)) \<le> unat (sn_pss s) \<and>
     sum_list (map (\<lambda>m. unat (pm_io_bytes_delta m)) (sn_metrics s)) \<le> unat (sn_io_bytes s)"

lemma scan_process_adds:
  obtains c p i ms where "sn_cpu_ticks (scan_process fs refresh net e s) = sn_cpu_ticks s + c"
    and "sn_pss (scan_process fs refresh net e s) = sn_pss s + p"
    and "sn_io_bytes (scan_process fs refresh net e s) = sn_io_bytes s + i"
    and "sn_metrics (scan_process fs refresh net e s) = sn_metrics s @ ms"
    and "ms = [] \<or> (\<exists>m. ms = [m] \<and> pm_cpu_ticks m = c \<and> pm_rss_pages m = p \<and> pm_io_bytes_delta m = i)"
proof (cases "\<not> list_all is_digit e \<or> is_thread fs e \<or> read_proc_stat fs e = None")
  case True
  then have "scan_process fs refresh net e s = s" by (auto simp: scan_process_def)
  then show ?thesis using that [of 0 0 0 "[]"] by simp
next
  case False
  then obtain stat where "read_proc_stat fs e = Some stat" by auto
  with False that show ?thesis
    by (cases "pid_pod_uid fs e") (fastforce simp: scan_process_def Let_def case_prod_unfold)+
qed

lemma scan_process_ok:
  assumes "scan_ok s" and "s' = scan_process fs refresh net e s"
    and "sn_cpu_ticks s \<le> sn_cpu_ticks s'" "sn_pss s \<le> sn_pss s'" "sn_io_bytes s \<le> sn_io_bytes s'"
  shows "scan_ok s'"
proof -
  obtain c p i ms where eqs: "sn_cpu_ticks s' = sn_cpu_ticks s + c" "sn_pss s' = sn_pss s + p"
      "sn_io_bytes s' = sn_io_bytes s + i" "sn_metrics s' = sn_metrics s @ ms"
    and ms: "ms = [] \<or> (\<exists>m. ms = [m] \<and> pm_cpu_ticks m = c \<and> pm_rss_pages m = p \<and> pm_io_bytes_delta m = i)"
    unfolding assms(2) by (rule scan_process_adds)
  have "unat (sn_cpu_ticks s') = unat (sn_cpu_ticks s) + unat c" "unat (sn_pss s') = unat (sn_pss s) + unat p"
    "unat (sn_io_bytes s') = unat (sn_io_bytes s) + unat i"
    using assms(3-5) unfolding eqs(1-3) by (simp_all add: unat_plus_no_wrap)
  with ms assms(1) show ?thesis by (auto simp: scan_ok_def eqs(4))
qed

lemma scan_processes_ok:
  assumes "scan_no_wrap fs refresh net entries (scan_start c)"
  shows "scan_ok (scan_processes fs refresh net entries c)"
proof -
  have "scan_ok (fold (scan_process fs refresh net) entries s)" if "scan_ok s" "scan_no_wrap fs refresh net entries s" for s
    using that by (induction entries arbitrary: s) (auto simp: Let_def scan_process_ok [OF _ refl])
  with assms show ?thesis by (simp add: scan_processes_def scan_ok_def scan_start_def)
qed

text \<open>Per field, the pods together hold at most what their processes hold.\<close>

lemma pod_metrics_field:
  assumes "f pod_metrics_zero = 0" and "\<And>m e. f (add_process m e) = f e + g m"
  shows "sum_list (map (\<lambda>e. unat (f (snd e))) (pod_metrics ms)) \<le> sum_list (map (\<lambda>m. unat (g m)) ms)"
proof -
  define ks where "ks = map fst (pod_metrics ms)"
  have f: "f (fold add_process xs z) = f z + sum_list (map g xs)" for xs z
    by (induction xs arbitrary: z) (simp_all add: assms(2) add_ac)
  have grp: "set ks = pm_pod_uid ` set ms"
    "pod_metrics ms = map (\<lambda>k. (k, fold add_process (filter (\<lambda>m. pm_pod_uid m = k) ms) pod_metrics_zero)) ks"
    unfolding ks_def using hm.entries_grouped [OF hm_wf_Nil refl, OF pod_metrics_def [of ms]] by simp_all
  have "distinct ks" unfolding ks_def pod_metrics_def
    using hm.wf_fold_upsert [OF hm_wf_Nil] by (simp add: hm_wf_def)
  have le: "unat (sum_list (map g xs)) \<le> sum_list (map (\<lambda>m. unat (g m)) xs)" for xs
    by (induction xs) (simp_all add: order_trans [OF unat_plus_le])
  have "sum_list (map (\<lambda>e. unat (f (snd e))) (pod_metrics ms))
      = sum_list (map (\<lambda>k. unat (sum_list (map g (filter (\<lambda>m. pm_pod_uid m = k) ms)))) ks)"
    by (subst grp(2)) (simp add: comp_def f assms(1))
  also have "\<dots> \<le> sum_list (map (\<lambda>k. sum_list (map (\<lambda>m. unat (g m)) (filter (\<lambda>m. pm_pod_uid m = k) ms))) ks)"
    by (intro sum_list_mono le)
  also have "\<dots> = sum_list (map (\<lambda>m. unat (g m)) ms)"
    using \<open>distinct ks\<close> grp(1) by (intro sum_list_groups) simp_all
  finally show ?thesis .
qed

lemmas pod_metrics_fields =
  pod_metrics_field [of pdm_cpu_ticks pm_cpu_ticks] pod_metrics_field [of pdm_pss_kb pm_rss_pages]
  pod_metrics_field [of pdm_io_bytes pm_io_bytes_delta] pod_metrics_field [of pdm_net_bytes pm_net_bytes]

subsection \<open>The pods of a scan\<close>

lemma ratio_parts_conserve:
  assumes "sum_list (map (\<lambda>x. unat (t x)) xs) \<le> unat T" and "(length xs + 1) * unat amount < 2 ^ 50"
  shows "sum_list (map (\<lambda>x. unat (part_of amount (ratio (t x) T))) xs) \<le> unat amount"
proof -
  let ?vs = "map (\<lambda>x. val (ratio (t x) T)) xs"
  have le: "unat (t x) \<le> unat T" if "x \<in> set xs" for x
    using member_le_sum_list_nat [OF that, of "\<lambda>x. unat (t x)"] assms(1) by simp
  have "sum_list (map (\<lambda>v. unat (part_of amount (Fin v))) ?vs) \<le> unat amount"
  proof (rule parts_conserve)
    show "0 \<le> v \<and> v \<le> 2" if "v \<in> set ?vs" for v
      using that val_ratio(2,3) [OF le] by force
    have "sum_list ?vs \<le> 1 + (of_nat (length xs) + 3) * uro"
      using sum_ratios [of "map t xs" T] assms(1) by (simp add: comp_def)
    also have "\<dots> \<le> 1 + (6 * of_nat (length ?vs) + 8) * uro" by (intro add_left_mono mult_right_mono) simp_all
    finally show "sum_list ?vs \<le> 1 + (6 * of_nat (length ?vs) + 8) * uro" .
  qed (use assms(2) in simp)
  moreover have "map (\<lambda>v. unat (part_of amount (Fin v))) ?vs = map (\<lambda>x. unat (part_of amount (ratio (t x) T))) xs"
    using val_ratio(1) [OF le] by simp
  ultimately show ?thesis by metis
qed

lemma mixed_parts_conserve:
  assumes "sum_list (map (\<lambda>x. unat (t x)) xs) \<le> unat T" and "sum_list (map (\<lambda>x. unat (u x)) xs) \<le> unat U"
    and "(length xs + 1) * unat amount < 2 ^ 50" and "mem_weights llc = (p, q)"
  shows "sum_list (map (\<lambda>x. unat (part_of amount (p * ratio (t x) T + q * ratio (u x) U))) xs) \<le> unat amount"
proof -
  have le: "unat (t x) \<le> unat T" "unat (u x) \<le> unat U" if "x \<in> set xs" for x
    using member_le_sum_list_nat [OF that, of "\<lambda>x. unat (t x)"] member_le_sum_list_nat [OF that, of "\<lambda>x. unat (u x)"]
      assms(1,2) by simp_all
  let ?r = "\<lambda>x. val (ratio (t x) T)" and ?s = "\<lambda>x. val (ratio (u x) U)"
  let ?v = "\<lambda>x. val (p * Fin (?r x) + q * Fin (?s x))"
  have "0 \<le> ?r x \<and> ?r x \<le> 1 \<and> 0 \<le> ?s x \<and> ?s x \<le> 1" if "x \<in> set xs" for x
    using val_ratio(2,3) [OF le(1) [OF that]] val_ratio(2,3) [OF le(2) [OF that]] by simp
  note unit = this
  have sums: "sum_list (map ?r xs) \<le> 1 + (of_nat (length xs) + 3) * uro" "sum_list (map ?s xs) \<le> 1 + (of_nat (length xs) + 3) * uro"
    using sum_ratios [of "map t xs" T] sum_ratios [of "map u xs" U] assms(1,2) by (simp_all add: comp_def)
  note mix = sum_mix [where xs = xs and r = ?r and s = ?s, OF _ sums assms(4)]
  have one: "p * Fin (?r x) + q * Fin (?s x) = Fin (?v x) \<and> 0 \<le> ?v x \<and> ?v x \<le> 2" if "x \<in> set xs" for x
    by (rule mix(1) [OF unit that]) assumption
  have "sum_list (map (\<lambda>v. unat (part_of amount (Fin v))) (map ?v xs)) \<le> unat amount"
  proof (rule parts_conserve)
    show "0 \<le> v \<and> v \<le> 2" if "v \<in> set (map ?v xs)" for v using that one by auto
    show "sum_list (map ?v xs) \<le> 1 + (6 * of_nat (length (map ?v xs)) + 8) * uro" using mix(2) [OF unit] by simp
  qed (use assms(3) in simp)
  moreover have "Fin (?v x) = p * ratio (t x) T + q * ratio (u x) U" if "x \<in> set xs" for x
    using one [OF that] val_ratio(1) [OF le(1) [OF that]] val_ratio(1) [OF le(2) [OF that]] by metis
  then have "map (\<lambda>v. unat (part_of amount (Fin v))) (map ?v xs)
      = map (\<lambda>x. unat (part_of amount (p * ratio (t x) T + q * ratio (u x) U))) xs" by simp
  ultimately show ?thesis by metis
qed

lemma attribute_pod_fields:
  fixes e :: "str \<times> PodMetrics" and scan :: scan_state and node now cache pwr llc total_net
  defines "cpu \<equiv> ratio (pdm_cpu_ticks (snd e)) (sn_cpu_ticks scan)"
  defines "r \<equiv> attribute_pod node now cache pwr llc scan total_net e"
  shows "ppr_pod_uid r = fst e" and "ppr_cpu_uw r = part_of (nd_cpu_uw pwr) cpu"
    and "ppr_memory_uw r = part_of (nd_mem_uw pwr)
      (fst (mem_weights llc) * ratio (pdm_pss_kb (snd e)) (sn_pss scan) + snd (mem_weights llc) * cpu)"
    and "ppr_storage_uw r = part_of (nd_storage_uw pwr) (ratio (pdm_io_bytes (snd e)) (sn_io_bytes scan))"
    and "ppr_io_uw r = part_of (nd_io_uw pwr) (if total_net > 0 then ratio (pdm_net_bytes (snd e)) total_net else cpu)"
    and "ppr_total_uw r = ppr_cpu_uw r + ppr_memory_uw r + ppr_storage_uw r + ppr_io_uw r"
    and "ppr_gpu_uw r = 0"
  unfolding r_def cpu_def
  by (simp_all add: attribute_pod_def case_prod_unfold Let_def pod_report_def mem_weights_def ratio_def)

text \<open>What a fair report of a scan is: the components of the pods never exceed the node's.\<close>

definition within_node :: "node_power \<Rightarrow> PodPowerReport list \<Rightarrow> bool" where
  "within_node pwr pods \<longleftrightarrow>
     sum_list (map (\<lambda>p. unat (ppr_cpu_uw p)) pods) \<le> unat (nd_cpu_uw pwr) \<and>
     sum_list (map (\<lambda>p. unat (ppr_memory_uw p)) pods) \<le> unat (nd_mem_uw pwr) \<and>
     sum_list (map (\<lambda>p. unat (ppr_storage_uw p)) pods) \<le> unat (nd_storage_uw pwr) \<and>
     sum_list (map (\<lambda>p. unat (ppr_io_uw p)) pods) \<le> unat (nd_io_uw pwr)"

definition node_small :: "nat \<Rightarrow> node_power \<Rightarrow> bool" where
  "node_small n pwr \<longleftrightarrow>
     (n + 1) * unat (nd_cpu_uw pwr) < 2 ^ 50 \<and> (n + 1) * unat (nd_mem_uw pwr) < 2 ^ 50 \<and>
     (n + 1) * unat (nd_storage_uw pwr) < 2 ^ 50 \<and> (n + 1) * unat (nd_io_uw pwr) < 2 ^ 50"

lemma attribute_pods_within:
  assumes "scan_ok scan" and "es = pod_metrics (sn_metrics scan)" and "node_small (length es) pwr"
    and "total_net = sum_list (map pm_net_bytes (sn_metrics scan))"
    and "sum_list (map (\<lambda>m. unat (pm_net_bytes m)) (sn_metrics scan)) < 2 ^ 64"
  shows "within_node pwr (map (attribute_pod node now cache pwr llc scan total_net) es)"
proof -
  let ?sum = "\<lambda>f. sum_list (map (\<lambda>e. unat (f (snd e))) es)"
  have cpu: "?sum pdm_cpu_ticks \<le> unat (sn_cpu_ticks scan)" and pss: "?sum pdm_pss_kb \<le> unat (sn_pss scan)"
    and io: "?sum pdm_io_bytes \<le> unat (sn_io_bytes scan)"
    using pod_metrics_fields(1-3) [of "sn_metrics scan"] assms(1)
    by (auto simp: assms(2) scan_ok_def pod_metrics_zero_def add_process_def)
  have "unat total_net = sum_list (map (\<lambda>m. unat (pm_net_bytes m)) (sn_metrics scan))"
    using unat_sum_list [of "map pm_net_bytes (sn_metrics scan)"] assms(4,5) by (simp add: comp_def)
  then have net: "?sum pdm_net_bytes \<le> unat total_net"
    using pod_metrics_fields(4) [of "sn_metrics scan"] by (simp add: assms(2) pod_metrics_zero_def add_process_def)
  note small = assms(3) [unfolded node_small_def]
  have "sum_list (map (\<lambda>e. unat (part_of (nd_io_uw pwr) (if total_net > 0 then ratio (pdm_net_bytes (snd e)) total_net
      else ratio (pdm_cpu_ticks (snd e)) (sn_cpu_ticks scan)))) es) \<le> unat (nd_io_uw pwr)"
    using ratio_parts_conserve [OF net, of "nd_io_uw pwr"] ratio_parts_conserve [OF cpu, of "nd_io_uw pwr"] small
    by (cases "total_net > 0") simp_all
  moreover have "sum_list (map (\<lambda>e. unat (part_of (nd_mem_uw pwr)
      (fst (mem_weights llc) * ratio (pdm_pss_kb (snd e)) (sn_pss scan)
        + snd (mem_weights llc) * ratio (pdm_cpu_ticks (snd e)) (sn_cpu_ticks scan)))) es) \<le> unat (nd_mem_uw pwr)"
    using small by (intro mixed_parts_conserve [OF pss cpu, of _ llc]) simp_all
  ultimately show ?thesis
    using ratio_parts_conserve [OF cpu, of "nd_cpu_uw pwr"] ratio_parts_conserve [OF io, of "nd_storage_uw pwr"] small
    by (simp add: within_node_def comp_def attribute_pod_fields)
qed

lemma attribute_pods_distinct:
  "distinct (map ppr_pod_uid (map (attribute_pod node now cache pwr llc scan total_net) (pod_metrics ms)))"
proof -
  have "hm_wf (pod_metrics ms)" unfolding pod_metrics_def by (rule hm.wf_fold_upsert) simp
  then show ?thesis by (simp add: comp_def attribute_pod_fields hm_wf_def)
qed

lemma enumerate_pods_uids:
  assumes "enumerate_pods fs node now pwr llc cache net tick caches = (pods, caches')" and "proc_entries fs = Some entries"
  shows "map ppr_pod_uid pods = map fst (pod_metrics (sn_metrics (scan_processes fs (tick mod 5 = 0) net entries caches)))"
  using assms
  by (auto simp: enumerate_pods_def Let_def comp_def attribute_pod_fields pod_metrics_def split: if_splits)

lemma enumerate_pods_total:
  assumes "enumerate_pods fs node now pwr llc cache net tick caches = (pods, caches')" and "p \<in> set pods"
  shows "ppr_total_uw p = ppr_cpu_uw p + ppr_memory_uw p + ppr_storage_uw p + ppr_io_uw p"
  using assms by (auto simp: enumerate_pods_def Let_def attribute_pod_fields split: option.splits if_splits)

lemma enumerate_pods_fair:
  assumes "enumerate_pods fs node now pwr llc cache net tick caches = (pods, caches')"
    and "proc_entries fs = Some entries" and "scan_no_wrap fs (tick mod 5 = 0) net entries (scan_start caches)"
    and "sum_list (map (\<lambda>m. unat (pm_net_bytes m)) (sn_metrics (scan_processes fs (tick mod 5 = 0) net entries caches))) < 2 ^ 64"
    and "node_small (length pods) pwr"
  shows "distinct (map ppr_pod_uid pods) \<and> within_node pwr pods"
proof -
  define scan where "scan = scan_processes fs (tick mod 5 = 0) net entries caches"
  have ok: "scan_ok scan" unfolding scan_def using assms(3) by (rule scan_processes_ok)
  show ?thesis
  proof (cases "sn_metrics scan = []")
    case True
    then have "pods = []" using assms(1,2) by (simp add: enumerate_pods_def Let_def scan_def)
    then show ?thesis by (simp add: within_node_def)
  next
    case False
    then have pods: "pods = map (attribute_pod node now cache pwr llc scan (sum_list (map pm_net_bytes (sn_metrics scan))))
        (pod_metrics (sn_metrics scan))"
      using assms(1,2) by (simp add: enumerate_pods_def Let_def scan_def)
    with assms(5) have "node_small (length (pod_metrics (sn_metrics scan))) pwr" by simp
    from attribute_pods_within [OF ok refl this refl] assms(4) attribute_pods_distinct show ?thesis
      unfolding pods scan_def by blast
  qed
qed

text \<open>
  C9: The pods of a scan are reported once each, and for processor, memory, storage and
  network alike their powers add up to at most the node's: the rounding of the shares,
  the mix of two ratios for memory and the change of the network share to the processor
  share never hand out more than was measured.  The totals of the scan must not wrap
  around, and the node's power times the number of pods must stay below \<open>2 ^ 50\<close>
  microwatts, that is about half a megawatt for two thousand pods.
\<close>

theorem enumerate_pods_within_node:
  assumes "enumerate_pods fs node now pwr llc cache net tick caches = (pods, caches')"
    and "proc_entries fs = Some entries" and "scan_no_wrap fs (tick mod 5 = 0) net entries (scan_start caches)"
    and "sum_list (map (\<lambda>m. unat (pm_net_bytes m)) (sn_metrics (scan_processes fs (tick mod 5 = 0) net entries caches))) < 2 ^ 64"
    and "node_small (length pods) pwr"
  shows "distinct (map ppr_pod_uid pods) \<and> within_node pwr pods"
  using enumerate_pods_fair [OF assms] .

definition sample_proc :: file_system where
  "sample_proc =
     \<lparr>fs_read = map_of
        [(''/proc/1/stat'', ''1 (a) S 0 0 0 0 0 0 0 0 0 0 20 5''),
         (''/proc/1/cgroup'', ''0::/kubepods-pod11111111.slice''),
         (''/proc/1/io'', ''read_bytes: 30''),
         (''/proc/10/stat'', ''10 (b) R 0 0 0 0 0 0 0 0 0 0 30 0''),
         (''/proc/10/cgroup'', ''0::/kubepods-pod22222222.slice''),
         (''/proc/10/statm'', ''9 3 1'')],
      fs_dir = map_of [(''/proc'', [Some ''1'', None, Some ''self'', Some ''10''])],
      fs_exists = \<lambda>_. False\<rparr>"

definition sample_caches :: proc_caches where
  "sample_caches = \<lparr>pc_cpu_ticks = [(1, 5), (10, 20)], pc_page_faults = [], pc_pss = [(1, 6)], pc_io_bytes = [(1, 10)]\<rparr>"

definition sample_power :: node_power where
  "sample_power = \<lparr>nd_cpu_uw = 100, nd_mem_uw = 90, nd_storage_uw = 7, nd_io_uw = 8\<rparr>"

theorem enumerate_pods_within_node_witness:
  "\<exists>pods caches'. enumerate_pods sample_proc ''n'' 0 sample_power 0 [] [(10, (2, 3))] 1 sample_caches = (pods, caches') \<and>
     map ppr_pod_uid pods = [''11111111'', ''22222222''] \<and> distinct (map ppr_pod_uid pods) \<and> within_node sample_power pods"
proof -
  let ?run = "enumerate_pods sample_proc ''n'' 0 sample_power 0 [] [(10, (2, 3))] 1 sample_caches"
  let ?scan = "scan_processes sample_proc (1 mod 5 = (0 :: u64)) [(10, (2, 3))] [''1'', ''self'', ''10''] sample_caches"
  obtain pods caches' where run: "?run = (pods, caches')" by (cases ?run)
  have entries: "proc_entries sample_proc = Some [''1'', ''self'', ''10'']" by code_simp
  have wrap: "scan_no_wrap sample_proc (1 mod 5 = (0 :: u64)) [(10, (2, 3))] [''1'', ''self'', ''10''] (scan_start sample_caches)"
    by code_simp
  have scan: "map (\<lambda>m. unat (pm_net_bytes m)) (sn_metrics ?scan) = [0, 5]"
    "map fst (pod_metrics (sn_metrics ?scan)) = [''11111111'', ''22222222'']"
    by code_simp+
  then have uids: "map ppr_pod_uid pods = [''11111111'', ''22222222'']"
    using enumerate_pods_uids [OF run entries] by simp
  from arg_cong [OF this, of length] have "length pods = 2" by simp
  then have small: "node_small (length pods) sample_power" by (simp add: node_small_def sample_power_def)
  have "sum_list (map (\<lambda>m. unat (pm_net_bytes m)) (sn_metrics ?scan)) < 2 ^ 64" by (simp only: scan) simp
  from enumerate_pods_within_node [OF run entries wrap this small] show ?thesis
    by (intro exI [of _ pods] exI [of _ caches'] conjI run uids) simp_all
qed

subsection \<open>Limits of the attribution\<close>

text \<open>
  A pod the snapshot does not know keeps its share of the whole processor power, while the
  pods the snapshot knows share the whole again: together they exceed the node's power.
\<close>

lemma merge_exceeds_node:
  fixes mk :: "str \<Rightarrow> u64 \<Rightarrow> PodPowerReport"
  defines "mk \<equiv> \<lambda>uid cpu. pod_report ''n'' 0 [] uid cpu 0 0 0"
  shows "map ppr_cpu_uw (merge_ebpf [mk ''b'' 100] [mk ''a'' 60, mk ''b'' 40]) = [60, 100]"
  unfolding mk_def by code_simp

text \<open>
  A lookup of an owner that fails is remembered like one that succeeds, so the pod stays
  attributed to the intermediate owner when the lookup would succeed later.
\<close>

lemma failed_owner_remembered:
  assumes "select_controller_owner refs = Some r" and "or_kind r = ''ReplicaSet''"
    and "resolve_owner (\<lambda>_ _ _. None) uid name ns refs [] = (w, cache)"
  shows "resolve_owner owners uid name ns refs cache = ((or_uid r, or_name r, ''ReplicaSet''), cache)"
  using assms by (auto simp: resolve_owner_def resolve_intermediate_owner_def Let_def)

end
