(* ===== verification/Aggregator_Facts.thy ===== *)
theory Aggregator_Facts
  imports Aggregator
begin

text \<open>
  Correctness of the cluster aggregator: what a report changes, the invariant of every
  reachable state, and that the views count every node and every pod once.
\<close>

subsection \<open>What one report changes\<close>

lemma ppr_pod_uid_fill [simp]: "ppr_pod_uid (fill_method meth p) = ppr_pod_uid p"
  by (simp add: fill_method_def)

lemma ingest_pod_fields:
  "ca_pods (ingest_pod now meth p a) =
     hm_upsert (ppr_pod_uid p, meth) undefined (\<lambda>_. \<lparr>pst_report = fill_method meth p, pst_received_at = now\<rparr>) (ca_pods a)"
  "ca_history (ingest_pod now meth p a) =
     hm_upsert (ppr_namespace p) [] (\<lambda>h. h @ [(ppr_timestamp p, ppr_total_uw p)]) (ca_history a)"
  "ca_nodes (ingest_pod now meth p a) = ca_nodes a"
  "ca_staleness_threshold (ingest_pod now meth p a) = ca_staleness_threshold a"
  "ca_history_retention (ingest_pod now meth p a) = ca_history_retention a"
  by (simp_all add: ingest_pod_def Let_def hm_upsert_def hm_push_def)

lemma fold_ingest_pod_fields:
  "ca_pods (fold (ingest_pod now meth) ps a) =
     fold (\<lambda>p. hm_upsert (ppr_pod_uid p, meth) undefined
       (\<lambda>_. \<lparr>pst_report = fill_method meth p, pst_received_at = now\<rparr>)) ps (ca_pods a)"
  "ca_history (fold (ingest_pod now meth) ps a) =
     fold (\<lambda>p. hm_upsert (ppr_namespace p) [] (\<lambda>h. h @ [(ppr_timestamp p, ppr_total_uw p)])) ps (ca_history a)"
  "ca_nodes (fold (ingest_pod now meth) ps a) = ca_nodes a"
  "ca_staleness_threshold (fold (ingest_pod now meth) ps a) = ca_staleness_threshold a"
  "ca_history_retention (fold (ingest_pod now meth) ps a) = ca_history_retention a"
  by (induction ps arbitrary: a) (simp_all add: ingest_pod_fields)

lemma fold_last: "fold (\<lambda>x _. f x) xs d = (if xs = [] then d else f (last xs))"
  by (induction xs arbitrary: d) auto

definition stays :: "AgentReport \<Rightarrow> str \<times> str \<Rightarrow> PodState \<Rightarrow> bool" where
  "stays report key state \<longleftrightarrow>
     \<not> (snd key = report_method report \<and> ppr_node_name (pst_report state) = npr_node_name (ar_node report) \<and>
        fst key \<notin> set (map ppr_pod_uid (ar_pods report)))"

lemma ingest_pods:
  "ca_pods (ingest now now_stale now_sys report a) =
     hm_retain (\<lambda>_ s. now_stale - ca_staleness_threshold a < pst_received_at s)
       (fold (\<lambda>p. hm_upsert (ppr_pod_uid p, report_method report) undefined
           (\<lambda>_. \<lparr>pst_report = fill_method (report_method report) p, pst_received_at = now\<rparr>)) (ar_pods report)
         (hm_retain (stays report) (ca_pods a)))"
  by (simp add: ingest_def Let_def trim_history_def evict_stale_def fold_ingest_pod_fields stays_def [abs_def])

lemma ingest_nodes:
  "ca_nodes (ingest now now_stale now_sys report a) =
     hm_retain (\<lambda>_ s. now_stale - ca_staleness_threshold a < nst_received_at s)
       (AList.update (npr_node_name (ar_node report), report_method report)
          \<lparr>nst_report = ar_node report, nst_received_at = now\<rparr> (ca_nodes a))"
  by (simp add: ingest_def Let_def trim_history_def evict_stale_def fold_ingest_pod_fields)

lemma ingest_history:
  "ca_history (ingest now now_stale now_sys report a) =
     hm_retain (\<lambda>_ h. h \<noteq> [])
       (map (\<lambda>(ns, h). (ns, filter (\<lambda>(ts, _). now_sys - ca_history_retention a \<le> ts) h))
         (fold (\<lambda>p. hm_upsert (ppr_namespace p) [] (\<lambda>h. h @ [(ppr_timestamp p, ppr_total_uw p)]))
            (ar_pods report) (ca_history a)))"
  by (simp add: ingest_def Let_def trim_history_def evict_stale_def fold_ingest_pod_fields)

lemma ingest_config [simp]:
  "ca_staleness_threshold (ingest now now_stale now_sys report a) = ca_staleness_threshold a"
  "ca_history_retention (ingest now now_stale now_sys report a) = ca_history_retention a"
  by (simp_all add: ingest_def Let_def trim_history_def evict_stale_def fold_ingest_pod_fields)

lemma map_of_fold_ingest:
  "map_of (fold (\<lambda>p. hm_upsert (ppr_pod_uid p, meth) undefined (\<lambda>_. st p)) ps m) (u, m') =
     (if m' = meth \<and> u \<in> ppr_pod_uid ` set ps
      then Some (st (last (filter (\<lambda>p. ppr_pod_uid p = u) ps))) else map_of m (u, m'))"
proof (cases "m' = meth \<and> u \<in> ppr_pod_uid ` set ps")
  case True
  moreover from this have "filter (\<lambda>p. ppr_pod_uid p = u) ps \<noteq> []" by (auto simp: filter_empty_conv)
  ultimately show ?thesis by (auto simp: hm.get_fold_upsert image_iff fold_last)
next
  case False
  then show ?thesis by (auto simp: hm.get_fold_upsert image_iff)
qed

text \<open>
  C5: A report replaces the reporting node's pods of its own metering method and
  nothing else: afterwards a pod the report lists is stored with its last entry in the
  report; a pod of the same method on the same node that it no longer lists is gone;
  every other pod, including those of the other methods, is unchanged unless it has not
  been heard of for the staleness threshold.
\<close>

theorem ingest_pods_exact:
  assumes "hm_wf (ca_pods a)" and "now_stale - ca_staleness_threshold a < now"
  shows "map_of (ca_pods (ingest now now_stale now_sys report a)) (u, m) =
    (let meth = report_method report; entries = filter (\<lambda>p. ppr_pod_uid p = u) (ar_pods report)
     in if m = meth \<and> entries \<noteq> []
        then Some \<lparr>pst_report = fill_method meth (last entries), pst_received_at = now\<rparr>
        else (case map_of (ca_pods a) (u, m) of
                None \<Rightarrow> None
              | Some s \<Rightarrow>
                  if m = meth \<and> ppr_node_name (pst_report s) = npr_node_name (ar_node report)
                     \<or> pst_received_at s \<le> now_stale - ca_staleness_threshold a
                  then None else Some s))"
proof -
  have "filter (\<lambda>p. ppr_pod_uid p = u) (ar_pods report) \<noteq> [] \<longleftrightarrow> u \<in> ppr_pod_uid ` set (ar_pods report)"
    by (auto simp: filter_empty_conv)
  with assms show ?thesis
    by (auto simp: ingest_pods map_of_retain hm.wf_fold_upsert map_of_fold_ingest stays_def Let_def
        split: option.split)
qed

lemma map_of_map_values: "map_of (map (\<lambda>(k, v). (k, f v)) m) k = map_option f (map_of m k)"
  by (induction m) auto

lemma hm_wf_map_values: "hm_wf m \<Longrightarrow> hm_wf (map (\<lambda>(k, v). (k, f v)) m)"
  by (simp add: hm_wf_def case_prod_unfold comp_def)

lemma fold_append_one: "fold (\<lambda>x h. h @ [f x]) xs h = h @ map f xs"
  by (induction xs arbitrary: h) simp_all

text \<open>
  C35: The history of a namespace after a report is its history before, followed by one
  entry for every pod of the report in that namespace in the report's order, without
  the entries older than the retention; other namespaces only lose old entries.
\<close>

theorem ingest_history_exact:
  assumes "hm_wf (ca_history a)"
  shows "namespace_history ns since (ingest now now_stale now_sys report a) =
    filter (\<lambda>(ts, _). since \<le> ts \<and> now_sys - ca_history_retention a \<le> ts)
      (hm_get_or (ca_history a) ns [] @
       map (\<lambda>p. (ppr_timestamp p, ppr_total_uw p)) (filter (\<lambda>p. ppr_namespace p = ns) (ar_pods report)))"
proof -
  define g where "g = fold (\<lambda>p. hm_upsert (ppr_namespace p) [] (\<lambda>h. h @ [(ppr_timestamp p, ppr_total_uw p)]))
    (ar_pods report) (ca_history a)"
  have "hm_wf g" unfolding g_def using assms by (rule hm.wf_fold_upsert)
  then have "namespace_history ns since (ingest now now_stale now_sys report a) =
      filter (\<lambda>(ts, _). since \<le> ts)
        (filter (\<lambda>(ts, _). now_sys - ca_history_retention a \<le> ts) (hm_get_or g ns []))"
    by (auto simp: namespace_history_def ingest_history g_def [symmetric] map_of_retain hm_wf_map_values
        map_of_map_values hm_get_or_def filter_empty_conv simp del: filter_filter split: option.split)
  also have "hm_get_or g ns [] = hm_get_or (ca_history a) ns [] @
      map (\<lambda>p. (ppr_timestamp p, ppr_total_uw p)) (filter (\<lambda>p. ppr_namespace p = ns) (ar_pods report))"
    by (auto simp: g_def hm_get_or_def hm.get_fold_upsert fold_append_one image_iff filter_empty_conv
        split: option.split)
  finally show ?thesis by (simp add: case_prod_unfold conj_commute)
qed

subsection \<open>The states of a running controller\<close>

text \<open>
  The aggregator changes by ingesting a report, from an agent or from the scraper, and
  by the removal of nodes that left the cluster.  \<open>ok\<close> says which reports reach
  \<open>ingest\<close>; the clocks are arbitrary.
\<close>

inductive agg_reach :: "(AgentReport \<Rightarrow> bool) \<Rightarrow> ClusterAggregator \<Rightarrow> bool" for ok where
  agg_start: "agg_reach ok aggregator_new"
| agg_ingest: "agg_reach ok a \<Longrightarrow> ok report \<Longrightarrow> agg_reach ok (ingest now now_stale now_sys report a)"
| agg_evict: "agg_reach ok a \<Longrightarrow> agg_reach ok (evict_removed_nodes names a)"

definition pod_from :: "(AgentReport \<Rightarrow> bool) \<Rightarrow> str \<times> str \<Rightarrow> PodState \<Rightarrow> bool" where
  "pod_from ok key s \<longleftrightarrow>
     (\<exists>r p. ok r \<and> p \<in> set (ar_pods r) \<and> pst_report s = fill_method (report_method r) p \<and>
        key = (ppr_pod_uid p, report_method r))"

definition node_from :: "(AgentReport \<Rightarrow> bool) \<Rightarrow> str \<times> str \<Rightarrow> NodeState \<Rightarrow> bool" where
  "node_from ok key s \<longleftrightarrow>
     (\<exists>r. ok r \<and> nst_report s = ar_node r \<and> key = (npr_node_name (ar_node r), report_method r))"

text \<open>
  The invariant: the maps have unique keys, every stored state comes from an accepted
  report under the key of that report, and no namespace has an empty history.
\<close>

definition agg_inv :: "(AgentReport \<Rightarrow> bool) \<Rightarrow> ClusterAggregator \<Rightarrow> bool" where
  "agg_inv ok a \<longleftrightarrow>
     hm_wf (ca_pods a) \<and> hm_wf (ca_nodes a) \<and> hm_wf (ca_history a) \<and>
     (\<forall>e \<in> set (ca_pods a). pod_from ok (fst e) (snd e)) \<and>
     (\<forall>e \<in> set (ca_nodes a). node_from ok (fst e) (snd e)) \<and>
     (\<forall>e \<in> set (ca_history a). snd e \<noteq> [])"

lemma set_hm_retain [simp]: "set (hm_retain P m) = {e \<in> set m. P (fst e) (snd e)}"
  by (auto simp: hm_retain_def)

lemma set_fold_ingest:
  "set (fold (\<lambda>p. hm_upsert (ppr_pod_uid p, meth) undefined (\<lambda>_. st p)) ps m) \<subseteq>
     set m \<union> (\<lambda>p. ((ppr_pod_uid p, meth), st p)) ` set ps"
proof (induction ps arbitrary: m)
  case (Cons p ps)
  have "set (hm_upsert (ppr_pod_uid p, meth) undefined (\<lambda>_. st p) m) \<subseteq> insert ((ppr_pod_uid p, meth), st p) (set m)"
    unfolding hm_upsert_def by (rule set_update_alist)
  with Cons.IH [of "hm_upsert (ppr_pod_uid p, meth) undefined (\<lambda>_. st p) m"] show ?case by auto
qed simp

lemma agg_inv_ingest:
  assumes inv: "agg_inv ok a" and ok: "ok report"
  shows "agg_inv ok (ingest now now_stale now_sys report a)"
proof -
  have pods: "pod_from ok (fst e) (snd e)" if "e \<in> set (ca_pods (ingest now now_stale now_sys report a))" for e
  proof -
    from that consider "e \<in> set (ca_pods a)"
      | p where "p \<in> set (ar_pods report)" "e = ((ppr_pod_uid p, report_method report),
          \<lparr>pst_report = fill_method (report_method report) p, pst_received_at = now\<rparr>)"
      unfolding ingest_pods using set_fold_ingest by fastforce
    then show ?thesis
      using inv ok by cases (auto simp: agg_inv_def pod_from_def)
  qed
  have nodes: "node_from ok (fst e) (snd e)" if "e \<in> set (ca_nodes (ingest now now_stale now_sys report a))" for e
  proof -
    from that consider "e \<in> set (ca_nodes a)"
      | "e = ((npr_node_name (ar_node report), report_method report),
          \<lparr>nst_report = ar_node report, nst_received_at = now\<rparr>)"
      unfolding ingest_nodes using set_update_alist by fastforce
    then show ?thesis
      using inv ok by cases (auto simp: agg_inv_def node_from_def)
  qed
  have "hm_wf (ca_pods (ingest now now_stale now_sys report a))"
    "hm_wf (ca_nodes (ingest now now_stale now_sys report a))"
    "hm_wf (ca_history (ingest now now_stale now_sys report a))"
    using inv by (simp_all add: agg_inv_def ingest_pods ingest_nodes ingest_history hm.wf_fold_upsert hm_wf_map_values)
  moreover have "\<forall>e \<in> set (ca_history (ingest now now_stale now_sys report a)). snd e \<noteq> []"
    by (simp add: ingest_history)
  ultimately show ?thesis using pods nodes by (simp add: agg_inv_def)
qed

lemma agg_inv_evict: "agg_inv ok a \<Longrightarrow> agg_inv ok (evict_removed_nodes names a)"
  by (auto simp: agg_inv_def evict_removed_nodes_def)

lemma agg_inv_reach: "agg_reach ok a \<Longrightarrow> agg_inv ok a"
  by (induction rule: agg_reach.induct)
    (simp_all add: agg_inv_ingest agg_inv_evict, simp add: agg_inv_def aggregator_new_def)

subsection \<open>Nothing is counted twice\<close>

lemma report_method_ne: "report_method r \<noteq> []"
  by (simp add: report_method_def)

lemma matches_report_method:
  "matches_method (npr_metering_method (ar_node r)) meth \<longleftrightarrow> report_method r = (case meth of None \<Rightarrow> ''keck'' | Some f \<Rightarrow> f)"
  by (simp add: matches_method_def report_method_def Let_def)

lemma distinct_map_if_keys:
  assumes "distinct (map fst m)" and "\<And>e. e \<in> set m \<Longrightarrow> P (snd e) \<Longrightarrow> fst e = (f (snd e), c)"
  shows "distinct (map f (filter P (map snd m)))"
  using assms
proof (induction m)
  case (Cons e m)
  have IH: "distinct (map f (filter P (map snd m)))" using Cons by simp
  have "f (snd e) \<notin> f ` {x \<in> snd ` set m. P x}" if "P (snd e)"
  proof
    assume "f (snd e) \<in> f ` {x \<in> snd ` set m. P x}"
    then obtain e' where e': "e' \<in> set m" "P (snd e')" "f (snd e) = f (snd e')" by auto
    then have "fst e = fst e'" using Cons.prems(2) [of e] Cons.prems(2) [of e'] that by simp
    with e'(1) Cons.prems(1) show False by (auto simp: image_iff)
  qed
  with IH show ?case by auto
qed simp

lemma length_fold_add_node: "cl_node_count (fst (fold add_node xs acc)) = cl_node_count (fst acc) + length xs"
  by (induction xs arbitrary: acc) (auto simp: add_node_def Let_def split: prod.splits)

lemma node_names_distinct:
  assumes "agg_reach ok a"
  shows "distinct (map nsum_node_name (node_summaries now meth a))"
proof -
  have inv: "agg_inv ok a" using assms by (rule agg_inv_reach)
  have "distinct (map (\<lambda>s. npr_node_name (nst_report s)) (filter (node_matches meth) (map snd (ca_nodes a))))"
  proof (rule distinct_map_if_keys [where c = "case meth of None \<Rightarrow> ''keck'' | Some f \<Rightarrow> f"])
    show "distinct (map fst (ca_nodes a))" using inv by (simp add: agg_inv_def hm_wf_def)
    show "fst e = (npr_node_name (nst_report (snd e)), case meth of None \<Rightarrow> ''keck'' | Some f \<Rightarrow> f)"
      if "e \<in> set (ca_nodes a)" "node_matches meth (snd e)" for e
      using that inv by (auto simp: agg_inv_def node_from_def node_matches_def matches_report_method)
  qed
  then show ?thesis by (simp add: node_summaries_def Let_def comp_def)
qed

text \<open>
  In every reachable state a view for one metering method contains each node at
  most once, and the cluster summary counts exactly the nodes of that view, so no
  node's power enters the cluster totals twice.
\<close>

lemma nodes_counted_once:
  assumes "agg_reach ok a"
  shows "distinct (map nsum_node_name (node_summaries now meth a)) \<and>
    cl_node_count (cluster_power meth a) = length (node_summaries now meth a)"
  using node_names_distinct [OF assms]
  by (simp add: cluster_power_def node_summaries_def Let_def length_fold_add_node case_prod_unfold
      cluster_power_zero_def)

text \<open>A report whose pods carry no metering method of their own, or that of the report.\<close>

definition consistent_report :: "AgentReport \<Rightarrow> bool" where
  "consistent_report r \<longleftrightarrow>
     list_all (\<lambda>p. ppr_metering_method p = [] \<or> ppr_metering_method p = report_method r) (ar_pods r)"

lemma pod_matches_consistent:
  assumes "consistent_report r" and "p \<in> set (ar_pods r)"
  shows "matches_method (ppr_metering_method (fill_method (report_method r) p)) meth \<longleftrightarrow>
    report_method r = (case meth of None \<Rightarrow> ''keck'' | Some f \<Rightarrow> f)"
proof -
  have "ppr_metering_method (fill_method (report_method r) p) = report_method r"
    using assms by (auto simp: consistent_report_def list_all_iff fill_method_def)
  then show ?thesis by (simp add: matches_method_def report_method_ne)
qed


subsection \<open>Sums per namespace\<close>

lemma sort_desc_perm [simp]: "mset (sort_desc f xs) = mset xs"
  by (simp add: sort_desc_def)

lemma set_sort_desc [simp]: "set (sort_desc f xs) = set xs"
  by (simp add: sort_desc_def)

lemma sort_desc_sorted: "sorted_wrt (\<lambda>x y. f y \<le> f x) (sort_desc f xs)"
proof -
  have "sorted (map (\<lambda>x. - int (unat (f x))) (sort_desc f xs))" by (simp add: sort_desc_def)
  then show ?thesis by (simp add: sorted_map word_le_def)
qed

lemma sum_list_sort_desc: "sum_list (map g (sort_desc f xs)) = sum_list (map g xs)"
  for g :: "'a \<Rightarrow> 'b::comm_monoid_add"
  by (metis sort_desc_perm mset_map sum_mset_sum_list)

lemma distinct_sort_desc: "distinct (map g (sort_desc f xs)) = distinct (map g xs)"
  by (metis sort_desc_perm mset_map mset_eq_imp_distinct_iff)

lemma fold_add_ns:
  "fold add_ns ps e = e\<lparr>ns_cpu_uw := ns_cpu_uw e + sum_list (map ppr_cpu_uw ps),
     ns_memory_uw := ns_memory_uw e + sum_list (map ppr_memory_uw ps),
     ns_gpu_uw := ns_gpu_uw e + sum_list (map ppr_gpu_uw ps),
     ns_storage_uw := ns_storage_uw e + sum_list (map ppr_storage_uw ps),
     ns_io_uw := ns_io_uw e + sum_list (map ppr_io_uw ps),
     ns_total_uw := ns_total_uw e + sum_list (map ppr_total_uw ps),
     ns_pod_count := ns_pod_count e + length ps\<rparr>"
  by (induction ps arbitrary: e) (simp_all add: add_ns_def add_ac)

lemma fold_map_arg: "fold (\<lambda>s. F (h s)) xs m = fold F (map h xs) m"
  by (induction xs arbitrary: m) simp_all

lemma namespace_power_fold:
  "namespace_power meth a = sort_desc ns_total_uw (map snd
     (fold (\<lambda>p. hm_upsert (ppr_namespace p) (ns_zero (ppr_namespace p)) (add_ns p)) (all_pods_filtered meth a) []))"
  unfolding namespace_power_def all_pods_filtered_def Let_def
  by (simp add: fold_map_arg [where h = pst_report
        and F = "\<lambda>p. hm_upsert (ppr_namespace p) (ns_zero (ppr_namespace p)) (add_ns p)"])

lemma pods_in_namespace_filter:
  "pods_in_namespace ns meth a = filter (\<lambda>p. ppr_namespace p = ns) (all_pods_filtered meth a)"
  by (simp add: pods_in_namespace_def all_pods_filtered_def filter_map comp_def conj_commute)

lemma namespace_power_entries:
  obtains ks where "distinct ks" and "set ks = ppr_namespace ` set (all_pods_filtered meth a)"
    and "namespace_power meth a =
      sort_desc ns_total_uw (map (\<lambda>k. fold add_ns (pods_in_namespace k meth a) (ns_zero k)) ks)"
proof -
  define ps where "ps = all_pods_filtered meth a"
  define g where "g = fold (\<lambda>p. hm_upsert (ppr_namespace p) (ns_zero (ppr_namespace p)) (add_ns p)) ps []"
  note grouped = hm.grouped_by_key [OF hm_wf_Nil refl g_def]
  have "namespace_power meth a =
      sort_desc ns_total_uw (map (\<lambda>k. fold add_ns (pods_in_namespace k meth a) (ns_zero k)) (map fst g))"
    unfolding namespace_power_fold ps_def [symmetric] g_def [symmetric] pods_in_namespace_filter
    by (rule arg_cong [OF grouped(1)])
  then show ?thesis using that grouped(2,3) by (simp add: ps_def)
qed

lemma namespace_power_keys: "ns_namespace ` set (namespace_power meth a) = ppr_namespace ` set (all_pods_filtered meth a)"
  by (rule namespace_power_entries [of meth a]) (simp add: image_image fold_add_ns ns_zero_def)

lemma namespace_total:
  assumes "e \<in> set (namespace_power meth a)"
  shows "ns_total_uw e = sum_list (map ppr_total_uw (pods_in_namespace (ns_namespace e) meth a))"
  using assms by (rule_tac namespace_power_entries [of meth a]) (auto simp: fold_add_ns ns_zero_def)

text \<open>
  C13: The namespace view partitions the pods of its metering method: one entry for each
  namespace that has pods, in descending order of power; every component of an entry is
  the (64-bit) sum over exactly the pods listed for that namespace; and the entries'
  totals add up to the total of all the pods.
\<close>

theorem namespace_power_exact:
  "let r = namespace_power meth a; pods = all_pods_filtered meth a
   in distinct (map ns_namespace r) \<and> ns_namespace ` set r = ppr_namespace ` set pods \<and>
      sorted_wrt (\<lambda>x y. ns_total_uw y \<le> ns_total_uw x) r \<and>
      list_all (\<lambda>e. let ps = pods_in_namespace (ns_namespace e) meth a
         in e = \<lparr>ns_namespace = ns_namespace e, ns_cpu_uw = sum_list (map ppr_cpu_uw ps),
                 ns_memory_uw = sum_list (map ppr_memory_uw ps), ns_gpu_uw = sum_list (map ppr_gpu_uw ps),
                 ns_storage_uw = sum_list (map ppr_storage_uw ps), ns_io_uw = sum_list (map ppr_io_uw ps),
                 ns_total_uw = sum_list (map ppr_total_uw ps), ns_pod_count = length ps\<rparr>) r \<and>
      sum_list (map ns_total_uw r) = sum_list (map ppr_total_uw pods)"
proof -
  obtain ks where ks: "distinct ks" "set ks = ppr_namespace ` set (all_pods_filtered meth a)"
    "namespace_power meth a = sort_desc ns_total_uw (map (\<lambda>k. fold add_ns (pods_in_namespace k meth a) (ns_zero k)) ks)"
    by (rule namespace_power_entries)
  have "sum_list (map (\<lambda>k. sum_list (map ppr_total_uw (pods_in_namespace k meth a))) ks)
      = sum_list (map ppr_total_uw (all_pods_filtered meth a))"
    unfolding pods_in_namespace_filter using ks by (intro sum_list_groups) auto
  then show ?thesis using ks(1,2) sort_desc_sorted
    unfolding ks(3)
    by (simp add: Let_def distinct_sort_desc comp_def fold_add_ns ns_zero_def list_all_iff image_image sum_list_sort_desc)
qed

subsection \<open>Groups\<close>

definition selected :: "GroupBy \<Rightarrow> str option \<Rightarrow> ClassificationData \<Rightarrow> PodPowerReport \<Rightarrow> bool" where
  "selected group_by category cls p \<longleftrightarrow>
     (case category of None \<Rightarrow> True | Some cat \<Rightarrow> fst (classify cls (ppr_namespace p)) = cat) \<and>
     (case group_by of GLabel l \<Rightarrow> map_of (ppr_labels p) l \<noteq> None | _ \<Rightarrow> True)"

definition group_key :: "GroupBy \<Rightarrow> ClassificationData \<Rightarrow> PodPowerReport \<Rightarrow> str" where
  "group_key group_by cls p = fst (the (group_of group_by cls p))"

lemma group_of_None: "group_of gb cls p = None \<longleftrightarrow> (\<exists>l. gb = GLabel l \<and> map_of (ppr_labels p) l = None)"
  by (cases "workload_key p") (auto simp: group_of_def split: GroupBy.split option.split)

definition group_first :: "GroupBy \<Rightarrow> ClassificationData \<Rightarrow> PodPowerReport \<Rightarrow> GroupPower" where
  "group_first gb cls p =
     group_new (the (group_of gb cls p)) (ppr_namespace p) (fst (classify cls (ppr_namespace p)))"

lemma group_step_selected:
  "group_step gb cat cls p m =
     (if selected gb cat cls p then hm_upsert (group_key gb cls p) (group_first gb cls p) (group_add p) m else m)"
proof (cases "group_of gb cls p")
  case None
  then obtain l where "gb = GLabel l" "map_of (ppr_labels p) l = None" by (auto simp: group_of_None)
  with None show ?thesis by (auto simp: group_step_def selected_def Let_def split: option.split)
next
  case (Some g)
  then have "(case gb of GLabel l \<Rightarrow> map_of (ppr_labels p) l \<noteq> None | _ \<Rightarrow> True)"
    using group_of_None [of gb cls p] by (auto split: GroupBy.split)
  with Some show ?thesis
    by (auto simp: group_step_def selected_def group_key_def group_first_def Let_def split: option.split)
qed

lemma fold_group_step:
  "fold (group_step gb cat cls) ps m =
     fold (\<lambda>p. hm_upsert (group_key gb cls p) (group_first gb cls p) (group_add p)) (filter (selected gb cat cls) ps) m"
  by (induction ps arbitrary: m) (simp_all add: group_step_selected)

lemma fold_group_add:
  "gp_group_key (fold group_add ps e) = gp_group_key e"
  "gp_pods (fold group_add ps e) = gp_pods e @ map pod_summary ps"
  "gp_pod_count (fold group_add ps e) = gp_pod_count e + length ps"
  "gp_cpu_uw (fold group_add ps e) = gp_cpu_uw e + sum_list (map ppr_cpu_uw ps)"
  "gp_memory_uw (fold group_add ps e) = gp_memory_uw e + sum_list (map ppr_memory_uw ps)"
  "gp_gpu_uw (fold group_add ps e) = gp_gpu_uw e + sum_list (map ppr_gpu_uw ps)"
  "gp_storage_uw (fold group_add ps e) = gp_storage_uw e + sum_list (map ppr_storage_uw ps)"
  "gp_io_uw (fold group_add ps e) = gp_io_uw e + sum_list (map ppr_io_uw ps)"
  "gp_total_uw (fold group_add ps e) = gp_total_uw e + sum_list (map ppr_total_uw ps)"
  by (induction ps arbitrary: e) (simp_all add: group_add_def Let_def add_ac)

lemma fold_group_add_namespace:
  "gp_namespace (fold group_add ps e) =
     (if list_all (\<lambda>p. ppr_namespace p = gp_namespace e) ps then gp_namespace e else [])"
  by (induction ps arbitrary: e) (auto simp: group_add_def Let_def)

lemma group_first_fields:
  "gp_namespace (group_first gb cls p) = ppr_namespace p"
  "gp_storage_uw (group_first gb cls p) = 0" "gp_io_uw (group_first gb cls p) = 0"
  "gp_group_key (group_first gb cls p) = group_key gb cls p"
  "gp_pods (group_first gb cls p) = []" "gp_pod_count (group_first gb cls p) = 0"
  "gp_cpu_uw (group_first gb cls p) = 0" "gp_memory_uw (group_first gb cls p) = 0"
  "gp_gpu_uw (group_first gb cls p) = 0" "gp_total_uw (group_first gb cls p) = 0"
  by (auto simp: group_first_def group_new_def group_key_def split: prod.split)

lemma group_power_entries:
  assumes ps_def: "ps = filter (selected gb cat cls) (all_pods a)"
    and grp_def: "grp = (\<lambda>k. filter (\<lambda>p. group_key gb cls p = k) ps)"
  obtains ks where "distinct ks" and "set ks = group_key gb cls ` set ps"
    and "group_power gb cat cls a =
      sort_desc gp_total_uw (map (\<lambda>k. fold group_add (grp k) (group_first gb cls (hd (grp k)))) ks)"
    and "\<And>k. k \<in> set ks \<Longrightarrow> group_key gb cls (hd (grp k)) = k"
proof -
  define g where "g = fold (\<lambda>p. hm_upsert (group_key gb cls p) (group_first gb cls p) (group_add p)) ps []"
  have e: "g = map (\<lambda>k. (k, fold group_add (grp k) (group_first gb cls (hd (grp k))))) (map fst g)"
    and k: "set (map fst g) = group_key gb cls ` set ps"
    unfolding grp_def using hm.entries_grouped [OF hm_wf_Nil refl g_def] by blast+
  have "map snd g = map (\<lambda>k. fold group_add (grp k) (group_first gb cls (hd (grp k)))) (map fst g)"
    using arg_cong [OF e, of "map snd"] by (simp add: comp_def)
  then have "group_power gb cat cls a =
      sort_desc gp_total_uw (map (\<lambda>k. fold group_add (grp k) (group_first gb cls (hd (grp k)))) (map fst g))"
    unfolding group_power_def fold_group_step ps_def [symmetric] g_def [symmetric] by (rule arg_cong)
  moreover have "distinct (map fst g)"
    using hm.wf_fold_upsert [OF hm_wf_Nil] by (simp add: g_def hm_wf_def)
  moreover have "group_key gb cls (hd (grp k)) = k" if "k \<in> set (map fst g)" for k
  proof -
    have "grp k \<noteq> []" using that unfolding k grp_def by (auto simp: filter_empty_conv)
    then show ?thesis unfolding grp_def using hd_in_set by fastforce
  qed
  ultimately show ?thesis using that k by metis
qed

text \<open>
  C12: Grouping by workload, label, namespace or application partitions the selected
  pods: group keys are unique and the groups are in descending order of power; a group
  holds exactly the selected pods with its key, its sums are the sums over them, and it
  names a namespace only if they all share it; and
  the groups' totals add up to the total of the selected pods, so no power is lost and
  no pod is put into two groups.  Without a category, every pod is selected unless the
  grouping is by a label it does not have.
\<close>

theorem group_power_exact:
  "let r = group_power gb cat cls a; pods = filter (selected gb cat cls) (all_pods a)
   in distinct (map gp_group_key r) \<and> gp_group_key ` set r = group_key gb cls ` set pods \<and>
      sorted_wrt (\<lambda>x y. gp_total_uw y \<le> gp_total_uw x) r \<and>
      list_all (\<lambda>e. let ps = filter (\<lambda>p. group_key gb cls p = gp_group_key e) pods
         in gp_pods e = map pod_summary ps \<and> gp_pod_count e = length ps \<and>
            gp_cpu_uw e = sum_list (map ppr_cpu_uw ps) \<and> gp_memory_uw e = sum_list (map ppr_memory_uw ps) \<and>
            gp_gpu_uw e = sum_list (map ppr_gpu_uw ps) \<and> gp_storage_uw e = sum_list (map ppr_storage_uw ps) \<and>
            gp_io_uw e = sum_list (map ppr_io_uw ps) \<and> gp_total_uw e = sum_list (map ppr_total_uw ps) \<and>
            gp_namespace e = (if list_all (\<lambda>p. ppr_namespace p = ppr_namespace (hd ps)) ps
                              then ppr_namespace (hd ps) else [])) r \<and>
      sum_list (map gp_total_uw r) = sum_list (map ppr_total_uw pods)"
proof -
  define pods where "pods = filter (selected gb cat cls) (all_pods a)"
  from group_power_entries [OF pods_def refl]
  obtain ks where ks: "distinct ks" "set ks = group_key gb cls ` set pods"
    "group_power gb cat cls a = sort_desc gp_total_uw (map (\<lambda>k. fold group_add (filter (\<lambda>p. group_key gb cls p = k) pods)
       (group_first gb cls (hd (filter (\<lambda>p. group_key gb cls p = k) pods)))) ks)"
    "\<And>k. k \<in> set ks \<Longrightarrow> group_key gb cls (hd (filter (\<lambda>p. group_key gb cls p = k) pods)) = k"
    by blast
  have sums: "sum_list (map (\<lambda>k. sum_list (map ppr_total_uw (filter (\<lambda>p. group_key gb cls p = k) pods))) ks)
      = sum_list (map ppr_total_uw pods)"
    using ks by (intro sum_list_groups) auto
  have keys: "map (\<lambda>k. group_key gb cls (hd (filter (\<lambda>p. group_key gb cls p = k) pods))) ks = ks"
    using ks(4) by (simp add: map_idI)
  then have keys': "(\<lambda>k. group_key gb cls (hd (filter (\<lambda>p. group_key gb cls p = k) pods))) ` set ks = set ks"
    by (metis list.set_map)
  show ?thesis using ks(1,2,4) sort_desc_sorted sums
    unfolding pods_def [symmetric] ks(3)
    by (auto simp: Let_def distinct_sort_desc comp_def fold_group_add fold_group_add_namespace group_first_fields
        list_all_iff image_image sum_list_sort_desc keys keys')
qed

subsection \<open>Concrete runs\<close>

definition sample_pod_report :: "str \<Rightarrow> str \<Rightarrow> u64 \<Rightarrow> PodPowerReport" where
  "sample_pod_report node uid uw =
     \<lparr>ppr_node_name = node, ppr_pod_uid = uid, ppr_pod_name = ''web'', ppr_namespace = ''shop'', ppr_cpu_uw = uw,
      ppr_memory_uw = 0, ppr_gpu_uw = 0, ppr_storage_uw = 0, ppr_io_uw = 0, ppr_total_uw = uw,
      ppr_timestamp = 5, ppr_workload_uid = [], ppr_workload_name = [], ppr_workload_kind = [],
      ppr_workload_category = [], ppr_labels = [], ppr_metering_method = []\<rparr>"

definition sample_report :: "str \<Rightarrow> str \<Rightarrow> PodPowerReport list \<Rightarrow> AgentReport" where
  "sample_report node meth pods =
     \<lparr>ar_node = \<lparr>npr_node_name = node, npr_cpu_uw = 7, npr_memory_uw = 0, npr_gpu_uw = 0, npr_platform_uw = None,
        npr_psu_output_uw = None, npr_idle_uw = 0, npr_error_ratio = Fin 0, npr_pod_count = 1,
        npr_process_count = 1, npr_timestamp = 5, npr_cpu_source = [], npr_memory_source = [],
        npr_cpu_reading_type = [], npr_sources = [], npr_metering_method = meth\<rparr>,
      ar_pods = pods\<rparr>"

text \<open>One pod metered by both methods, then a report in which it has moved.\<close>

definition sample_both :: ClusterAggregator where
  "sample_both =
     ingest 20 20 20 (sample_report ''n1'' ''kepler'' [sample_pod_report ''n1'' ''p1'' 9])
       (ingest 10 10 10 (sample_report ''n1'' [] [sample_pod_report ''n1'' ''p1'' 7]) aggregator_new)"

definition sample_moved :: AgentReport where
  "sample_moved = sample_report ''n1'' [] [sample_pod_report ''n1'' ''p2'' 3]"

lemmas sample_defs = sample_both_def sample_moved_def sample_report_def sample_pod_report_def aggregator_new_def secs_def

lemma sample_both_reach: "agg_reach consistent_report sample_both"
  unfolding sample_both_def
  by (intro agg_ingest agg_start) (simp_all add: consistent_report_def sample_defs report_method_def)

theorem ingest_pods_exact_witness:
  "hm_wf (ca_pods sample_both) \<and> 30 - ca_staleness_threshold sample_both < 30 \<and>
   map_of (ca_pods (ingest 30 30 30 sample_moved sample_both)) (''p1'', ''keck'') = None \<and>
   map_of (ca_pods (ingest 30 30 30 sample_moved sample_both)) (''p1'', ''kepler'') =
     map_of (ca_pods sample_both) (''p1'', ''kepler'') \<and>
   map_option pst_received_at (map_of (ca_pods (ingest 30 30 30 sample_moved sample_both)) (''p2'', ''keck'')) = Some 30"
proof -
  have wf: "hm_wf (ca_pods sample_both)"
    using agg_inv_reach [OF sample_both_reach] by (simp add: agg_inv_def)
  have stale: "30 - ca_staleness_threshold sample_both < 30" by code_simp
  note exact = ingest_pods_exact [OF wf stale, of 30 sample_moved]
  have "map_of (ca_pods sample_both) (''p1'', ''keck'') \<noteq> None"
    "map_of (ca_pods sample_both) (''p1'', ''kepler'') = Some \<lparr>pst_report =
       (sample_pod_report ''n1'' ''p1'' 9)\<lparr>ppr_metering_method := ''kepler''\<rparr>, pst_received_at = 20\<rparr>"
    "map_option (\<lambda>s. ppr_node_name (pst_report s)) (map_of (ca_pods sample_both) (''p1'', ''keck'')) = Some ''n1''"
    "ca_staleness_threshold sample_both = 60000000000"
    by code_simp+
  then show ?thesis using wf stale unfolding exact
    by (auto simp: sample_moved_def sample_report_def sample_pod_report_def report_method_def Let_def)
qed

theorem ingest_history_exact_witness:
  "hm_wf (ca_history sample_both) \<and>
   namespace_history ''shop'' 0 (ingest 30 30 30 sample_moved sample_both) = [(5, 7), (5, 9), (5, 3)]"
proof -
  have wf: "hm_wf (ca_history sample_both)"
    using agg_inv_reach [OF sample_both_reach] by (simp add: agg_inv_def)
  have "hm_get_or (ca_history sample_both) ''shop'' [] = [(5, 7), (5, 9)]"
    "ca_history_retention sample_both = 3600000000000"
    by code_simp+
  then show ?thesis using wf
    by (simp add: ingest_history_exact [OF wf] sample_moved_def sample_report_def sample_pod_report_def)
qed

lemma nodes_counted_once_witness:
  "agg_reach consistent_report sample_both \<and> cl_node_count (cluster_power None sample_both) = 1 \<and>
   distinct (map nsum_node_name (node_summaries 30 None sample_both))"
  using nodes_counted_once [OF sample_both_reach, of 30 None] sample_both_reach by (simp, code_simp)


text \<open>
  The grouping has no metering method filter: the pod above draws 7 in the default view
  and 16 in the groups.
\<close>

lemma group_power_mixes_methods:
  "map ns_total_uw (namespace_power None sample_both) = [7] \<and>
   map gp_total_uw (group_power GNamespace None classification_default sample_both) = [16]"
  by code_simp

text \<open>
  A pod that carries another method than its report is keyed under the report's method
  and shown under its own, so it can appear twice in one view.
\<close>

lemma inconsistent_pod_counted_twice:
  "map ppr_pod_uid (all_pods_filtered (Some ''kepler'')
     (ingest 20 20 20 (sample_report ''n1'' [] [(sample_pod_report ''n1'' ''p1'' 7)\<lparr>ppr_metering_method := ''kepler''\<rparr>])
       (ingest 10 10 10 (sample_report ''n1'' ''kepler'' [sample_pod_report ''n1'' ''p1'' 9]) aggregator_new)))
   = [''p1'', ''p1'']"
  by code_simp

end
