(* ===== verification/Api.thy ===== *)
theory Api
  imports Aggregator_Facts Json
begin

text \<open>
  The controller's REST API (\<open>keck-controller/src/api/mod.rs\<close>) and the metric families
  it fills (\<open>metrics.rs\<close>).  A handler is a function of the server state, the query
  parameters and the clock; the \<open>authorization\<close> header is the visible string
  \<open>HeaderMap\<close> returns for it, if any.  JSON objects list their members in the order of
  the source; the text encoding of the metric families is the Prometheus library's and
  a parameter.
\<close>

datatype StatusCode = HTTP_OK | UNAUTHORIZED | BAD_REQUEST | NOT_FOUND

text \<open>\<open>Family<Label, Gauge>\<close>, one map per family.\<close>

record Metrics =
  mt_cluster_power_watts :: "(str, f64) hmap"
  mt_namespace_power_watts :: "(str \<times> str, f64) hmap"
  mt_node_power_watts :: "(str, f64) hmap"
  mt_node_error_ratio :: "(str, f64) hmap"
  mt_agent_last_report_secs :: "(str, f64) hmap"
  mt_agent_report_total :: "(str, u64) hmap"
  mt_pod_count :: int
  mt_node_count :: int

definition Metrics_new :: Metrics where
  "Metrics_new =
     \<lparr>mt_cluster_power_watts = [], mt_namespace_power_watts = [], mt_node_power_watts = [],
      mt_node_error_ratio = [], mt_agent_last_report_secs = [], mt_agent_report_total = [],
      mt_pod_count = 0, mt_node_count = 0\<rparr>"

record ServerState =
  sv_aggregator :: ClusterAggregator
  sv_classification :: ClassificationData
  sv_api_key :: "str option"
  sv_metrics :: Metrics

subsection \<open>Authentication and validation\<close>

definition check_auth :: "str option \<Rightarrow> str option \<Rightarrow> StatusCode + unit" where
  "check_auth header api_key =
     (case api_key of
        None \<Rightarrow> Inr ()
      | Some expected \<Rightarrow>
          (case header of
             None \<Rightarrow> Inl UNAUTHORIZED
           | Some h \<Rightarrow>
               (case strip_prefix h ''Bearer '' of
                  None \<Rightarrow> Inl UNAUTHORIZED
                | Some token \<Rightarrow> if token \<noteq> expected then Inl UNAUTHORIZED else Inr ())))"

definition MAX_PODS_PER_REPORT :: nat where "MAX_PODS_PER_REPORT = 2000"
definition MAX_NAME_LEN :: nat where "MAX_NAME_LEN = 512"
definition MAX_POWER_UW :: u64 where "MAX_POWER_UW = 100000000000"

definition show_u64 :: "u64 \<Rightarrow> str" where
  "show_u64 w = show_nat (unat w)"

definition validate_pod :: "PodPowerReport \<Rightarrow> str option" where
  "validate_pod pod =
     (if ppr_pod_uid pod = [] \<or> length (ppr_pod_uid pod) > MAX_NAME_LEN
      then Some (''invalid pod_uid length: '' @ show_nat (length (ppr_pod_uid pod)))
      else if length (ppr_pod_name pod) > MAX_NAME_LEN
      then Some (''pod_name too long: '' @ show_nat (length (ppr_pod_name pod)))
      else if length (ppr_namespace pod) > MAX_NAME_LEN
      then Some (''namespace too long: '' @ show_nat (length (ppr_namespace pod)))
      else if ppr_total_uw pod > MAX_POWER_UW
      then Some (''pod '' @ ppr_pod_uid pod @ '' total_uw exceeds max: '' @ show_u64 (ppr_total_uw pod))
      else None)"

fun validate_pods :: "PodPowerReport list \<Rightarrow> str + unit" where
  "validate_pods [] = Inr ()"
| "validate_pods (pod # pods) = (case validate_pod pod of Some reason \<Rightarrow> Inl reason | None \<Rightarrow> validate_pods pods)"

definition validate_report :: "AgentReport \<Rightarrow> str + unit" where
  "validate_report report =
     (let node = ar_node report
      in if npr_node_name node = [] \<or> length (npr_node_name node) > MAX_NAME_LEN
         then Inl (''invalid node_name length: '' @ show_nat (length (npr_node_name node)))
         else if npr_cpu_uw node > MAX_POWER_UW then Inl (''cpu_uw exceeds max: '' @ show_u64 (npr_cpu_uw node))
         else if npr_memory_uw node > MAX_POWER_UW then Inl (''memory_uw exceeds max: '' @ show_u64 (npr_memory_uw node))
         else if npr_gpu_uw node > MAX_POWER_UW then Inl (''gpu_uw exceeds max: '' @ show_u64 (npr_gpu_uw node))
         else if length (ar_pods report) > MAX_PODS_PER_REPORT
         then Inl (''too many pods: '' @ show_nat (length (ar_pods report)) @ '' (max '' @ show_nat MAX_PODS_PER_REPORT @ '')'')
         else validate_pods (ar_pods report))"

definition handle_report ::
  "instant \<Rightarrow> instant \<Rightarrow> instant \<Rightarrow> str option \<Rightarrow> AgentReport \<Rightarrow> ServerState \<Rightarrow> (StatusCode \<times> str) \<times> ServerState" where
  "handle_report now now_stale now_sys header report st =
     (case check_auth header (sv_api_key st) of
        Inl status \<Rightarrow> ((status, ''unauthorized''), st)
      | Inr _ \<Rightarrow>
          (case validate_report report of
             Inl reason \<Rightarrow> ((BAD_REQUEST, reason), st)
           | Inr _ \<Rightarrow>
               let node_name = npr_node_name (ar_node report); mt = sv_metrics st
               in ((HTTP_OK, []),
                   st\<lparr>sv_metrics := mt\<lparr>mt_agent_report_total :=
                        hm_upsert node_name 0 (\<lambda>c. c + 1) (mt_agent_report_total mt)\<rparr>,
                      sv_aggregator := ingest now now_stale now_sys report (sv_aggregator st)\<rparr>)))"

subsection \<open>Read endpoints\<close>

text \<open>\<open>serde_json\<close> turns a number that is not finite into \<open>null\<close>.\<close>

fun json_f64 :: "f64 \<Rightarrow> json" where
  "json_f64 (Fin q) = JFloat q"
| "json_f64 _ = JNull"

definition jwatts :: "u64 \<Rightarrow> json" where
  "jwatts uw = json_f64 (f64_of_u64 uw / f64_lit 1000000)"

definition jopt :: "('a \<Rightarrow> json) \<Rightarrow> 'a option \<Rightarrow> json" where
  "jopt f x = (case x of None \<Rightarrow> JNull | Some v \<Rightarrow> f v)"

definition category_add :: "ClassificationData \<Rightarrow> PodPowerReport \<Rightarrow> u64 \<times> u64 \<times> u64 \<Rightarrow> u64 \<times> u64 \<times> u64" where
  "category_add cls pod acc =
     (let (app_uw, op_uw, plat_uw) = acc; cat = fst (classify cls (ppr_namespace pod))
      in if cat = ''platform'' then (app_uw, op_uw, plat_uw + ppr_total_uw pod)
         else if cat = ''operator'' then (app_uw, op_uw + ppr_total_uw pod, plat_uw)
         else (app_uw + ppr_total_uw pod, op_uw, plat_uw))"

definition category_power :: "ClassificationData \<Rightarrow> PodPowerReport list \<Rightarrow> u64 \<times> u64 \<times> u64" where
  "category_power cls pods = fold (category_add cls) pods (0, 0, 0)"

definition cluster_node_json :: "NodeSummary \<Rightarrow> json" where
  "cluster_node_json n =
     JObj [(''node_name'', JStr (nsum_node_name n)), (''cpu_watts'', jwatts (nsum_cpu_uw n)),
           (''memory_watts'', jwatts (nsum_memory_uw n)), (''gpu_watts'', jwatts (nsum_gpu_uw n)),
           (''platform_watts'', jopt jwatts (nsum_platform_uw n)),
           (''psu_output_watts'', jopt jwatts (nsum_psu_output_uw n)),
           (''idle_watts'', jwatts (nsum_idle_uw n)), (''pod_count'', JInt (uint (nsum_pod_count n))),
           (''error_ratio'', json_f64 (nsum_error_ratio n)), (''cpu_source'', JStr (nsum_cpu_source n)),
           (''cpu_reading_type'', JStr (nsum_cpu_reading_type n))]"

definition source_json :: "SourceStatus \<Rightarrow> json" where
  "source_json s =
     JObj [(''name'', JStr (ss_name s)), (''node_name'', JStr (ss_node_name s)),
           (''component'', JStr (ss_component s)), (''reading_type'', JStr (ss_reading_type s)),
           (''available'', JBool (ss_available s)), (''selected'', JBool (ss_selected s)),
           (''watts'', jwatts (ss_power_uw s))]"

text \<open>The em dash of two messages, in UTF-8.\<close>

definition em_dash :: str where
  "em_dash = [char_of (226::nat), char_of (128::nat), char_of (148::nat)]"

definition data_quality_json :: "ClusterPower \<Rightarrow> str \<times> str \<Rightarrow> str \<Rightarrow> str option \<Rightarrow> str list \<Rightarrow> json" where
  "data_quality_json pw cpu_info mem_info meth methods =
     (let has_platform = cl_platform_uw pw > 0; has_gpu = cl_gpu_uw pw > 0
      in JObj
       [(''cpu'', JObj [(''source'', JStr (fst cpu_info)), (''type'', JStr (snd cpu_info)),
           (''available'', JBool (cl_cpu_uw pw > 0))]),
        (''memory'', JObj [(''source'', JStr mem_info),
           (''type'', JStr (if str_contains mem_info ''Redfish'' then ''measured''
                            else if cl_memory_uw pw > 0 then ''estimated'' else ''unavailable'')),
           (''available'', JBool (cl_memory_uw pw > 0))]),
        (''gpu'', JObj [(''source'', JStr (if has_gpu then ''NVML'' else ''none'')),
           (''type'', JStr (if has_gpu then ''measured'' else ''unavailable'')), (''available'', JBool has_gpu)]),
        (''platform'', JObj [(''source'', JStr (if has_platform then ''Redfish PSU'' else ''none'')),
           (''type'', JStr (if has_platform then ''measured'' else ''unavailable'')),
           (''available'', JBool has_platform),
           (''note'', JStr (if has_platform then ''PSU measured power (ground truth)''
              else ''No PSU power source '' @ em_dash @ '' configure Redfish/IPMI for ground truth.''))]),
        (''attribution'', JObj [(''method'', JStr (case meth of None \<Rightarrow> ''keck'' | Some m \<Rightarrow> m)),
           (''available_methods'', JArr (map JStr methods)),
           (''note'', JStr (if meth = Some ''kepler'' then ''Kepler: CPU time ratio with active/idle split.''
              else ''Keck: frequency-weighted per-core attribution with eBPF.''))]),
        (''alerts'', JObj [(''missing_ground_truth'', JBool (\<not> has_platform)), (''missing_gpu'', JBool (\<not> has_gpu)),
           (''message'', JStr (if \<not> has_platform
              then ''No platform power source. Configure iDRAC to get measured power.''
              else ''All data sources available.''))])])"

definition handle_cluster :: "instant \<Rightarrow> (str, str) hmap \<Rightarrow> ServerState \<Rightarrow> json" where
  "handle_cluster now params st =
     (let agg = sv_aggregator st; meth = map_of params ''method''; pw = cluster_power meth agg;
          (app_uw, op_uw, plat_uw) = category_power (sv_classification st) (all_pods_filtered meth agg)
      in JObj
       [(''cpu_watts'', jwatts (cl_cpu_uw pw)), (''memory_watts'', jwatts (cl_memory_uw pw)),
        (''gpu_watts'', jwatts (cl_gpu_uw pw)), (''platform_watts'', jwatts (cl_platform_uw pw)),
        (''psu_output_watts'', jwatts (cl_psu_output_uw pw)), (''psu_loss_watts'', jwatts (cl_psu_loss_uw pw)),
        (''idle_watts'', jwatts (cl_idle_uw pw)),
        (''total_attributed_watts'', jwatts (cl_total_attributed_uw pw)),
        (''node_count'', JInt (int (cl_node_count pw))), (''pod_count'', JInt (int (cl_pod_count pw))),
        (''avg_error_ratio'', json_f64 (cl_avg_error_ratio pw)),
        (''category_power'', JObj [(''application_watts'', jwatts app_uw), (''operator_watts'', jwatts op_uw),
           (''platform_watts'', jwatts plat_uw)]),
        (''nodes'', JArr (map cluster_node_json (node_summaries now meth agg))),
        (''sources'', JArr (map source_json (all_sources agg))),
        (''data_quality'', data_quality_json pw (cpu_source_info agg) (memory_source_info agg) meth
           (available_methods agg))])"

definition handle_namespaces :: "(str, str) hmap \<Rightarrow> ServerState \<Rightarrow> json" where
  "handle_namespaces params st =
     JArr (map (\<lambda>ns. JObj
       [(''namespace'', JStr (ns_namespace ns)), (''cpu_watts'', jwatts (ns_cpu_uw ns)),
        (''memory_watts'', jwatts (ns_memory_uw ns)), (''gpu_watts'', jwatts (ns_gpu_uw ns)),
        (''storage_watts'', jwatts (ns_storage_uw ns)), (''io_watts'', jwatts (ns_io_uw ns)),
        (''total_watts'', jwatts (ns_total_uw ns)), (''pod_count'', JInt (int (ns_pod_count ns)))])
      (namespace_power (map_of params ''method'') (sv_aggregator st)))"

definition pod_json :: "PodPowerReport \<Rightarrow> json" where
  "pod_json p =
     JObj [(''pod_uid'', JStr (ppr_pod_uid p)), (''pod_name'', JStr (ppr_pod_name p)),
           (''namespace'', JStr (ppr_namespace p)), (''node_name'', JStr (ppr_node_name p)),
           (''cpu_watts'', jwatts (ppr_cpu_uw p)), (''memory_watts'', jwatts (ppr_memory_uw p)),
           (''gpu_watts'', jwatts (ppr_gpu_uw p)), (''storage_watts'', jwatts (ppr_storage_uw p)),
           (''io_watts'', jwatts (ppr_io_uw p)), (''total_watts'', jwatts (ppr_total_uw p))]"

definition handle_namespace_pods :: "(str, str) hmap \<Rightarrow> ServerState \<Rightarrow> json" where
  "handle_namespace_pods params st =
     JArr (map pod_json
       (pods_in_namespace (hm_get_or params ''ns'' []) (map_of params ''method'') (sv_aggregator st)))"

definition handle_nodes :: "instant \<Rightarrow> (str, str) hmap \<Rightarrow> ServerState \<Rightarrow> json" where
  "handle_nodes now params st =
     JArr (map (\<lambda>n. JObj
       [(''node_name'', JStr (nsum_node_name n)), (''cpu_watts'', jwatts (nsum_cpu_uw n)),
        (''memory_watts'', jwatts (nsum_memory_uw n)), (''gpu_watts'', jwatts (nsum_gpu_uw n)),
        (''platform_watts'', jopt jwatts (nsum_platform_uw n)), (''idle_watts'', jwatts (nsum_idle_uw n)),
        (''error_ratio'', json_f64 (nsum_error_ratio n)), (''pod_count'', JInt (uint (nsum_pod_count n))),
        (''headroom_watts'', jopt jwatts (nsum_headroom_uw n)),
        (''last_seen_secs_ago'', JInt (nsum_last_seen_secs_ago n)),
        (''cpu_source'', JStr (nsum_cpu_source n)), (''cpu_reading_type'', JStr (nsum_cpu_reading_type n)),
        (''metering_method'', JStr (nsum_metering_method n))])
      (node_summaries now (map_of params ''method'') (sv_aggregator st)))"

definition handle_node :: "instant \<Rightarrow> (str, str) hmap \<Rightarrow> ServerState \<Rightarrow> StatusCode + json" where
  "handle_node now params st =
     (case node_summary now (hm_get_or params ''name'' []) (sv_aggregator st) of
        None \<Rightarrow> Inl NOT_FOUND
      | Some node \<Rightarrow> Inr (JObj
         [(''node_name'', JStr (nsum_node_name node)), (''cpu_watts'', jwatts (nsum_cpu_uw node)),
          (''memory_watts'', jwatts (nsum_memory_uw node)), (''gpu_watts'', jwatts (nsum_gpu_uw node)),
          (''platform_watts'', jopt jwatts (nsum_platform_uw node)), (''idle_watts'', jwatts (nsum_idle_uw node)),
          (''error_ratio'', json_f64 (nsum_error_ratio node)), (''pod_count'', JInt (uint (nsum_pod_count node)))]))"

definition handle_pod :: "(str, str) hmap \<Rightarrow> ServerState \<Rightarrow> StatusCode + json" where
  "handle_pod params st =
     (case pod_power_of (hm_get_or params ''uid'' []) (sv_aggregator st) of
        None \<Rightarrow> Inl NOT_FOUND
      | Some pod \<Rightarrow> Inr (pod_json pod))"

definition handle_applications :: "(str, str) hmap \<Rightarrow> ServerState \<Rightarrow> json" where
  "handle_applications params st =
     (let group_by = (case map_of params ''group_by'' of None \<Rightarrow> GApplication | Some s \<Rightarrow> GroupBy_parse s);
          category = map_of params ''category''
      in JArr (map (\<lambda>g. JObj
       [(''group_key'', JStr (gp_group_key g)), (''group_name'', JStr (gp_group_name g)),
        (''group_kind'', JStr (gp_group_kind g)), (''namespace'', JStr (gp_namespace g)),
        (''category'', JStr (gp_category g)), (''cpu_watts'', jwatts (gp_cpu_uw g)),
        (''memory_watts'', jwatts (gp_memory_uw g)), (''gpu_watts'', jwatts (gp_gpu_uw g)),
        (''storage_watts'', jwatts (gp_storage_uw g)), (''io_watts'', jwatts (gp_io_uw g)),
        (''total_watts'', jwatts (gp_total_uw g)), (''pod_count'', JInt (int (gp_pod_count g))),
        (''pods'', JArr (map (\<lambda>p. JObj
           [(''pod_uid'', JStr (pps_pod_uid p)), (''pod_name'', JStr (pps_pod_name p)),
            (''cpu_watts'', jwatts (pps_cpu_uw p)), (''memory_watts'', jwatts (pps_memory_uw p)),
            (''gpu_watts'', jwatts (pps_gpu_uw p)), (''total_watts'', jwatts (pps_total_uw p))]) (gp_pods g)))])
      (group_power group_by category (sv_classification st) (sv_aggregator st))))"

definition gauge_watts :: "u64 \<Rightarrow> f64" where
  "gauge_watts uw = f64_of_u64 uw / f64_lit 1000000"

definition fill_metrics :: "instant \<Rightarrow> ClusterAggregator \<Rightarrow> Metrics \<Rightarrow> Metrics" where
  "fill_metrics now agg mt =
     (let cluster = cluster_power None agg;
          mt1 = mt\<lparr>mt_cluster_power_watts :=
                 AList.update ''platform'' (gauge_watts (cl_platform_uw cluster))
                (AList.update ''gpu'' (gauge_watts (cl_gpu_uw cluster))
                (AList.update ''memory'' (gauge_watts (cl_memory_uw cluster))
                (AList.update ''cpu'' (gauge_watts (cl_cpu_uw cluster)) (mt_cluster_power_watts mt)))),
               mt_pod_count := int (cl_pod_count cluster), mt_node_count := int (cl_node_count cluster)\<rparr>;
          mt2 = fold (\<lambda>ns m. m\<lparr>mt_namespace_power_watts :=
                   AList.update (ns_namespace ns, ''total'') (gauge_watts (ns_total_uw ns)) (mt_namespace_power_watts m)\<rparr>)
                 (namespace_power None agg) mt1
      in fold (\<lambda>node m. m\<lparr>
             mt_node_power_watts := AList.update (nsum_node_name node)
               (gauge_watts (nsum_cpu_uw node + nsum_memory_uw node + nsum_gpu_uw node)) (mt_node_power_watts m),
             mt_node_error_ratio := AList.update (nsum_node_name node) (nsum_error_ratio node) (mt_node_error_ratio m),
             mt_agent_last_report_secs := AList.update (nsum_node_name node)
               (rnd (of_int (nsum_last_seen_secs_ago node))) (mt_agent_last_report_secs m)\<rparr>)
           (node_summaries now None agg) mt2)"

definition handle_metrics :: "(Metrics \<Rightarrow> str) \<Rightarrow> instant \<Rightarrow> ServerState \<Rightarrow> str \<times> ServerState" where
  "handle_metrics render now st =
     (let mt = fill_metrics now (sv_aggregator st) (sv_metrics st)
      in (render mt, st\<lparr>sv_metrics := mt\<rparr>))"

definition handle_healthz :: str where
  "handle_healthz = ''ok''"

end
