(* ===== verification/Api_Facts.thy ===== *)
theory Api_Facts
  imports Api
begin

text \<open>
  What the REST API guarantees: who can change the controller's state and with which
  reports, that the totals over validated reports are exact, and how the metric
  families follow the state.
\<close>

subsection \<open>Ingestion\<close>

definition authorized :: "str option \<Rightarrow> str option \<Rightarrow> bool" where
  "authorized header api_key \<longleftrightarrow> (case api_key of None \<Rightarrow> True | Some key \<Rightarrow> header = Some (''Bearer '' @ key))"

definition pod_in_bounds :: "PodPowerReport \<Rightarrow> bool" where
  "pod_in_bounds p \<longleftrightarrow>
     0 < length (ppr_pod_uid p) \<and> length (ppr_pod_uid p) \<le> 512 \<and> length (ppr_pod_name p) \<le> 512 \<and>
     length (ppr_namespace p) \<le> 512 \<and> unat (ppr_total_uw p) \<le> 10 ^ 11"

definition in_bounds :: "AgentReport \<Rightarrow> bool" where
  "in_bounds r \<longleftrightarrow>
     0 < length (npr_node_name (ar_node r)) \<and> length (npr_node_name (ar_node r)) \<le> 512 \<and>
     unat (npr_cpu_uw (ar_node r)) \<le> 10 ^ 11 \<and> unat (npr_memory_uw (ar_node r)) \<le> 10 ^ 11 \<and>
     unat (npr_gpu_uw (ar_node r)) \<le> 10 ^ 11 \<and> length (ar_pods r) \<le> 2000 \<and> list_all pod_in_bounds (ar_pods r)"

lemma check_auth_iff: "check_auth header api_key = (if authorized header api_key then Inr () else Inl UNAUTHORIZED)"
proof (cases api_key)
  case (Some key)
  show ?thesis
  proof (cases header)
    case h: (Some h)
    show ?thesis
      using strip_prefix_iff [of h "''Bearer ''"]
      by (cases "strip_prefix h ''Bearer ''") (auto simp: check_auth_def authorized_def Some h)
  qed (simp add: check_auth_def authorized_def Some)
qed (simp add: check_auth_def authorized_def)

lemma max_power_le: "\<not> w > MAX_POWER_UW \<longleftrightarrow> unat w \<le> 10 ^ 11"
  by (simp add: MAX_POWER_UW_def unat_simps not_less)

lemma validate_pod_iff: "validate_pod p = None \<longleftrightarrow> pod_in_bounds p"
  using max_power_le [of "ppr_total_uw p"]
  by (auto simp: validate_pod_def pod_in_bounds_def MAX_NAME_LEN_def)

lemma validate_pods_iff: "validate_pods ps = Inr () \<longleftrightarrow> list_all pod_in_bounds ps"
  by (induction ps) (auto simp: validate_pod_iff [symmetric] split: option.split)

lemma validate_report_iff: "validate_report r = Inr () \<longleftrightarrow> in_bounds r"
  using max_power_le [of "npr_cpu_uw (ar_node r)"] max_power_le [of "npr_memory_uw (ar_node r)"]
    max_power_le [of "npr_gpu_uw (ar_node r)"]
  by (auto simp: validate_report_def in_bounds_def Let_def MAX_NAME_LEN_def MAX_PODS_PER_REPORT_def
      validate_pods_iff)

text \<open>
  C6: A report changes the server's state only if the caller presents the configured
  key as its bearer token (or no key is configured) and the report is within the
  documented limits; then it is ingested and counted for its node exactly once.
  Otherwise the answer is 401 for a missing or wrong token, whatever the report holds,
  and 400 for an invalid report, and the state is unchanged.
\<close>

theorem handle_report_guarded:
  "let (reply, st') = handle_report now now_stale now_sys header report st;
       node = npr_node_name (ar_node report); counted = mt_agent_report_total
   in fst reply = (if \<not> authorized header (sv_api_key st) then UNAUTHORIZED
                   else if \<not> in_bounds report then BAD_REQUEST else HTTP_OK) \<and>
      st' = (if fst reply = HTTP_OK
             then st\<lparr>sv_aggregator := ingest now now_stale now_sys report (sv_aggregator st),
                     sv_metrics := sv_metrics st'\<rparr> else st) \<and>
      hm_get_or (counted (sv_metrics st')) n 0 = hm_get_or (counted (sv_metrics st)) n 0 +
        (if fst reply = HTTP_OK \<and> n = node then 1 else 0)"
proof (cases "validate_report report")
  case (Inl reason)
  then have "\<not> in_bounds report" using validate_report_iff [of report] by simp
  with Inl show ?thesis by (simp add: handle_report_def check_auth_iff)
next
  case (Inr u)
  then have "in_bounds report" using validate_report_iff [of report] by (cases u) simp
  with Inr show ?thesis
    by (simp add: handle_report_def check_auth_iff Let_def hm_upsert_def hm_get_or_def)
qed

subsection \<open>Totals over validated reports\<close>

text \<open>
  Reports reach the aggregator through the API, validated, or from the Kepler scraper,
  which marks the node and all its pods with its own metering method.
\<close>

definition scraped :: "AgentReport \<Rightarrow> bool" where
  "scraped r \<longleftrightarrow> npr_metering_method (ar_node r) = ''kepler'' \<and>
     list_all (\<lambda>p. ppr_metering_method p = ''kepler'') (ar_pods r)"

definition accepted :: "AgentReport \<Rightarrow> bool" where
  "accepted r \<longleftrightarrow> validate_report r = Inr () \<or> scraped r"

lemma fold_add_node:
  "cl_cpu_uw (fst (fold add_node xs acc)) = cl_cpu_uw (fst acc) + sum_list (map (npr_cpu_uw \<circ> nst_report) xs)"
  "cl_memory_uw (fst (fold add_node xs acc)) = cl_memory_uw (fst acc) + sum_list (map (npr_memory_uw \<circ> nst_report) xs)"
  "cl_gpu_uw (fst (fold add_node xs acc)) = cl_gpu_uw (fst acc) + sum_list (map (npr_gpu_uw \<circ> nst_report) xs)"
  by (induction xs arbitrary: acc) (auto simp: add_node_def Let_def add_ac split: prod.splits)

lemma cluster_power_sums:
  fixes a :: ClusterAggregator
  defines "nodes \<equiv> \<lambda>meth. filter (node_matches meth) (map snd (ca_nodes a))"
  shows "cl_cpu_uw (cluster_power meth a) = sum_list (map (npr_cpu_uw \<circ> nst_report) (nodes meth))"
    and "cl_memory_uw (cluster_power meth a) = sum_list (map (npr_memory_uw \<circ> nst_report) (nodes meth))"
    and "cl_gpu_uw (cluster_power meth a) = sum_list (map (npr_gpu_uw \<circ> nst_report) (nodes meth))"
    and "cl_total_attributed_uw (cluster_power meth a) =
      cl_cpu_uw (cluster_power meth a) + cl_memory_uw (cluster_power meth a) + cl_gpu_uw (cluster_power meth a)"
  by (simp_all add: cluster_power_def Let_def case_prod_unfold fold_add_node cluster_power_zero_def nodes_def)

lemma keck_node_bounds:
  assumes "agg_inv accepted a" and "s \<in> snd ` set (ca_nodes a)" and "node_matches None s"
  shows "unat (npr_cpu_uw (nst_report s)) \<le> 10 ^ 11" and "unat (npr_memory_uw (nst_report s)) \<le> 10 ^ 11"
    and "unat (npr_gpu_uw (nst_report s)) \<le> 10 ^ 11"
proof -
  obtain r where "accepted r" "nst_report s = ar_node r"
    using assms(1,2) by (auto simp: agg_inv_def node_from_def)
  moreover from this assms(3) have "\<not> scraped r"
    by (auto simp: scraped_def node_matches_def matches_method_def)
  ultimately have "in_bounds r" "nst_report s = ar_node r"
    by (auto simp: accepted_def validate_report_iff)
  then show "unat (npr_cpu_uw (nst_report s)) \<le> 10 ^ 11" "unat (npr_memory_uw (nst_report s)) \<le> 10 ^ 11"
    "unat (npr_gpu_uw (nst_report s)) \<le> 10 ^ 11"
    by (simp_all add: in_bounds_def)
qed

lemma keck_pod_bounds:
  assumes "agg_inv accepted a" and "p \<in> set (all_pods_filtered None a)"
  shows "unat (ppr_total_uw p) \<le> 10 ^ 11"
proof -
  from assms(2) obtain e where e: "e \<in> set (ca_pods a)" "pod_matches None (snd e)" "p = pst_report (snd e)"
    by (auto simp: all_pods_filtered_def)
  then obtain r q where r: "accepted r" "q \<in> set (ar_pods r)" "p = fill_method (report_method r) q"
    using assms(1) by (auto simp: agg_inv_def pod_from_def)
  have "\<not> scraped r"
  proof
    assume "scraped r"
    with r(2) have "ppr_metering_method q = ''kepler''" by (auto simp: scraped_def list_all_iff)
    with r(3) e(2,3) show False by (simp add: pod_matches_def matches_method_def fill_method_def)
  qed
  then have "in_bounds r" using r by (auto simp: accepted_def validate_report_iff)
  with r(2) have "pod_in_bounds q" by (auto simp: in_bounds_def list_all_iff)
  with r(3) show ?thesis by (simp add: fill_method_def pod_in_bounds_def)
qed

lemma unat_sum_bounded:
  fixes f :: "'a \<Rightarrow> u64"
  assumes "\<And>x. x \<in> set xs \<Longrightarrow> unat (f x) \<le> 10 ^ 11" and "length xs \<le> 180000000"
  shows "unat (sum_list (map f xs)) = sum_list (map (\<lambda>x. unat (f x)) xs)"
    and "sum_list (map (\<lambda>x. unat (f x)) xs) \<le> length xs * 10 ^ 11"
proof -
  show le: "sum_list (map (\<lambda>x. unat (f x)) xs) \<le> length xs * 10 ^ 11"
    using assms(1) by (rule sum_list_le_length)
  also have "\<dots> \<le> 180000000 * 10 ^ 11" using assms(2) by (intro mult_le_mono1)
  finally have "sum_list (map unat (map f xs)) < 2 ^ LENGTH(64)" by (simp add: comp_def)
  from unat_sum_list [OF this]
  show "unat (sum_list (map f xs)) = sum_list (map (\<lambda>x. unat (f x)) xs)" by (simp add: comp_def)
qed

text \<open>
  With at most 60 million nodes and 180 million pods no 64-bit sum behind the default
  view wraps around: every report in it is within the limits of the validation.
\<close>

lemma keck_cluster_totals:
  assumes "agg_reach accepted a" and "length (ca_nodes a) \<le> 60000000"
    and nodes_def: "nodes = map nst_report (filter (node_matches None) (map snd (ca_nodes a)))"
  shows "unat (cl_cpu_uw (cluster_power None a)) = sum_list (map (\<lambda>n. unat (npr_cpu_uw n)) nodes)"
    and "unat (cl_memory_uw (cluster_power None a)) = sum_list (map (\<lambda>n. unat (npr_memory_uw n)) nodes)"
    and "unat (cl_gpu_uw (cluster_power None a)) = sum_list (map (\<lambda>n. unat (npr_gpu_uw n)) nodes)"
    and "unat (cl_total_attributed_uw (cluster_power None a)) = sum_list (map (\<lambda>n. unat (npr_cpu_uw n)) nodes)
      + sum_list (map (\<lambda>n. unat (npr_memory_uw n)) nodes) + sum_list (map (\<lambda>n. unat (npr_gpu_uw n)) nodes)"
proof -
  let ?c = "sum_list (map (\<lambda>n. unat (npr_cpu_uw n)) nodes)"
  let ?m = "sum_list (map (\<lambda>n. unat (npr_memory_uw n)) nodes)"
  let ?g = "sum_list (map (\<lambda>n. unat (npr_gpu_uw n)) nodes)"
  have inv: "agg_inv accepted a" using assms(1) by (rule agg_inv_reach)
  have "length nodes \<le> length (map snd (ca_nodes a))" unfolding nodes_def length_map [of nst_report] by (rule length_filter_le)
  with assms(2) have len: "length nodes \<le> 60000000" "length nodes \<le> 180000000" by simp_all
  have "unat (npr_cpu_uw n) \<le> 10 ^ 11 \<and> unat (npr_memory_uw n) \<le> 10 ^ 11 \<and> unat (npr_gpu_uw n) \<le> 10 ^ 11"
    if "n \<in> set nodes" for n
    using that keck_node_bounds [OF inv] by (auto simp: nodes_def)
  note bounds = this [THEN conjunct1] this [THEN conjunct2, THEN conjunct1] this [THEN conjunct2, THEN conjunct2]
  have c: "unat (cl_cpu_uw (cluster_power None a)) = ?c" "?c \<le> length nodes * 10 ^ 11"
    using unat_sum_bounded [where f = npr_cpu_uw, OF bounds(1) len(2)]
    by (simp_all add: cluster_power_sums(1) nodes_def comp_def)
  have m: "unat (cl_memory_uw (cluster_power None a)) = ?m" "?m \<le> length nodes * 10 ^ 11"
    using unat_sum_bounded [where f = npr_memory_uw, OF bounds(2) len(2)]
    by (simp_all add: cluster_power_sums(2) nodes_def comp_def)
  have g: "unat (cl_gpu_uw (cluster_power None a)) = ?g" "?g \<le> length nodes * 10 ^ 11"
    using unat_sum_bounded [where f = npr_gpu_uw, OF bounds(3) len(2)]
    by (simp_all add: cluster_power_sums(3) nodes_def comp_def)
  have "?c + ?m + ?g \<le> 3 * (60000000 * 10 ^ 11)" using c(2) m(2) g(2) len by simp
  then show "unat (cl_total_attributed_uw (cluster_power None a)) = ?c + ?m + ?g"
    unfolding cluster_power_sums(4) by (simp add: unat_plus_bounded c(1) m(1) g(1))
  show "unat (cl_cpu_uw (cluster_power None a)) = ?c" "unat (cl_memory_uw (cluster_power None a)) = ?m"
    "unat (cl_gpu_uw (cluster_power None a)) = ?g"
    using c(1) m(1) g(1) .
qed

lemma keck_namespace_total:
  assumes "agg_reach accepted a" and "length (ca_pods a) \<le> 180000000" and "e \<in> set (namespace_power None a)"
  shows "unat (ns_total_uw e) =
    sum_list (map (\<lambda>p. unat (ppr_total_uw p)) (pods_in_namespace (ns_namespace e) None a))"
proof -
  have inv: "agg_inv accepted a" using assms(1) by (rule agg_inv_reach)
  let ?ps = "pods_in_namespace (ns_namespace e) None a"
  have "unat (ppr_total_uw p) \<le> 10 ^ 11" if "p \<in> set ?ps" for p
    using that keck_pod_bounds [OF inv] by (auto simp: pods_in_namespace_filter)
  moreover have "length ?ps \<le> length (map snd (ca_pods a))"
    unfolding pods_in_namespace_def length_map [of pst_report] by (rule length_filter_le)
  ultimately show ?thesis
    using unat_sum_bounded(1) [of ?ps ppr_total_uw] namespace_total [OF assms(3)] assms(2) by simp
qed

lemma sample_both_accepted: "agg_reach accepted sample_both"
  unfolding sample_both_def
  by (intro agg_ingest agg_start)
    (simp_all add: accepted_def validate_report_iff in_bounds_def pod_in_bounds_def sample_report_def sample_pod_report_def)

subsection \<open>Power by category\<close>

lemma fold_category:
  "fold (category_add cls) pods (x, y, z) =
   (x + sum_list (map ppr_total_uw (filter (\<lambda>p. fst (classify cls (ppr_namespace p)) = ''application'') pods)),
    y + sum_list (map ppr_total_uw (filter (\<lambda>p. fst (classify cls (ppr_namespace p)) = ''operator'') pods)),
    z + sum_list (map ppr_total_uw (filter (\<lambda>p. fst (classify cls (ppr_namespace p)) = ''platform'') pods)))"
proof (induction pods arbitrary: x y z)
  case (Cons p pods)
  have "fst (classify cls (ppr_namespace p)) \<in> {''platform'', ''operator'', ''application''}"
    by (auto simp: classify_def split: option.split)
  moreover have "category_add cls p (x, y, z) =
      (if fst (classify cls (ppr_namespace p)) = ''platform'' then (x, y, z + ppr_total_uw p)
       else if fst (classify cls (ppr_namespace p)) = ''operator'' then (x, y + ppr_total_uw p, z)
       else (x + ppr_total_uw p, y, z))"
    by (simp add: category_add_def Let_def)
  ultimately show ?case by (elim insertE) (simp_all add: Cons.IH add_ac)
qed simp

text \<open>
  The category breakdown of the cluster view assigns every pod to exactly one
  category, by the controller's own classification, and the three categories add up to
  the power of all the pods in the view.
\<close>

lemma category_power_exact:
  "let (app, op, plat) = category_power cls pods;
       of_cat = (\<lambda>c. sum_list (map ppr_total_uw (filter (\<lambda>p. fst (classify cls (ppr_namespace p)) = c) pods)))
   in app = of_cat ''application'' \<and> op = of_cat ''operator'' \<and> plat = of_cat ''platform'' \<and>
      app + op + plat = sum_list (map ppr_total_uw pods)"
proof -
  have "fst (classify cls n) \<in> {''application'', ''operator'', ''platform''}" for n
    by (auto simp: classify_def split: option.split)
  then have "sum_list (map (\<lambda>c. sum_list (map ppr_total_uw (filter (\<lambda>p. fst (classify cls (ppr_namespace p)) = c) pods)))
      [''application'', ''operator'', ''platform'']) = sum_list (map ppr_total_uw pods)"
    by (intro sum_list_groups) auto
  then show ?thesis by (simp add: category_power_def fold_category add_ac)
qed

subsection \<open>Metric families\<close>

lemma map_of_fold_update:
  "map_of (fold (\<lambda>x. AList.update (k x) (v x)) xs m) key =
     (if key \<in> k ` set xs then Some (v (last (filter (\<lambda>x. k x = key) xs))) else map_of m key)"
proof -
  have "AList.update (k x) (v x) = hm_upsert (k x) undefined (\<lambda>_. v x)" for x
    by (rule ext) (simp add: hm_upsert_def)
  moreover have "filter (\<lambda>x. k x = key) xs \<noteq> []" if "key \<in> k ` set xs"
    using that by (auto simp: filter_empty_conv)
  ultimately show ?thesis by (simp add: hm.get_fold_upsert fold_last)
qed

lemma filter_distinct_key:
  assumes "distinct (map k xs)" and "x \<in> set xs"
  shows "filter (\<lambda>y. k y = k x) xs = [x]"
  using assms by (induction xs) (auto simp: filter_empty_conv, metis imageI)

definition node_watts :: "NodeSummary \<Rightarrow> f64" where
  "node_watts n = gauge_watts (nsum_cpu_uw n + nsum_memory_uw n + nsum_gpu_uw n)"

lemma fold_ns_gauges:
  "fold (\<lambda>ns m. m\<lparr>mt_namespace_power_watts := AList.update (f ns) (g ns) (mt_namespace_power_watts m)\<rparr>) xs mt =
     mt\<lparr>mt_namespace_power_watts := fold (\<lambda>ns. AList.update (f ns) (g ns)) xs (mt_namespace_power_watts mt)\<rparr>"
  for mt :: Metrics
  by (induction xs arbitrary: mt) simp_all

lemma fold_node_gauges:
  "fold (\<lambda>n m. m\<lparr>mt_node_power_watts := AList.update (k n) (f n) (mt_node_power_watts m),
      mt_node_error_ratio := AList.update (k n) (g n) (mt_node_error_ratio m),
      mt_agent_last_report_secs := AList.update (k n) (h n) (mt_agent_last_report_secs m)\<rparr>) xs mt =
     mt\<lparr>mt_node_power_watts := fold (\<lambda>n. AList.update (k n) (f n)) xs (mt_node_power_watts mt),
        mt_node_error_ratio := fold (\<lambda>n. AList.update (k n) (g n)) xs (mt_node_error_ratio mt),
        mt_agent_last_report_secs := fold (\<lambda>n. AList.update (k n) (h n)) xs (mt_agent_last_report_secs mt)\<rparr>"
  for mt :: Metrics
  by (induction xs arbitrary: mt) simp_all

lemma fill_metrics_node_power:
  "mt_node_power_watts (fill_metrics now agg mt) =
     fold (\<lambda>n. AList.update (nsum_node_name n) (node_watts n)) (node_summaries now None agg) (mt_node_power_watts mt)"
  "mt_namespace_power_watts (fill_metrics now agg mt) =
     fold (\<lambda>ns. AList.update (ns_namespace ns, ''total'') (gauge_watts (ns_total_uw ns))) (namespace_power None agg)
       (mt_namespace_power_watts mt)"
  by (simp_all add: fill_metrics_def Let_def fold_ns_gauges fold_node_gauges node_watts_def)

text \<open>
  C36: After a scrape, every node of the default view is exported with its own current
  power; a node or namespace that is no longer in the view keeps the value of the last
  scrape that saw it, because nothing is ever removed from a metric family.
\<close>

theorem metrics_follow_view:
  assumes "agg_reach ok agg"
  shows "list_all (\<lambda>n. map_of (mt_node_power_watts (fill_metrics now agg mt)) (nsum_node_name n) = Some (node_watts n))
      (node_summaries now None agg) \<and>
    (name \<notin> nsum_node_name ` set (node_summaries now None agg) \<longrightarrow>
      map_of (mt_node_power_watts (fill_metrics now agg mt)) name = map_of (mt_node_power_watts mt) name) \<and>
    (ns \<notin> ppr_namespace ` set (all_pods_filtered None agg) \<longrightarrow>
      map_of (mt_namespace_power_watts (fill_metrics now agg mt)) (ns, ''total'') =
        map_of (mt_namespace_power_watts mt) (ns, ''total''))"
proof -
  have d: "distinct (map nsum_node_name (node_summaries now None agg))"
    using assms by (rule node_names_distinct)
  have keys: "ns_namespace ` set (namespace_power None agg) = ppr_namespace ` set (all_pods_filtered None agg)"
    by (rule namespace_power_keys)
  have "(ns, ''total'') \<notin> (\<lambda>e. (ns_namespace e, ''total'')) ` set (namespace_power None agg)"
    if "ns \<notin> ppr_namespace ` set (all_pods_filtered None agg)"
    using that unfolding keys [symmetric] by auto
  then show ?thesis using d
    by (auto simp: fill_metrics_node_power list_all_iff filter_distinct_key map_of_fold_update)
qed

theorem metrics_follow_view_witness:
  "agg_reach accepted sample_both \<and>
   map_of (mt_node_power_watts (fill_metrics 30 sample_both Metrics_new)) ''n1'' = Some (gauge_watts 7) \<and>
   map_of (mt_node_power_watts (fill_metrics 40 aggregator_new (fill_metrics 30 sample_both Metrics_new))) ''n1''
     = Some (gauge_watts 7)"
proof -
  have view: "map nsum_node_name (node_summaries 30 None sample_both) = [''n1'']"
    "map node_watts (node_summaries 30 None sample_both) = [gauge_watts 7]"
    "node_summaries 40 None aggregator_new = []"
    by code_simp+
  then obtain n where n: "node_summaries 30 None sample_both = [n]" "nsum_node_name n = ''n1''" "node_watts n = gauge_watts 7"
    by (auto simp: map_eq_Cons_conv)
  have "agg_reach accepted aggregator_new" by (rule agg_start)
  note m1 = metrics_follow_view [OF sample_both_accepted, of 30 Metrics_new]
    and m2 = metrics_follow_view [OF this, of 40 "fill_metrics 30 sample_both Metrics_new" "''n1''"]
  from m1 m2 n view(3) sample_both_accepted show ?thesis by simp
qed

end
