(* ===== verification/Kepler_Scraper.thy ===== *)
theory Kepler_Scraper
  imports Api_Facts Rust_Parse
begin

text \<open>
  The scraper of Kepler's metrics (\<open>keck-controller/src/kepler_scraper.rs\<close>).  The body of
  the HTTP response is an argument; so are the clocks, one reading per pod and per node.
  The order of the maps is their iteration order.
\<close>

subsection \<open>Parsing a metric line\<close>

text \<open>One round of the loop consumes at least the \<open>=\<close> and the opening quote.\<close>

function parse_labels_loop :: "str \<Rightarrow> (str, str) hmap \<Rightarrow> (str, str) hmap" where
  "parse_labels_loop remaining result =
     (if remaining = [] then result
      else (case find_char (CHR ''='') remaining of
              None \<Rightarrow> result
            | Some eq \<Rightarrow>
                let key = trim (dropWhile (\<lambda>c. c = CHR '','') (trim (take eq remaining)));
                    r1 = drop (eq + 1) remaining
                in if \<not> starts_with r1 [quote] then result
                   else let r2 = drop 1 r1
                        in (case find_char quote r2 of
                              None \<Rightarrow> result
                            | Some end_quote \<Rightarrow>
                                let value = take end_quote r2; r3 = drop (end_quote + 1) r2;
                                    r4 = (if starts_with r3 '','' then drop 1 r3 else r3)
                                in parse_labels_loop r4 (AList.update key value result))))"
  by pat_completeness auto

termination
proof (relation "measure (\<lambda>(r, _). length r)", goal_cases)
  case (2 r res eq key r1 r2 eq2 val r3 r4)
  have "length r4 \<le> length r3" using 2 by (simp split: if_splits)
  also have "length r3 \<le> length r1" using 2 by simp
  also have "length r1 < length r" using 2 find_char_Some by fastforce
  finally show ?case by simp
qed simp

definition parse_labels :: "str \<Rightarrow> (str, str) hmap" where
  "parse_labels s = parse_labels_loop s []"

record PodKey =
  pk_pod_id :: str
  pk_pod_name :: str
  pk_pod_namespace :: str
  pk_node_name :: str
  pk_state :: str

record PodAccum =
  pa_cpu_watts :: f64
  pa_gpu_watts :: f64

text \<open>
  The slices between the braces and after the closing one.  The callers pass lines that
  start with a metric name and \<open>{\<close>, so the braces are in order.
\<close>

definition metric_parts :: "str \<Rightarrow> (str \<times> str) option" where
  "metric_parts line =
     (case find_char (CHR ''{'') line of
        None \<Rightarrow> None
      | Some brace_start \<Rightarrow>
          (case find_char (CHR ''}'') line of
             None \<Rightarrow> None
           | Some brace_end \<Rightarrow>
               Some (drop (brace_start + 1) (take brace_end line), trim (drop (brace_end + 1) line))))"

definition parse_pod_metric :: "str \<Rightarrow> (PodKey \<times> f64) option" where
  "parse_pod_metric line =
     (case metric_parts line of
        None \<Rightarrow> None
      | Some (labels_str, value_str) \<Rightarrow>
          (case parse_f64 value_str of
             None \<Rightarrow> None
           | Some watts \<Rightarrow>
               let labels = parse_labels labels_str
               in (case (map_of labels ''pod_id'', map_of labels ''pod_name'', map_of labels ''pod_namespace'',
                         map_of labels ''node_name'', map_of labels ''state'') of
                     (Some i, Some n, Some ns, Some node, Some st) \<Rightarrow>
                       Some (\<lparr>pk_pod_id = i, pk_pod_name = n, pk_pod_namespace = ns, pk_node_name = node,
                              pk_state = st\<rparr>, watts)
                   | _ \<Rightarrow> None)))"

definition parse_node_metric :: "str \<Rightarrow> (str \<times> f64) option" where
  "parse_node_metric line =
     (case metric_parts line of
        None \<Rightarrow> None
      | Some (labels_str, value_str) \<Rightarrow>
          (case parse_f64 value_str of
             None \<Rightarrow> None
           | Some watts \<Rightarrow> map_option (\<lambda>node. (node, watts)) (map_of (parse_labels labels_str) ''node_name'')))"

subsection \<open>Reading a response\<close>

record scrape_data =
  sd_pods :: "(PodKey, PodAccum) hmap"
  sd_node_cpu :: "(str, f64) hmap"
  sd_node_gpu :: "(str, f64) hmap"
  sd_node_idle :: "(str, f64) hmap"
  sd_node_platform :: "(str, f64) hmap"

definition accum_default :: PodAccum where
  "accum_default = \<lparr>pa_cpu_watts = f64_lit 0, pa_gpu_watts = f64_lit 0\<rparr>"

definition add_watts :: "(str \<times> f64) option \<Rightarrow> (str, f64) hmap \<Rightarrow> (str, f64) hmap" where
  "add_watts m h = (case m of None \<Rightarrow> h | Some (node, watts) \<Rightarrow> hm_upsert node (f64_lit 0) (\<lambda>v. v + watts) h)"

definition add_pod_watts ::
  "(f64 \<Rightarrow> PodAccum \<Rightarrow> PodAccum) \<Rightarrow> (PodKey \<times> f64) option \<Rightarrow> (PodKey, PodAccum) hmap \<Rightarrow> (PodKey, PodAccum) hmap" where
  "add_pod_watts add m h =
     (case m of
        None \<Rightarrow> h
      | Some (key, watts) \<Rightarrow>
          if pk_state key \<noteq> ''running'' then h else hm_upsert key accum_default (add watts) h)"

definition scrape_line :: "str \<Rightarrow> scrape_data \<Rightarrow> scrape_data" where
  "scrape_line line d =
     (if starts_with line ''#'' \<or> line = [] then d
      else if starts_with line ''kepler_pod_cpu_watts{''
      then d\<lparr>sd_pods := add_pod_watts (\<lambda>w e. e\<lparr>pa_cpu_watts := pa_cpu_watts e + w\<rparr>) (parse_pod_metric line) (sd_pods d)\<rparr>
      else if starts_with line ''kepler_pod_gpu_watts{''
      then d\<lparr>sd_pods := add_pod_watts (\<lambda>w e. e\<lparr>pa_gpu_watts := pa_gpu_watts e + w\<rparr>) (parse_pod_metric line) (sd_pods d)\<rparr>
      else if starts_with line ''kepler_node_cpu_watts{''
      then d\<lparr>sd_node_cpu := add_watts (parse_node_metric line) (sd_node_cpu d)\<rparr>
      else if starts_with line ''kepler_node_cpu_idle_watts{''
      then d\<lparr>sd_node_idle := add_watts (parse_node_metric line) (sd_node_idle d)\<rparr>
      else if starts_with line ''kepler_node_gpu_watts{''
      then d\<lparr>sd_node_gpu := add_watts (parse_node_metric line) (sd_node_gpu d)\<rparr>
      else if starts_with line ''kepler_platform_watts{''
      then d\<lparr>sd_node_platform := add_watts (parse_node_metric line) (sd_node_platform d)\<rparr>
      else d)"

definition scrape_body :: "str \<Rightarrow> scrape_data" where
  "scrape_body body =
     fold scrape_line (lines body)
       \<lparr>sd_pods = [], sd_node_cpu = [], sd_node_gpu = [], sd_node_idle = [], sd_node_platform = []\<rparr>"

definition to_uw :: "f64 \<Rightarrow> u64" where
  "to_uw watts = f64_to_u64 (watts * f64_lit 1000000)"

definition kepler_pod :: "instant \<Rightarrow> PodKey \<Rightarrow> PodAccum \<Rightarrow> PodPowerReport" where
  "kepler_pod ts key accum =
     (let cpu_uw = to_uw (pa_cpu_watts accum); gpu_uw = to_uw (pa_gpu_watts accum)
      in \<lparr>ppr_node_name = pk_node_name key, ppr_pod_uid = pk_pod_id key, ppr_pod_name = pk_pod_name key,
          ppr_namespace = pk_pod_namespace key, ppr_cpu_uw = cpu_uw, ppr_memory_uw = 0, ppr_gpu_uw = gpu_uw,
          ppr_storage_uw = 0, ppr_io_uw = 0, ppr_total_uw = cpu_uw + gpu_uw, ppr_timestamp = ts,
          ppr_workload_uid = [], ppr_workload_name = [], ppr_workload_kind = [], ppr_workload_category = [],
          ppr_labels = [], ppr_metering_method = ''kepler''\<rparr>)"

definition kepler_error_ratio :: "u64 option \<Rightarrow> u64 \<Rightarrow> f64" where
  "kepler_error_ratio platform_uw total_attributed =
     (case platform_uw of
        None \<Rightarrow> f64_lit 0
      | Some p \<Rightarrow> if p > 0 then f64_of_u64 (i64_unsigned_abs (p - total_attributed)) / f64_of_u64 p else f64_lit 0)"

definition kepler_report :: "(str \<Rightarrow> instant) \<Rightarrow> scrape_data \<Rightarrow> str \<times> PodPowerReport list \<Rightarrow> AgentReport" where
  "kepler_report node_ts d np =
     (let (node_name, pods) = np;
          cpu_uw = to_uw (hm_get_or (sd_node_cpu d) node_name (f64_lit 0));
          gpu_uw = to_uw (hm_get_or (sd_node_gpu d) node_name (f64_lit 0));
          idle_uw = to_uw (hm_get_or (sd_node_idle d) node_name (f64_lit 0));
          platform = map_of (sd_node_platform d) node_name;
          platform_uw = map_option to_uw platform
      in \<lparr>ar_node =
            \<lparr>npr_node_name = node_name, npr_cpu_uw = cpu_uw, npr_memory_uw = 0, npr_gpu_uw = gpu_uw,
             npr_platform_uw = platform_uw, npr_psu_output_uw = None, npr_idle_uw = idle_uw,
             npr_error_ratio = kepler_error_ratio platform_uw (cpu_uw + gpu_uw),
             npr_pod_count = of_nat (length pods), npr_process_count = 0, npr_timestamp = node_ts node_name,
             npr_cpu_source = (if platform \<noteq> None then ''kepler (RAPL + Redfish)'' else ''kepler (RAPL)''),
             npr_memory_source = ''kepler'', npr_cpu_reading_type = ''estimated'', npr_sources = [],
             npr_metering_method = ''kepler''\<rparr>,
          ar_pods = pods\<rparr>)"

definition group_by_node :: "(PodKey \<Rightarrow> instant) \<Rightarrow> scrape_data \<Rightarrow> (str, PodPowerReport list) hmap" where
  "group_by_node pod_ts d =
     fold (\<lambda>(key, accum). hm_push (pk_node_name key) (kepler_pod (pod_ts key) key accum)) (sd_pods d) []"

definition scrape_reports :: "(PodKey \<Rightarrow> instant) \<Rightarrow> (str \<Rightarrow> instant) \<Rightarrow> str \<Rightarrow> AgentReport list" where
  "scrape_reports pod_ts node_ts body =
     (let d = scrape_body body in map (kepler_report node_ts d) (group_by_node pod_ts d))"

text \<open>The aggregator stays locked over the reports of one scrape; each reads the clocks anew.\<close>

definition scrape_and_ingest ::
  "(PodKey \<Rightarrow> instant) \<Rightarrow> (str \<Rightarrow> instant) \<Rightarrow> (str \<Rightarrow> instant \<times> instant \<times> instant) \<Rightarrow> str \<Rightarrow>
     ClusterAggregator \<Rightarrow> nat \<times> ClusterAggregator" where
  "scrape_and_ingest pod_ts node_ts clock body agg =
     (length (sd_pods (scrape_body body)),
      fold (\<lambda>r. let (now, now_stale, now_sys) = clock (npr_node_name (ar_node r)) in ingest now now_stale now_sys r)
        (scrape_reports pod_ts node_ts body) agg)"

text \<open>
  The addresses of Kepler's pods, from the endpoints the Kubernetes API returned
  (\<open>None\<close> when the request failed), and one round over them.  A response is \<open>None\<close> when
  its request failed; it carries the clock readings of its own scrape.
\<close>

definition discover_kepler_pod_ips :: "str list option list option option \<Rightarrow> str list" where
  "discover_kepler_pod_ips ep =
     (case ep of
        None \<Rightarrow> []
      | Some subsets \<Rightarrow>
          concat (map (\<lambda>addresses. case addresses of None \<Rightarrow> [] | Some v \<Rightarrow> v)
            (case subsets of None \<Rightarrow> [] | Some ss \<Rightarrow> ss)))"

record scrape_response =
  rs_pod_ts :: "PodKey \<Rightarrow> instant"
  rs_node_ts :: "str \<Rightarrow> instant"
  rs_clock :: "str \<Rightarrow> instant \<times> instant \<times> instant"
  rs_body :: "str option"

definition scrape_ip :: "(str \<Rightarrow> scrape_response) \<Rightarrow> str \<Rightarrow> nat \<times> ClusterAggregator \<Rightarrow> nat \<times> ClusterAggregator" where
  "scrape_ip get ip ta =
     (let (total, agg) = ta; rs = get ip
      in case rs_body rs of
           None \<Rightarrow> (total, agg)
         | Some body \<Rightarrow>
             let (count, agg') = scrape_and_ingest (rs_pod_ts rs) (rs_node_ts rs) (rs_clock rs) body agg
             in (total + count, agg'))"

definition kepler_round ::
  "(str \<Rightarrow> scrape_response) \<Rightarrow> str list option list option option \<Rightarrow> ClusterAggregator \<Rightarrow> nat \<times> ClusterAggregator" where
  "kepler_round get ep agg = fold (scrape_ip get) (discover_kepler_pod_ips ep) (0, agg)"

subsection \<open>Parsing recovers what was printed\<close>

fun render_labels :: "(str \<times> str) list \<Rightarrow> str" where
  "render_labels [] = []"
| "render_labels [(k, v)] = k @ CHR ''='' # quote # v @ [quote]"
| "render_labels ((k, v) # kv # kvs) = k @ CHR ''='' # quote # v @ quote # CHR '','' # render_labels (kv # kvs)"

definition label_char :: "char \<Rightarrow> bool" where
  "label_char c \<longleftrightarrow> is_digit c \<or> is_upper c \<or> is_lower c \<or> c = CHR ''_''"

definition label_ok :: "str \<times> str \<Rightarrow> bool" where
  "label_ok kv \<longleftrightarrow> fst kv \<noteq> [] \<and> list_all label_char (fst kv) \<and> list_all (\<lambda>c. c \<noteq> quote \<and> c \<noteq> CHR ''}'') (snd kv)"

lemma label_char_facts:
  assumes "label_char c"
  shows "\<not> is_ws c" and "c \<noteq> CHR ''=''" and "c \<noteq> CHR '',''" and "c \<noteq> CHR ''}''" and "c \<noteq> CHR ''{''"
  using assms by (auto simp: label_char_def is_digit_def is_upper_def is_lower_def is_ws_def)

lemma trim_id: "list_all (\<lambda>c. \<not> is_ws c) s \<Longrightarrow> trim s = s"
proof -
  assume s: "list_all (\<lambda>c. \<not> is_ws c) s"
  have "dropWhile is_ws t = t" if "list_all (\<lambda>c. \<not> is_ws c) t" for t
    using that by (cases t) auto
  from this [OF s] this [of "rev s"] s show ?thesis by (simp add: trim_def list_all_iff)
qed

lemma clean_key:
  assumes "list_all label_char k"
  shows "trim (dropWhile (\<lambda>c. c = CHR '','') (trim k)) = k"
proof -
  have ws: "list_all (\<lambda>c. \<not> is_ws c) k" using assms label_char_facts(1) by (auto simp: list_all_iff)
  have "dropWhile (\<lambda>c. c = CHR '','') k = k" using assms label_char_facts(3) by (cases k) auto
  then show ?thesis by (simp add: trim_id [OF ws])
qed

declare parse_labels_loop.simps [simp del]

text \<open>One round of the loop on a well-formed pair.\<close>

lemma parse_labels_step:
  assumes "label_ok (k, v)"
  shows "parse_labels_loop (k @ CHR ''='' # quote # v @ quote # rest) res =
    parse_labels_loop (if starts_with rest '','' then drop 1 rest else rest) (AList.update k v res)"
proof -
  have k: "CHR ''='' \<notin> set k" and v: "quote \<notin> set v"
    using assms label_char_facts(2) by (auto simp: label_ok_def list_all_iff)
  have key: "trim (dropWhile (\<lambda>c. c = CHR '','') (trim k)) = k"
    using assms by (intro clean_key) (simp add: label_ok_def)
  show ?thesis
    by (subst parse_labels_loop.simps)
      (simp add: find_char_append [OF k] find_char_append [OF v] key starts_with_def)
qed

lemma parse_labels_loop_Nil: "parse_labels_loop [] res = res"
  by (simp add: parse_labels_loop.simps)

lemma parse_labels_render:
  "list_all label_ok kvs \<Longrightarrow> parse_labels_loop (render_labels kvs) res = fold (\<lambda>(k, v). AList.update k v) kvs res"
proof (induction kvs arbitrary: res rule: render_labels.induct)
  case (2 k v)
  then show ?case
    using parse_labels_step [of k v "[]" res] by (simp add: starts_with_def parse_labels_loop_Nil)
next
  case (3 k v kv kvs)
  then show ?case
    using parse_labels_step [of k v "CHR '','' # render_labels (kv # kvs)" res] by (simp add: starts_with_def)
qed (simp add: parse_labels_loop_Nil)

lemma label_ok_chars:
  assumes "label_ok (k, v)"
  shows "CHR ''}'' \<notin> set k" and "CHR ''}'' \<notin> set v"
  using assms label_char_facts(4) unfolding label_ok_def list_all_iff by auto

lemma brace_not_quote: "CHR ''}'' \<noteq> quote"
  by code_simp

lemma render_labels_chars: "list_all label_ok kvs \<Longrightarrow> CHR ''}'' \<notin> set (render_labels kvs)"
proof (induction kvs rule: render_labels.induct)
  case (2 k v)
  then show ?case using label_ok_chars [of k v] brace_not_quote by simp
next
  case (3 k v kv kvs)
  then show ?case using label_ok_chars [of k v] brace_not_quote by simp
qed simp

lemma metric_parts_render:
  assumes "list_all label_char name" and "CHR ''}'' \<notin> set labels" and "list_all (\<lambda>c. \<not> is_ws c) v"
  shows "metric_parts (name @ CHR ''{'' # labels @ CHR ''}'' # CHR '' '' # v) = Some (labels, v)"
proof -
  have n: "CHR ''{'' \<notin> set name" "CHR ''}'' \<notin> set name"
    using assms(1) label_char_facts(4,5) by (auto simp: list_all_iff)
  have start: "find_char (CHR ''{'') (name @ CHR ''{'' # labels @ CHR ''}'' # CHR '' '' # v) = Some (length name)"
    using n(1) by (rule find_char_append)
  have "CHR ''}'' \<notin> set (name @ CHR ''{'' # labels)" using n(2) assms(2) by simp
  from find_char_append [OF this, of "CHR '' '' # v"]
  have stop: "find_char (CHR ''}'') (name @ CHR ''{'' # labels @ CHR ''}'' # CHR '' '' # v)
      = Some (Suc (length name + length labels))" by simp
  have "trim (CHR '' '' # v) = v"
    using trim_id [OF assms(3)] by (simp add: trim_def is_ws_def)
  with start stop show ?thesis by (simp add: metric_parts_def)
qed

definition pod_labels :: "PodKey \<Rightarrow> (str \<times> str) list" where
  "pod_labels key =
     [(''node_name'', pk_node_name key), (''pod_id'', pk_pod_id key), (''pod_name'', pk_pod_name key),
      (''pod_namespace'', pk_pod_namespace key), (''state'', pk_state key)]"

definition value_ok :: "str \<Rightarrow> bool" where
  "value_ok v \<longleftrightarrow> list_all (\<lambda>c. c \<noteq> quote \<and> c \<noteq> CHR ''}'') v"

lemma map_of_fold_pairs: "k \<notin> fst ` set xs \<Longrightarrow> map_of (fold (\<lambda>(k, v). AList.update k v) xs m) k = map_of m k"
  by (induction xs arbitrary: m) auto

text \<open>
  C39: Parsing a pod metric line recovers exactly the pod identity and the value that
  were printed, for any label values without a double quote or closing brace and any
  number the standard library accepts; further labels, such as the zone, do not matter.
\<close>

theorem pod_metric_roundtrip:
  assumes "list_all value_ok [pk_node_name key, pk_pod_id key, pk_pod_name key, pk_pod_namespace key, pk_state key]"
    and "list_all label_ok extra" and "fst ` set extra \<inter> fst ` set (pod_labels key) = {}"
    and "list_all label_char name" and "list_all (\<lambda>c. \<not> is_ws c) v" and "parse_f64 v = Some w"
  shows "parse_pod_metric (name @ CHR ''{'' # render_labels (pod_labels key @ extra) @ CHR ''}'' # CHR '' '' # v)
    = Some (key, w)"
proof -
  have "list_all label_ok (pod_labels key)"
    using assms(1) by (simp add: pod_labels_def label_ok_def value_ok_def label_char_def is_lower_def)
  then have ok: "list_all label_ok (pod_labels key @ extra)" using assms(2) by simp
  have lookup: "map_of (parse_labels (render_labels (pod_labels key @ extra))) k = map_of (pod_labels key) k"
    if "k \<in> fst ` set (pod_labels key)" for k
  proof -
    have "k \<notin> fst ` set extra" using that assms(3) by blast
    moreover have "map_of (fold (\<lambda>(k, v). AList.update k v) (pod_labels key) []) k = map_of (pod_labels key) k"
      by (simp add: pod_labels_def)
    ultimately show ?thesis by (simp add: parse_labels_def parse_labels_render [OF ok] map_of_fold_pairs)
  qed
  have "map_of (parse_labels (render_labels (pod_labels key @ extra))) ''pod_id'' = Some (pk_pod_id key)"
    "map_of (parse_labels (render_labels (pod_labels key @ extra))) ''pod_name'' = Some (pk_pod_name key)"
    "map_of (parse_labels (render_labels (pod_labels key @ extra))) ''pod_namespace'' = Some (pk_pod_namespace key)"
    "map_of (parse_labels (render_labels (pod_labels key @ extra))) ''node_name'' = Some (pk_node_name key)"
    "map_of (parse_labels (render_labels (pod_labels key @ extra))) ''state'' = Some (pk_state key)"
    by (simp_all add: lookup pod_labels_def [THEN arg_cong [where f = "\<lambda>l. fst ` set l"]]) (simp_all add: pod_labels_def)
  then show ?thesis
    unfolding parse_pod_metric_def metric_parts_render [OF assms(4) render_labels_chars [OF ok] assms(5)]
    by (simp add: assms(6))
qed

definition sample_key :: PodKey where
  "sample_key = \<lparr>pk_pod_id = ''abc-123'', pk_pod_name = ''web-1'', pk_pod_namespace = ''default'',
     pk_node_name = ''node-1'', pk_state = ''running''\<rparr>"

theorem pod_metric_roundtrip_witness:
  "parse_pod_metric (''kepler_pod_cpu_watts'' @ CHR ''{'' #
     render_labels (pod_labels sample_key @ [(''zone'', ''package'')]) @ CHR ''}'' # CHR '' '' # ''2.5'')
   = Some (sample_key, Fin (5 / 2))"
proof (rule pod_metric_roundtrip)
  show "list_all value_ok [pk_node_name sample_key, pk_pod_id sample_key, pk_pod_name sample_key,
      pk_pod_namespace sample_key, pk_state sample_key]"
    "list_all label_ok [(''zone'', ''package'')]" "list_all label_char ''kepler_pod_cpu_watts''"
    "list_all (\<lambda>c. \<not> is_ws c) ''2.5''" "parse_f64 ''2.5'' = Some (Fin (5 / 2))"
    "fst ` set [(''zone'', ''package'')] \<inter> fst ` set (pod_labels sample_key) = {}"
    by code_simp+
qed

subsection \<open>What a scrape ingests\<close>

lemma group_by_node_inv:
  fixes d :: scrape_data
  defines "pod_of \<equiv> \<lambda>ts (key, accum). kepler_pod (ts key) key accum"
  shows "hm_wf (group_by_node ts d)"
    and "groups_all (\<lambda>node p. ppr_node_name p = node) (group_by_node ts d)"
    and "mset (concat (map snd (group_by_node ts d))) = mset (map (pod_of ts) (sd_pods d))"
proof -
  have "hm_wf (fold (\<lambda>(key, accum). hm_push (pk_node_name key) (kepler_pod (ts key) key accum)) xs m) \<and>
      groups_all (\<lambda>node p. ppr_node_name p = node)
        (fold (\<lambda>(key, accum). hm_push (pk_node_name key) (kepler_pod (ts key) key accum)) xs m) \<and>
      mset (concat (map snd (fold (\<lambda>(key, accum). hm_push (pk_node_name key) (kepler_pod (ts key) key accum)) xs m)))
        = mset (concat (map snd m)) + mset (map (pod_of ts) xs)"
    if "hm_wf m" "groups_all (\<lambda>node p. ppr_node_name p = node) m" for xs m
    using that
  proof (induction xs arbitrary: m)
    case (Cons x xs)
    obtain key accum where x: "x = (key, accum)" by (cases x)
    let ?m = "hm_push (pk_node_name key) (kepler_pod (ts key) key accum) m"
    have "hm_wf ?m" using Cons.prems(1) by simp
    moreover have "groups_all (\<lambda>node p. ppr_node_name p = node) ?m"
      using Cons.prems(2) by (rule groups_all_push) (simp add: kepler_pod_def Let_def)
    ultimately show ?case using Cons.IH [of ?m] by (simp add: x mset_hm_push pod_of_def)
  qed simp
  from this [of "[]" "sd_pods d"]
  show "hm_wf (group_by_node ts d)" "groups_all (\<lambda>node p. ppr_node_name p = node) (group_by_node ts d)"
    "mset (concat (map snd (group_by_node ts d))) = mset (map (pod_of ts) (sd_pods d))"
    by (simp_all add: group_by_node_def)
qed

lemma kepler_report_fields:
  "ar_pods (kepler_report ts d np) = snd np" "npr_node_name (ar_node (kepler_report ts d np)) = fst np"
  "npr_metering_method (ar_node (kepler_report ts d np)) = ''kepler''"
  by (auto simp: kepler_report_def Let_def split: prod.split)

lemma group_by_node_kepler:
  assumes "np \<in> set (group_by_node pod_ts d)"
  shows "list_all (\<lambda>p. ppr_metering_method p = ''kepler'') (snd np)"
proof -
  have "set (snd np) \<subseteq> set (concat (map snd (group_by_node pod_ts d)))" using assms by force
  also have "\<dots> = set (map (\<lambda>(key, accum). kepler_pod (pod_ts key) key accum) (sd_pods d))"
    using group_by_node_inv(3) by (rule mset_eq_setD)
  finally show ?thesis by (auto simp: list_all_iff kepler_pod_def Let_def)
qed

lemma scrape_reports_scraped: "r \<in> set (scrape_reports pod_ts node_ts body) \<Longrightarrow> scraped r"
  using group_by_node_kepler
  by (auto simp: scrape_reports_def Let_def scraped_def kepler_report_fields simp del: split_paired_All)


lemma scrape_reach:
  assumes "agg_reach accepted a"
  shows "agg_reach accepted (snd (scrape_and_ingest pod_ts node_ts clock body a))"
proof -
  have step: "agg_reach accepted (ingest now now_stale now_sys r a)" if "scraped r" "agg_reach accepted a"
    for now now_stale now_sys r a
    using that by (simp add: accepted_def agg_ingest)
  have "agg_reach accepted
      (fold (\<lambda>r. let (now, now_stale, now_sys) = clock (npr_node_name (ar_node r)) in ingest now now_stale now_sys r) rs a)"
    if "list_all scraped rs" "agg_reach accepted a" for rs a
    using that by (induction rs arbitrary: a) (simp_all add: step split: prod.split)
  then show ?thesis
    using assms scrape_reports_scraped by (simp add: scrape_and_ingest_def list_all_iff)
qed

lemma kepler_round_reach:
  assumes "agg_reach accepted a"
  shows "agg_reach accepted (snd (kepler_round get ep a))"
proof -
  have "agg_reach accepted (snd (fold (scrape_ip get) ips ta))" if "agg_reach accepted (snd ta)" for ips ta
    using that
  proof (induction ips arbitrary: ta)
    case (Cons ip ips)
    have "agg_reach accepted (snd (scrape_ip get ip ta))"
      using Cons.prems scrape_reach by (auto simp: scrape_ip_def Let_def split: prod.split option.split)
        (metis snd_conv)
    then show ?case using Cons.IH by simp
  qed simp
  then show ?thesis using assms by (simp add: kepler_round_def)
qed

end
