(* ===== verification/F64_Mono.thy ===== *)
theory F64_Mono
  imports Rust_Parse
begin

text \<open>
  Monotonicity of binary64 arithmetic: rounding, the conversions between integers and
  doubles, and the operations with one argument fixed.
\<close>

lemma f64_le_iff:
  "x \<le> y \<longleftrightarrow> (case (x, y) of
     (NaN, _) \<Rightarrow> False | (_, NaN) \<Rightarrow> False | (NInf, _) \<Rightarrow> True | (_, PInf) \<Rightarrow> True
   | (Fin a, Fin b) \<Rightarrow> a \<le> b | _ \<Rightarrow> False)" for x y :: f64
  by (cases x; cases y) (simp_all add: less_eq_f64_def)

lemma f64_le_refl: "x \<noteq> NaN \<Longrightarrow> x \<le> x" for x :: f64
  by (cases x) (simp_all add: f64_le_iff)

lemma rnd_mono: "q \<le> r \<Longrightarrow> rnd q \<le> rnd r"
proof -
  assume le: "q \<le> r"
  have bound: "0 < overflow_bound" by (simp add: overflow_bound_def)
  have nn: "0 \<le> rnd_pos x" if "0 < x" for x using that rnd_pos_nonneg [of x] by simp
  consider "0 < q" | "q < 0" "0 < r" | "q = 0" "0 < r" | "r < 0" | "q < 0" "r = 0" | "q = 0" "r = 0"
    using le by linarith
  then show ?thesis
  proof cases
    case 1
    then have "rnd_pos q \<le> rnd_pos r" using le by (intro rnd_pos_mono) auto
    then show ?thesis using 1 le by (auto simp: rnd_pos_eq f64_le_iff)
  next
    case 4
    then have "rnd_pos (- r) \<le> rnd_pos (- q)" using le by (intro rnd_pos_mono) auto
    then show ?thesis using 4 le by (auto simp: rnd_neg_eq f64_le_iff)
  next
    case 2
    then show ?thesis using nn [of r] nn [of "- q"] by (auto simp: rnd_pos_eq rnd_neg_eq f64_le_iff)
  next
    case 3
    then show ?thesis using nn [of r] by (auto simp: rnd_pos_eq f64_le_iff)
  next
    case 5
    then show ?thesis using nn [of "- q"] by (auto simp: rnd_neg_eq f64_le_iff)
  qed (simp add: f64_le_iff)
qed

lemma f64_of_u64_le: "v \<le> w \<Longrightarrow> f64_of_u64 v \<le> f64_of_u64 w"
  unfolding f64_of_u64_def by (intro rnd_mono) (simp only: of_int_le_iff word_le_def)

lemma f64_of_u32_le: "v \<le> w \<Longrightarrow> f64_of_u32 v \<le> f64_of_u32 w"
  unfolding f64_of_u32_def by (intro rnd_mono) (simp only: of_int_le_iff word_le_def)

lemma word_of_int_floor_mono:
  fixes p q :: rat
  assumes "0 < p" and "p \<le> q" and "q < 2 ^ LENGTH('a)"
  shows "(word_of_int \<lfloor>p\<rfloor> :: 'a::len word) \<le> word_of_int \<lfloor>q\<rfloor>"
proof -
  have le: "\<lfloor>p\<rfloor> \<le> \<lfloor>q\<rfloor>" and nn: "0 \<le> \<lfloor>p\<rfloor>" using assms by (simp_all add: floor_mono)
  have q: "\<lfloor>q\<rfloor> < 2 ^ LENGTH('a)" using assms(3) by (simp add: floor_less_iff)
  have "uint (word_of_int \<lfloor>p\<rfloor> :: 'a word) = \<lfloor>p\<rfloor>" using nn le q by (intro word_of_int_inverse) auto
  moreover have "uint (word_of_int \<lfloor>q\<rfloor> :: 'a word) = \<lfloor>q\<rfloor>"
    using order_trans [OF nn le] q by (intro word_of_int_inverse) auto
  ultimately show ?thesis using le by (simp only: word_le_def)
qed

lemma f64_to_u32_mono: "x \<le> y \<Longrightarrow> f64_to_u32 x \<le> f64_to_u32 y"
  using word_of_int_floor_mono [where 'a = 32]
  by (cases x; cases y) (auto simp: f64_le_iff f64_to_u32_def)

lemma f64_to_u64_mono: "x \<le> y \<Longrightarrow> f64_to_u64 x \<le> f64_to_u64 y"
  using word_of_int_floor_mono [where 'a = 64]
  by (cases x; cases y) (auto simp: f64_le_iff f64_to_u64_def)

text \<open>Operations with a fixed second argument.\<close>

lemma mult_mono_f64:
  assumes "Fin a \<le> Fin b" and "0 \<le> c"
  shows "Fin a * Fin c \<le> Fin b * Fin c"
  using assms by (simp add: rnd_mono mult_right_mono)

lemma div_mono_f64:
  assumes "Fin a \<le> Fin b" and "0 < c"
  shows "Fin a / Fin c \<le> Fin b / Fin c"
  using assms by (simp add: rnd_mono divide_right_mono)

lemma add_mono_f64: "Fin a \<le> Fin b \<Longrightarrow> Fin a + Fin c \<le> Fin b + Fin c"
  by (simp add: rnd_mono)

lemma f64_min_mono: "x \<le> y \<Longrightarrow> z \<noteq> NaN \<Longrightarrow> f64_min x z \<le> f64_min y z"
  by (cases x; cases y; cases z) (auto simp: f64_min_def f64_le_iff)

text \<open>Bounded values are finite; the forms the components use.\<close>

lemma bounded_mult_mono:
  assumes "bounded_f64 k x" and "bounded_f64 k y" and "x \<le> y" and "bounded_f64 l z"
  shows "x * z \<le> y * z"
  using assms by (auto elim!: bounded_f64E intro!: mult_mono_f64)

lemma bounded_add_mono:
  assumes "bounded_f64 k x" and "bounded_f64 k y" and "x \<le> y" and "bounded_f64 l z"
  shows "x + z \<le> y + z"
  using assms by (auto elim!: bounded_f64E intro!: add_mono_f64)

end
