(* ===== verification/Scheduler.thy ===== *)
theory Scheduler
  imports Aggregator_Facts F64_Mono
begin

text \<open>
  The power-aware scheduler extender (\<open>keck-controller/src/scheduler/mod.rs\<close>): filtering
  and scoring of candidate nodes over the aggregator's default view.  The webhook server
  is not implemented in the source.
\<close>

datatype PlacementStrategy = BinPack | Spread

record SchedulerConfig =
  sc_headroom_weight :: f64
  sc_accuracy_weight :: f64
  sc_strategy :: PlacementStrategy
  sc_namespace_budgets :: "(str, f64) hmap"

definition scheduler_default :: SchedulerConfig where
  "scheduler_default =
     \<lparr>sc_headroom_weight = f64_lit (7 / 10), sc_accuracy_weight = f64_lit (3 / 10), sc_strategy = BinPack,
      sc_namespace_budgets = []\<rparr>"

record NodeScore =
  sco_node_name :: str
  sco_score :: u32
  sco_reason :: str

record FilterResult =
  fr_nodes :: "str list"
  fr_failed :: "(str, str) hmap"

definition summary_map :: "NodeSummary list \<Rightarrow> (str, NodeSummary) hmap" where
  "summary_map nodes = fold (\<lambda>n. AList.update (nsum_node_name n) n) nodes []"

definition current_ns_power :: "str \<Rightarrow> ClusterAggregator \<Rightarrow> f64" where
  "current_ns_power namespace agg =
     (case find (\<lambda>ns. ns_namespace ns = namespace) (namespace_power (Some ''keck'') agg) of
        None \<Rightarrow> f64_lit 0
      | Some ns \<Rightarrow> f64_of_u64 (ns_total_uw ns) / f64_lit 1000000)"

definition filter_node ::
  "(str, NodeSummary) hmap \<Rightarrow> str \<Rightarrow> f64 option \<Rightarrow> f64 \<Rightarrow> str \<Rightarrow> FilterResult \<Rightarrow> FilterResult" where
  "filter_node node_map namespace budget_watts ns_power node_name r =
     (case map_of node_map node_name of
        None \<Rightarrow> r\<lparr>fr_nodes := fr_nodes r @ [node_name]\<rparr>
      | Some summary \<Rightarrow>
          if nsum_error_ratio summary > f64_lit (1 / 2)
          then r\<lparr>fr_failed := AList.update node_name
                 (''power metering unreliable (error ratio: ''
                   @ show_f64_fixed 0 (nsum_error_ratio summary * f64_lit 100) @ ''%)'') (fr_failed r)\<rparr>
          else (case budget_watts of
                  Some budget \<Rightarrow>
                    if ns_power \<ge> budget
                    then r\<lparr>fr_failed := AList.update node_name
                           (''namespace '' @ [CHR 0x27] @ namespace @ [CHR 0x27] @ '' power budget exceeded (''
                             @ show_f64_fixed 0 ns_power @ ''W / '' @ show_f64_fixed 0 budget @ ''W)'') (fr_failed r)\<rparr>
                    else r\<lparr>fr_nodes := fr_nodes r @ [node_name]\<rparr>
                | None \<Rightarrow> r\<lparr>fr_nodes := fr_nodes r @ [node_name]\<rparr>))"

definition filter_nodes :: "SchedulerConfig \<Rightarrow> instant \<Rightarrow> ClusterAggregator \<Rightarrow> str list \<Rightarrow> str \<Rightarrow> FilterResult" where
  "filter_nodes cfg now agg candidate_nodes namespace =
     fold (filter_node (summary_map (node_summaries now (Some ''keck'') agg)) namespace
            (map_of (sc_namespace_budgets cfg) namespace) (current_ns_power namespace agg))
       candidate_nodes \<lparr>fr_nodes = [], fr_failed = []\<rparr>"

definition accuracy_score :: "NodeSummary \<Rightarrow> u32" where
  "accuracy_score s = f64_to_u32 ((f64_lit 1 - nsum_error_ratio s) * f64_lit 100)"

definition used_uw :: "NodeSummary \<Rightarrow> u64" where
  "used_uw s = nsum_cpu_uw s + nsum_memory_uw s + nsum_gpu_uw s"

definition headroom_score :: "PlacementStrategy \<Rightarrow> NodeSummary \<Rightarrow> u32" where
  "headroom_score strategy s =
     (case strategy of
        BinPack \<Rightarrow>
          let utilization = (case nsum_platform_uw s of
                Some platform \<Rightarrow> f64_min (f64_of_u64 (used_uw s) / f64_of_u64 platform) (f64_lit 1)
              | None \<Rightarrow> f64_lit (1 / 2))
          in f64_to_u32 (utilization * f64_lit 100)
      | Spread \<Rightarrow>
          (case nsum_headroom_uw s of
             Some headroom \<Rightarrow>
               (case nsum_platform_uw s of
                  Some platform \<Rightarrow> f64_to_u32 (f64_of_u64 headroom / f64_of_u64 platform * f64_lit 100)
                | None \<Rightarrow> 50)
           | None \<Rightarrow> 50))"

definition combined_score :: "SchedulerConfig \<Rightarrow> NodeSummary \<Rightarrow> u32" where
  "combined_score cfg s =
     min (f64_to_u32 (f64_of_u32 (headroom_score (sc_strategy cfg) s) * sc_headroom_weight cfg
            + f64_of_u32 (accuracy_score s) * sc_accuracy_weight cfg)) 100"

definition strategy_name :: "PlacementStrategy \<Rightarrow> str" where
  "strategy_name strategy = (case strategy of BinPack \<Rightarrow> ''BinPack'' | Spread \<Rightarrow> ''Spread'')"

definition prioritize :: "SchedulerConfig \<Rightarrow> instant \<Rightarrow> ClusterAggregator \<Rightarrow> str list \<Rightarrow> NodeScore list" where
  "prioritize cfg now agg candidate_nodes =
     (let node_map = summary_map (node_summaries now (Some ''keck'') agg)
      in map (\<lambda>name.
           case map_of node_map name of
             None \<Rightarrow> \<lparr>sco_node_name = name, sco_score = 50, sco_reason = ''no power data available''\<rparr>
           | Some summary \<Rightarrow>
               \<lparr>sco_node_name = name, sco_score = combined_score cfg summary,
                sco_reason = ''headroom='' @ show_nat (unat (headroom_score (sc_strategy cfg) summary))
                  @ '', accuracy='' @ show_nat (unat (accuracy_score summary))
                  @ '', strategy='' @ strategy_name (sc_strategy cfg)\<rparr>) candidate_nodes)"

subsection \<open>Filtering\<close>

text \<open>The condition under which a candidate is turned down.\<close>

definition rejected :: "SchedulerConfig \<Rightarrow> instant \<Rightarrow> ClusterAggregator \<Rightarrow> str \<Rightarrow> str \<Rightarrow> bool" where
  "rejected cfg now agg namespace name \<longleftrightarrow>
     (\<exists>s \<in> set (node_summaries now (Some ''keck'') agg). nsum_node_name s = name \<and>
        (nsum_error_ratio s > f64_lit (1 / 2) \<or>
         (case map_of (sc_namespace_budgets cfg) namespace of
            None \<Rightarrow> False | Some budget \<Rightarrow> current_ns_power namespace agg \<ge> budget)))"

lemma map_of_summary_map:
  assumes "distinct (map nsum_node_name nodes)"
  shows "map_of (summary_map nodes) name = find (\<lambda>s. nsum_node_name s = name) nodes"
proof -
  have "map_of (fold (\<lambda>n. AList.update (nsum_node_name n) n) nodes m) name =
      (case find (\<lambda>s. nsum_node_name s = name) nodes of None \<Rightarrow> map_of m name | Some s \<Rightarrow> Some s)" for m
    using assms
  proof (induction nodes arbitrary: m)
    case (Cons n ns)
    have "find (\<lambda>s. nsum_node_name s = name) ns = None" if "nsum_node_name n = name"
      using Cons.prems that by (auto simp: find_None_iff image_def)
    with Cons show ?case by (auto split: option.splits)
  qed simp
  from this [of "[]"] show ?thesis by (simp add: summary_map_def split: option.split)
qed

lemma filter_node_cases:
  assumes "agg_reach ok agg"
    and nm_def: "nm = summary_map (node_summaries now (Some ''keck'') agg)"
  shows "\<exists>reason. filter_node nm namespace (map_of (sc_namespace_budgets cfg) namespace) (current_ns_power namespace agg) name r =
     (if rejected cfg now agg namespace name then r\<lparr>fr_failed := AList.update name reason (fr_failed r)\<rparr>
      else r\<lparr>fr_nodes := fr_nodes r @ [name]\<rparr>)"
proof -
  let ?ns = "node_summaries now (Some ''keck'') agg"
  have d: "distinct (map nsum_node_name ?ns)" using assms(1) by (rule node_names_distinct)
  show ?thesis
  proof (cases "find (\<lambda>s. nsum_node_name s = name) ?ns")
    case None
    then have "\<not> rejected cfg now agg namespace name" by (auto simp: rejected_def find_None_iff)
    with None show ?thesis by (simp add: filter_node_def nm_def map_of_summary_map [OF d])
  next
    case (Some s)
    then have s: "s \<in> set ?ns" "nsum_node_name s = name" by (auto simp: find_Some_iff)
    have "t = s" if "t \<in> set ?ns" "nsum_node_name t = name" for t
      using that s d by (metis distinct_map inj_onD)
    then have "rejected cfg now agg namespace name \<longleftrightarrow>
        nsum_error_ratio s > f64_lit (1 / 2) \<or>
        (case map_of (sc_namespace_budgets cfg) namespace of
           None \<Rightarrow> False | Some budget \<Rightarrow> current_ns_power namespace agg \<ge> budget)"
      using s unfolding rejected_def by blast
    with Some show ?thesis
      by (cases "map_of (sc_namespace_budgets cfg) namespace")
        (auto simp: filter_node_def nm_def map_of_summary_map [OF d])
  qed
qed


subsection \<open>Scoring\<close>

lemma bounded_lit_100: "bounded_f64 7 (f64_lit 100)"
  unfolding f64_lit_def by (intro bounded_f64_rnd) simp_all

lemma f64_lit_one: "f64_lit 1 = Fin 1"
  using rnd_repr [OF repr_of_int [of 1]] by (simp add: f64_lit_def)

lemma bounded_ratio_min: "bounded_f64 0 (f64_min (f64_of_u64 a / f64_of_u64 p) (f64_lit 1))"
proof -
  obtain x where x: "f64_of_u64 a = Fin x" "0 \<le> x" using bounded_f64_u64 [of a] by (rule bounded_f64E)
  obtain y where y: "f64_of_u64 p = Fin y" "0 \<le> y" using bounded_f64_u64 [of p] by (rule bounded_f64E)
  have one: "bounded_f64 0 (Fin 1)" using repr_of_int [of 1] by (intro bounded_f64I [of _ 1]) simp_all
  show ?thesis
  proof (cases "y = 0")
    case True
    then have "f64_min (f64_of_u64 a / f64_of_u64 p) (f64_lit 1) = Fin 1"
      using x y by (auto simp: f64_lit_one f64_min_def divide_f64_def f64_le_iff)
    then show ?thesis using one by simp
  next
    case False
    then have q: "f64_of_u64 a / f64_of_u64 p = rnd (x / y)" "0 \<le> x / y" using x y by simp_all
    show ?thesis
    proof (cases "rnd (x / y)")
      case (Fin r)
      have "0 \<le> r" using rnd_nonneg [OF q(2) Fin] .
      then show ?thesis using Fin q(1) one repr_rnd [OF Fin]
        by (auto simp: f64_lit_one f64_min_def intro!: bounded_f64I [of _ r])
    next
      case NInf
      then show ?thesis using q(2) by (simp add: rnd_def Let_def split: if_splits)
    qed (use q(1) one in \<open>simp_all add: f64_lit_one f64_min_def f64_le_iff\<close>)
  qed
qed

lemma ratio_mono: "a \<le> b \<Longrightarrow> p \<noteq> 0 \<Longrightarrow> f64_of_u64 a / f64_of_u64 p \<le> f64_of_u64 b / f64_of_u64 p"
proof -
  assume "a \<le> b" "p \<noteq> 0"
  then obtain y where y: "f64_of_u64 p = Fin y" "1 \<le> y" using f64_of_u64_ge1 by (metis word_neq_0_conv)
  obtain x where x: "f64_of_u64 a = Fin x" using bounded_f64_u64 [of a] by (rule bounded_f64E)
  obtain x' where x': "f64_of_u64 b = Fin x'" using bounded_f64_u64 [of b] by (rule bounded_f64E)
  have "Fin x \<le> Fin x'" using f64_of_u64_le [OF \<open>a \<le> b\<close>] by (simp only: x x')
  then show ?thesis unfolding x x' y(1) using y(2) by (intro div_mono_f64) auto
qed

lemma ratio_p0: "f64_min (f64_of_u64 a / f64_of_u64 0) (Fin 1) = Fin 1"
proof -
  obtain x where x: "f64_of_u64 a = Fin x" "0 \<le> x" using bounded_f64_u64 [of a] by (rule bounded_f64E)
  have "f64_of_u64 0 = Fin 0" by (simp add: f64_of_u64_def)
  with x show ?thesis by (auto simp: f64_lit_one f64_min_def divide_f64_def f64_le_iff)
qed

lemma headroom_binpack_mono:
  assumes "nsum_platform_uw s = nsum_platform_uw t" and "used_uw s \<le> used_uw t"
  shows "headroom_score BinPack s \<le> headroom_score BinPack t"
proof (cases "nsum_platform_uw t")
  case (Some p)
  have "f64_min (f64_of_u64 (used_uw s) / f64_of_u64 p) (f64_lit 1) \<le>
      f64_min (f64_of_u64 (used_uw t) / f64_of_u64 p) (f64_lit 1)"
    using assms(2) by (cases "p = 0") (simp_all add: ratio_p0 f64_min_mono ratio_mono f64_lit_one)
  then show ?thesis using assms(1) Some
    by (simp add: headroom_score_def f64_to_u32_mono bounded_mult_mono [OF bounded_ratio_min bounded_ratio_min _ bounded_lit_100])
qed (use assms in \<open>simp add: headroom_score_def\<close>)

lemma spread_ratio_mono:
  assumes "a \<le> b" and "b \<le> p"
  shows "f64_to_u32 (f64_of_u64 a / f64_of_u64 p * f64_lit 100) \<le> f64_to_u32 (f64_of_u64 b / f64_of_u64 p * f64_lit 100)"
proof (cases "p = 0")
  case True
  then have "a = b" using assms by simp
  then show ?thesis by simp
next
  case False
  then obtain y where y: "f64_of_u64 p = Fin y" "1 \<le> y" using f64_of_u64_ge1 by (metis word_neq_0_conv)
  have "bounded_f64 64 (f64_of_u64 x / f64_of_u64 p)" for x
    using bounded_f64_div [OF bounded_f64_u64 y] by simp
  then show ?thesis
    using ratio_mono [OF assms(1) False] by (intro f64_to_u32_mono bounded_mult_mono [OF _ _ _ bounded_lit_100])
qed

lemma headroom_spread_anti:
  assumes "nsum_platform_uw s = nsum_platform_uw t" and "used_uw s \<le> used_uw t"
    and "nsum_headroom_uw s = map_option (\<lambda>p. sat_sub p (used_uw s)) (nsum_platform_uw s)"
    and "nsum_headroom_uw t = map_option (\<lambda>p. sat_sub p (used_uw t)) (nsum_platform_uw t)"
  shows "headroom_score Spread t \<le> headroom_score Spread s"
proof (cases "nsum_platform_uw t")
  case (Some p)
  have "sat_sub p (used_uw t) \<le> sat_sub p (used_uw s)"
    using assms(2) by (simp add: unat_simps)
  from spread_ratio_mono [OF this sat_sub_le] show ?thesis
    using assms Some by (simp add: headroom_score_def)
qed (use assms in \<open>simp add: headroom_score_def\<close>)

lemma combined_score_mono:
  assumes "headroom_score (sc_strategy cfg) s \<le> headroom_score (sc_strategy cfg) t"
    and "nsum_error_ratio s = nsum_error_ratio t"
    and "bounded_f64 16 (sc_headroom_weight cfg)" and "bounded_f64 16 (sc_accuracy_weight cfg)"
  shows "combined_score cfg s \<le> combined_score cfg t"
proof -
  have acc: "accuracy_score s = accuracy_score t" using assms(2) by (simp add: accuracy_score_def)
  have b: "bounded_f64 48 (f64_of_u32 w * sc_headroom_weight cfg)" "bounded_f64 48 (f64_of_u32 w * sc_accuracy_weight cfg)" for w
    using bounded_f64_mult [OF bounded_f64_u32 assms(3)] bounded_f64_mult [OF bounded_f64_u32 assms(4)] by simp_all
  have "f64_of_u32 (headroom_score (sc_strategy cfg) s) * sc_headroom_weight cfg
      \<le> f64_of_u32 (headroom_score (sc_strategy cfg) t) * sc_headroom_weight cfg"
    by (rule bounded_mult_mono [OF bounded_f64_u32 bounded_f64_u32 f64_of_u32_le [OF assms(1)] assms(3)])
  from bounded_add_mono [OF b(1) b(1) this b(2)] show ?thesis
    unfolding combined_score_def acc by (intro min.mono f64_to_u32_mono order_refl)
qed

lemma node_summaries_headroom:
  assumes "s \<in> set (node_summaries now meth agg)"
  shows "nsum_headroom_uw s = map_option (\<lambda>p. sat_sub p (used_uw s)) (nsum_platform_uw s)"
  using assms by (auto simp: node_summaries_def Let_def used_uw_def)

lemma find_by_key:
  assumes "distinct (map f xs)" and "x \<in> set xs"
  shows "find (\<lambda>y. f y = f x) xs = Some x"
  using assms by (induction xs) auto

lemma prioritize_scores:
  assumes "agg_reach ok agg" and "set ss \<subseteq> set (node_summaries now (Some ''keck'') agg)"
  shows "map sco_score (prioritize cfg now agg (map nsum_node_name ss)) = map (combined_score cfg) ss"
proof -
  let ?ns = "node_summaries now (Some ''keck'') agg"
  have d: "distinct (map nsum_node_name ?ns)" using assms(1) by (rule node_names_distinct)
  have "find (\<lambda>x. nsum_node_name x = nsum_node_name s) ?ns = Some s" if "s \<in> set ss" for s
    using find_by_key [OF d] that assms(2) by blast
  then show ?thesis by (simp add: prioritize_def map_of_summary_map [OF d])
qed

text \<open>
  C38: Scores never exceed 100, and between two nodes of the view with the same platform
  power and metering error, packing never scores the busier one lower and spreading never
  scores it higher, for all weights below \<open>2 ^ 16\<close>; rounding of the intermediate doubles
  cannot invert the order.
\<close>

theorem score_respects_strategy:
  assumes "agg_reach ok agg"
    and "s \<in> set (node_summaries now (Some ''keck'') agg)" and "t \<in> set (node_summaries now (Some ''keck'') agg)"
    and "nsum_platform_uw s = nsum_platform_uw t" and "nsum_error_ratio s = nsum_error_ratio t"
    and "used_uw s \<le> used_uw t"
    and "bounded_f64 16 (sc_headroom_weight cfg)" and "bounded_f64 16 (sc_accuracy_weight cfg)"
  shows "\<exists>a b. map sco_score (prioritize cfg now agg [nsum_node_name s, nsum_node_name t]) = [a, b] \<and>
     a \<le> 100 \<and> b \<le> 100 \<and> (case sc_strategy cfg of BinPack \<Rightarrow> a \<le> b | Spread \<Rightarrow> b \<le> a)"
proof -
  have "map sco_score (prioritize cfg now agg [nsum_node_name s, nsum_node_name t]) = [combined_score cfg s, combined_score cfg t]"
    using prioritize_scores [OF assms(1), of "[s, t]"] assms(2,3) by simp
  moreover have "(case sc_strategy cfg of BinPack \<Rightarrow> combined_score cfg s \<le> combined_score cfg t
      | Spread \<Rightarrow> combined_score cfg t \<le> combined_score cfg s)"
  proof (cases "sc_strategy cfg")
    case BinPack
    then show ?thesis
      using combined_score_mono [OF _ assms(5,7,8)] headroom_binpack_mono [OF assms(4,6)] by simp
  next
    case Spread
    then show ?thesis
      using combined_score_mono [OF _ assms(5) [symmetric] assms(7,8)]
        headroom_spread_anti [OF assms(4,6) node_summaries_headroom [OF assms(2)] node_summaries_headroom [OF assms(3)]]
      by simp
  qed
  moreover have "combined_score cfg x \<le> 100" for x by (simp add: combined_score_def)
  ultimately show ?thesis
    by (intro exI [of _ "combined_score cfg s"] exI [of _ "combined_score cfg t"]) simp
qed

subsection \<open>A concrete cluster\<close>

text \<open>A busy and an idle node of the same size, and a budget that the namespace exceeds.\<close>

definition sample_node :: "str \<Rightarrow> u64 \<Rightarrow> AgentReport" where
  "sample_node name uw =
     (let r = sample_report name [] [sample_pod_report name (name @ ''-p'') uw]
      in r\<lparr>ar_node := (ar_node r)\<lparr>npr_cpu_uw := uw, npr_platform_uw := Some 100\<rparr>\<rparr>)"

definition sample_cluster :: ClusterAggregator where
  "sample_cluster = ingest 10 10 10 (sample_node ''n2'' 80) (ingest 10 10 10 (sample_node ''n1'' 10) aggregator_new)"

lemma sample_cluster_reach: "agg_reach consistent_report sample_cluster"
  unfolding sample_cluster_def
  by (intro agg_ingest agg_start)
    (simp_all add: sample_node_def Let_def consistent_report_def sample_report_def sample_pod_report_def report_method_def)

definition sample_config :: SchedulerConfig where
  "sample_config = scheduler_default\<lparr>sc_namespace_budgets := [(''shop'', f64_lit (1 / 20000))]\<rparr>"

lemma sample_rejected:
  "filter (\<lambda>n. \<not> rejected sample_config 20 sample_cluster ''shop'' n) [''n1'', ''new'', ''n2''] = [''new'']"
  by code_simp


lemma sample_summaries:
  "map (\<lambda>s. (nsum_node_name s, nsum_platform_uw s, nsum_error_ratio s, used_uw s)) (node_summaries 20 (Some ''keck'') sample_cluster) =
     [(''n1'', Some 100, Fin 0, 10), (''n2'', Some 100, Fin 0, 80)]"
  by code_simp

theorem score_respects_strategy_witness:
  "agg_reach consistent_report sample_cluster \<and>
   (\<exists>a b. map sco_score (prioritize scheduler_default 20 sample_cluster [''n1'', ''n2'']) = [a, b] \<and> a \<le> b)"
proof -
  obtain s t where ns: "node_summaries 20 (Some ''keck'') sample_cluster = [s, t]"
    and st: "nsum_node_name s = ''n1''" "nsum_node_name t = ''n2''" "nsum_platform_uw s = nsum_platform_uw t"
      "nsum_error_ratio s = nsum_error_ratio t" "used_uw s \<le> used_uw t"
    using sample_summaries by (auto simp: map_eq_Cons_conv)
  have w: "bounded_f64 16 (sc_headroom_weight scheduler_default)" "bounded_f64 16 (sc_accuracy_weight scheduler_default)"
    by (auto simp: scheduler_default_def f64_lit_def intro!: bounded_f64_rnd)
  have b: "sc_strategy scheduler_default = BinPack" by (simp add: scheduler_default_def)
  have "s \<in> set (node_summaries 20 (Some ''keck'') sample_cluster)" "t \<in> set (node_summaries 20 (Some ''keck'') sample_cluster)"
    by (simp_all add: ns)
  from score_respects_strategy [OF sample_cluster_reach this st(3-5) w] sample_cluster_reach show ?thesis
    unfolding st(1,2) b PlacementStrategy.case by (elim exE conjE) (intro conjI exI; assumption)
qed

end
