(* ===== verification/Controller.thy ===== *)
theory Controller
  imports Kepler_Scraper Scheduler
begin

text \<open>
  The controller process (\<open>keck-controller/src/main.rs\<close>): the state it starts with, the
  node watcher, and the tasks that share the state.  Every task takes the write lock for a
  whole round, so a run of the process is a sequence of rounds in any order.
\<close>

definition controller_main :: "str option \<Rightarrow> ServerState" where
  "controller_main api_key =
     \<lparr>sv_aggregator = aggregator_new, sv_classification = classification_default, sv_api_key = api_key,
      sv_metrics = Metrics_new\<rparr>"

text \<open>One round of the node watcher; \<open>None\<close> is a failed request, and a node may lack a name.\<close>

definition watch_cluster_nodes :: "str option list option \<Rightarrow> ClusterAggregator \<Rightarrow> ClusterAggregator" where
  "watch_cluster_nodes listed agg =
     (case listed of
        None \<Rightarrow> agg
      | Some items \<Rightarrow> evict_removed_nodes (List.map_filter (\<lambda>name. name) items) agg)"

inductive controller_step :: "ServerState \<Rightarrow> ServerState \<Rightarrow> bool" where
  on_report: "controller_step st (snd (handle_report now now_stale now_sys header report st))"
| on_kepler: "controller_step st (st\<lparr>sv_aggregator := snd (kepler_round get ep (sv_aggregator st))\<rparr>)"
| on_nodes: "controller_step st (st\<lparr>sv_aggregator := watch_cluster_nodes listed (sv_aggregator st)\<rparr>)"
| on_classification: "controller_step st (st\<lparr>sv_classification := refresh_classification operators subs\<rparr>)"
| on_metrics: "controller_step st (snd (handle_metrics render now st))"

inductive_cases controller_stepE: "controller_step st st'"

inductive controller_run :: "str option \<Rightarrow> ServerState \<Rightarrow> bool" for api_key where
  run_start: "controller_run api_key (controller_main api_key)"
| run_step: "controller_run api_key st \<Longrightarrow> controller_step st st' \<Longrightarrow> controller_run api_key st'"

lemma controller_step_accepted:
  assumes "controller_step st st'" and "agg_reach accepted (sv_aggregator st)"
  shows "agg_reach accepted (sv_aggregator st')"
  using assms(1)
  by (elim controller_stepE)
    (use assms(2) in \<open>auto simp: handle_report_def kepler_round_reach watch_cluster_nodes_def handle_metrics_def
      Let_def accepted_def intro: agg_ingest agg_evict split: option.split sum.split\<close>)

lemma controller_run_accepted: "controller_run api_key st \<Longrightarrow> agg_reach accepted (sv_aggregator st)"
  by (induction rule: controller_run.induct) (auto simp: controller_main_def agg_start controller_step_accepted)


text \<open>A run with one accepted and one rejected report.\<close>

definition sample_run :: ServerState where
  "sample_run =
     snd (handle_report 20 20 20 (Some ''Bearer wrong'') (sample_report ''n2'' [] [])
       (snd (handle_report 10 10 10 (Some ''Bearer key'') (sample_report ''n1'' [] [sample_pod_report ''n1'' ''p1'' 7])
         (controller_main (Some ''key'')))))"

lemma sample_run_reach: "controller_run (Some ''key'') sample_run"
  unfolding sample_run_def by (intro run_step [OF _ on_report] run_start)


end
