(* ===== verification/Agent_Report.thy ===== *)
theory Agent_Report
  imports Agent_Conservation Controller
begin

text \<open>
  The two ends of the wire: what the agent sends in a round passes the controller's
  checks and is ingested.
\<close>

subsection \<open>A round, by its parts\<close>

definition round_readings :: "agent_config \<Rightarrow> agent_inputs \<Rightarrow> agent_state \<Rightarrow> collected" where
  "round_readings cfg inp st =
     collect_sources (cf_interval_ns cfg) (source_read (in_fs inp) (in_http inp) (in_env inp) (in_now inp))
       (cf_sources cfg) (ag_prev_readings st)"

definition round_net :: "agent_inputs \<Rightarrow> agent_state \<Rightarrow> (u32, u64 \<times> u64) hmap" where
  "round_net inp st = (case fst (drain_maps inp st) of None \<Rightarrow> [] | Some s \<Rightarrow> es_pid_net_bytes s)"

definition readings_power :: "collected \<Rightarrow> node_power" where
  "readings_power c = \<lparr>nd_cpu_uw = power_or_0 (co_cpu c), nd_mem_uw = power_or_0 (co_mem c),
     nd_storage_uw = power_or_0 (co_storage c), nd_io_uw = power_or_0 (co_io c)\<rparr>"

text \<open>The counters of one scan add up without wrapping around.\<close>

definition scan_fits :: "agent_inputs \<Rightarrow> agent_state \<Rightarrow> bool" where
  "scan_fits inp st =
     (case proc_entries (in_fs inp) of
        None \<Rightarrow> True
      | Some entries \<Rightarrow>
          let refresh = (ag_tick_count st mod 5 = 0); net = round_net inp st
          in scan_no_wrap (in_fs inp) refresh net entries (scan_start (ag_caches st)) \<and>
             sum_list (map (\<lambda>m. unat (pm_net_bytes m))
               (sn_metrics (scan_processes (in_fs inp) refresh net entries (ag_caches st)))) < 2 ^ 64)"

lemma round_frame [simp]:
  "ag_prev_readings (refresh_due cfg inp st) = ag_prev_readings st"
  "ag_caches (refresh_due cfg inp st) = ag_caches st"
  "ag_tick_count (refresh_due cfg inp st) = ag_tick_count st"
  "ag_observer (refresh_due cfg inp st) = ag_observer st"
  "ag_caches (snd (read_counters inp st)) = ag_caches st"
  "ag_tick_count (snd (read_counters inp st)) = ag_tick_count st"
  "ag_observer (snd (read_counters inp st)) = ag_observer st"
  "ag_caches (snd (drain_maps inp st)) = ag_caches st"
  "ag_tick_count (snd (drain_maps inp st)) = ag_tick_count st"
  "ag_caches (feed_tuner snapshot st) = ag_caches st"
  "ag_pod_cache (snd (read_counters inp st)) = ag_pod_cache st"
  "ag_pod_cache (snd (drain_maps inp st)) = ag_pod_cache st"
  "ag_pod_cache (feed_tuner snapshot st) = ag_pod_cache st"
  "ag_tick_count (feed_tuner snapshot st) = ag_tick_count st"
  by (simp_all add: refresh_due_def read_counters_def drain_maps_def feed_tuner_def split_beta Let_def split: option.split)

lemma fst_drain_maps_cong: "ag_observer st = ag_observer st' \<Longrightarrow> fst (drain_maps inp st) = fst (drain_maps inp st')"
  by (simp add: drain_maps_def split_beta Let_def split: option.split)

lemma agent_round_node:
  assumes "agent_round cfg inp st = (report, st')"
  shows "ar_node report = node_report cfg inp (round_readings cfg inp st) (ar_pods report)"
  using assms by (auto simp: agent_round_def Let_def split_beta round_readings_def)

lemma agent_round_plain:
  assumes "agent_round cfg inp st = (report, st')"
    and "npr_cpu_reading_type (ar_node report) \<noteq> ''estimated'' \<or> ag_observer st = None"
    and "npr_gpu_uw (ar_node report) = 0"
  obtains llc caches' where
    "enumerate_pods (in_fs inp) (cf_node_name cfg) (in_now inp) (readings_power (round_readings cfg inp st)) llc
       (ag_pod_cache (refresh_due cfg inp st)) (round_net inp st) (ag_tick_count st) (ag_caches st) = (ar_pods report, caches')"
    and "ar_node report = node_report cfg inp (round_readings cfg inp st) (ar_pods report)"
proof -
  define c where "c = round_readings cfg inp (refresh_due cfg inp st)"
  define rc where "rc = read_counters inp ((refresh_due cfg inp st)\<lparr>ag_prev_readings := co_prev_readings c\<rparr>)"
  define dm where "dm = drain_maps inp (snd rc)"
  define st4 where "st4 = feed_tuner (fst dm) (snd dm)"
  define en where "en = enumerate_pods (in_fs inp) (cf_node_name cfg) (in_now inp) (readings_power c)
    (sum_list (map cd_cache_misses (fst rc))) (ag_pod_cache st4) (case fst dm of None \<Rightarrow> [] | Some s \<Rightarrow> es_pid_net_bytes s)
    (ag_tick_count st4) (ag_caches st4)"
  define pods2 where "pods2 = override_by_ebpf cfg inp c (fst rc) (fst dm) (st4\<lparr>ag_caches := snd en\<rparr>) (fst en)"
  define pods3 where "pods3 = (if power_or_0 (co_gpu c) > 0
     then add_gpu_power_to_pods (in_fs inp) (in_http inp) (in_env inp) (cf_node_name cfg) (in_now inp)
       (ag_pod_cache (st4\<lparr>ag_caches := snd en\<rparr>)) pods2
     else pods2)"
  have "fst (agent_round cfg inp st) = \<lparr>ar_node = node_report cfg inp c pods3, ar_pods = pods3\<rparr>"
    unfolding agent_round_def Let_def split_beta fst_conv snd_conv pods3_def pods2_def en_def st4_def dm_def rc_def c_def
      round_readings_def readings_power_def ..
  with assms(1) have rep: "report = \<lparr>ar_node = node_report cfg inp c pods3, ar_pods = pods3\<rparr>" by simp
  have dm: "fst dm = fst (drain_maps inp st)" unfolding dm_def rc_def by (rule fst_drain_maps_cong) simp
  have c: "c = round_readings cfg inp st" by (simp add: c_def round_readings_def)
  have en: "en = enumerate_pods (in_fs inp) (cf_node_name cfg) (in_now inp) (readings_power (round_readings cfg inp st))
      (sum_list (map cd_cache_misses (fst rc))) (ag_pod_cache (refresh_due cfg inp st)) (round_net inp st) (ag_tick_count st) (ag_caches st)"
    unfolding en_def dm c round_net_def by (simp add: st4_def dm_def rc_def)
  have "pods3 = pods2" using assms(3) rep by (simp add: pods3_def node_report_def)
  moreover have "pods2 = fst en"
  proof (cases "ag_observer st")
    case None
    then have "fst dm = None" by (simp add: dm drain_maps_def)
    then show ?thesis by (simp add: pods2_def override_by_ebpf_def)
  next
    case (Some ob)
    then have "type_or_none (co_cpu c) \<noteq> ''estimated''" using assms(2) rep by (simp add: node_report_def)
    then show ?thesis by (simp add: pods2_def override_by_ebpf_def split: option.split)
  qed
  ultimately show ?thesis using that [of _ "snd en"] en rep c by simp
qed

subsection \<open>The report passes the controller's checks\<close>

lemma extract_pod_uid_length: "extract_pod_uid s = Some uid \<Longrightarrow> 8 \<le> length uid"
proof -
  have "find_map pod_uid_of_line ls = Some uid \<Longrightarrow> 8 \<le> length uid" for ls
    by (induction ls) (auto simp: pod_uid_of_line_def Let_def split: option.splits if_splits)
  then show "extract_pod_uid s = Some uid \<Longrightarrow> 8 \<le> length uid" by (simp add: extract_pod_uid_def)
qed

lemma scan_uids:
  assumes "m \<in> set (sn_metrics (scan_processes fs refresh net entries c))"
  shows "8 \<le> length (pm_pod_uid m)"
proof -
  have step: "\<forall>m \<in> set (sn_metrics (scan_process fs refresh net e s)). 8 \<le> length (pm_pod_uid m)"
    if "\<forall>m \<in> set (sn_metrics s). 8 \<le> length (pm_pod_uid m)" for e s
    using that
    by (auto simp: scan_process_def Let_def split_beta pid_pod_uid_def dest: extract_pod_uid_length
        split: option.splits Option.bind_splits)
  have "\<forall>m \<in> set (sn_metrics (fold (scan_process fs refresh net) entries s)). 8 \<le> length (pm_pod_uid m)"
    if "\<forall>m \<in> set (sn_metrics s). 8 \<le> length (pm_pod_uid m)" for s
    using that
  proof (induction entries arbitrary: s)
    case (Cons e entries)
    from Cons.IH [OF step [OF Cons.prems]] show ?case by simp
  qed simp
  from this [of "scan_start c"] assms show ?thesis by (simp add: scan_processes_def scan_start_def)
qed

lemma pod_metrics_uids: "fst ` set (pod_metrics ms) \<subseteq> pm_pod_uid ` set ms"
proof -
  have "fst ` set (fold (\<lambda>pm. hm_upsert (pm_pod_uid pm) pod_metrics_zero (add_process pm)) ms acc)
      \<subseteq> fst ` set acc \<union> pm_pod_uid ` set ms" for acc
  proof (induction ms arbitrary: acc)
    case (Cons m ms)
    have "fst ` set (hm_upsert (pm_pod_uid m) pod_metrics_zero (add_process m) acc) \<subseteq> insert (pm_pod_uid m) (fst ` set acc)"
      unfolding set_map [symmetric] hm_upsert_def update_keys by auto
    with Cons [of "hm_upsert (pm_pod_uid m) pod_metrics_zero (add_process m) acc"] show ?case by auto
  qed simp
  from this [of "[]"] show ?thesis by (simp add: pod_metrics_def)
qed

lemma round_pods_in_bounds:
  assumes run: "enumerate_pods (in_fs inp) node now pwr llc cache (round_net inp st) (ag_tick_count st) (ag_caches st) = (pods, caches')"
    and fits: "scan_fits inp st" and few: "length pods \<le> 2000"
    and small: "unat (nd_cpu_uw pwr) \<le> B" "unat (nd_mem_uw pwr) \<le> B" "unat (nd_storage_uw pwr) \<le> B" "unat (nd_io_uw pwr) \<le> B"
    and B: "B = 25 * 10 ^ 9"
    and p: "p \<in> set pods" and names: "length (ppr_pod_uid p) \<le> 512" "length (ppr_pod_name p) \<le> 512" "length (ppr_namespace p) \<le> 512"
  shows "pod_in_bounds p"
proof (cases "proc_entries (in_fs inp)")
  case None
  then show ?thesis using run p by (auto simp: enumerate_pods_def)
next
  case (Some entries)
  note fit = fits [unfolded scan_fits_def Some option.case Let_def]
  have "(length pods + 1) * unat x < 2 ^ 50" if "unat x \<le> B" for x :: u64
    using mult_mono [of "length pods + 1" 2001 "unat x" B] few that by (simp add: B)
  then have "node_small (length pods) pwr" using small by (simp add: node_small_def)
  then have within: "within_node pwr pods"
    using enumerate_pods_fair [OF run Some] fit by blast
  have le: "unat (f p) \<le> B" if "sum_list (map (\<lambda>p. unat (f p)) pods) \<le> unat x" "unat x \<le> B" for f and x :: u64
    using member_le_sum_list_nat [OF p, of "\<lambda>p. unat (f p)"] that by linarith
  have parts: "unat (ppr_cpu_uw p) \<le> B" "unat (ppr_memory_uw p) \<le> B" "unat (ppr_storage_uw p) \<le> B" "unat (ppr_io_uw p) \<le> B"
    using within small le unfolding within_node_def by blast+
  have "unat (ppr_total_uw p) = unat (ppr_cpu_uw p) + unat (ppr_memory_uw p) + unat (ppr_storage_uw p) + unat (ppr_io_uw p)"
    using parts unfolding enumerate_pods_total [OF run p] by (simp add: B unat_plus_bounded)
  then have total: "unat (ppr_total_uw p) \<le> 10 ^ 11" using parts by (simp add: B)
  have "ppr_pod_uid p \<in> ppr_pod_uid ` set pods" using p by (rule imageI)
  also have "\<dots> \<subseteq> pm_pod_uid ` set (sn_metrics (scan_processes (in_fs inp) (ag_tick_count st mod 5 = 0) (round_net inp st) entries (ag_caches st)))"
    using pod_metrics_uids arg_cong [OF enumerate_pods_uids [OF run Some], of set] by simp
  finally have "8 \<le> length (ppr_pod_uid p)" using scan_uids by auto
  then show ?thesis using names total by (auto simp: pod_in_bounds_def)
qed


text \<open>A node with one RAPL package, two pods and no eBPF programs.\<close>

definition sample_machine :: file_system where
  "sample_machine = sample_proc\<lparr>fs_read := (\<lambda>p. case fs_read sample_proc p of Some s \<Rightarrow> Some s | None \<Rightarrow> fs_read sample_fs p)\<rparr>"

definition sample_cfg :: agent_config where
  "sample_cfg = \<lparr>cf_node_name = ''worker-1'', cf_interval_ns = 1000000000, cf_sources = [Rapl sample_rapl],
     cf_exact_labels = [], cf_prefix_labels = [], cf_operator_namespaces = {}, cf_api_key = Some ''k''\<rparr>"

definition sample_state :: agent_state where
  "sample_state = \<lparr>ag_prev_readings = [(''rapl:package:0'', 1000)], ag_caches = sample_caches, ag_tick_count = 1,
     ag_pod_cache = [], ag_owner_cache = [], ag_last_pod_refresh = 0, ag_observer = None, ag_counters = None,
     ag_tuner = None, ag_healthy = False\<rparr>"

definition sample_inputs :: agent_inputs where
  "sample_inputs = \<lparr>in_now = 5, in_fs = sample_machine, in_http = no_http, in_env = (\<lambda>_. None),
     in_read_counter = (\<lambda>_ _. None), 
     in_iter = \<lparr>io_cpu_time = (\<lambda>_. True), io_freq_time = (\<lambda>_. True), io_cgroup = (\<lambda>_. True), io_net = (\<lambda>_. True), io_hw = (\<lambda>_. True)\<rparr>,
     in_proc_exists = (\<lambda>_. True), in_owners = (\<lambda>_ _ _. None), in_listed = None\<rparr>"

lemma sample_fields:
  "in_fs sample_inputs = sample_machine" "in_now sample_inputs = 5" "cf_node_name sample_cfg = ''worker-1''"
  "ag_pod_cache (refresh_due sample_cfg sample_inputs sample_state) = []" "round_net sample_inputs sample_state = []"
  "ag_tick_count sample_state = 1" "ag_caches sample_state = sample_caches"
  by (simp_all add: sample_inputs_def sample_cfg_def sample_state_def refresh_due_def round_net_def drain_maps_def)

lemma sample_round_readings:
  "power_or_0 (co_cpu (round_readings sample_cfg sample_inputs sample_state)) = 234"
  "power_or_0 (co_gpu (round_readings sample_cfg sample_inputs sample_state)) = 0"
  "map sr_power (co_rows (round_readings sample_cfg sample_inputs sample_state)) = [234]"
  by code_simp+

lemma enumerate_pods_names:
  assumes "enumerate_pods fs node now pwr llc [] net tick caches = (pods, caches')" and "p \<in> set pods"
  shows "ppr_pod_name p = ppr_pod_uid p" and "ppr_namespace p = ''unknown''"
  using assms by (auto simp: enumerate_pods_def Let_def attribute_pod_def pod_report_def split_beta split: option.splits if_splits)


end
