(* ===== verification/Agent_Identity_Facts.thy ===== *)
theory Agent_Identity_Facts
  imports Agent_Identity
begin

text \<open>
  The cache of owners is transparent: pods get the workload that a resolution without the
  cache gives them.
\<close>

subsection \<open>Resolution without the cache\<close>

definition refresh_uncached ::
  "owners_of \<Rightarrow> str list \<Rightarrow> str list \<Rightarrow> str set \<Rightarrow> k8s_pod list \<Rightarrow> (str, PodIdentity) hmap" where
  "refresh_uncached owners exact_labels prefix_labels operator_namespaces pods =
     fold (\<lambda>pod cache. fst (cache_pod owners exact_labels prefix_labels operator_namespaces pod (cache, []))) pods []"

text \<open>The intermediate owner a pod names: its identifier, and where it is looked up.\<close>

definition owner_key :: "k8s_pod \<Rightarrow> (str \<times> str \<times> str \<times> str) option" where
  "owner_key pod =
     map_option (\<lambda>r. (or_uid r, or_default (kp_namespace pod), or_name r, or_kind r))
       (select_controller_owner (or_default (kp_owner_references pod)))"

text \<open>An identifier belongs to one object of the cluster.\<close>

definition uids_identify :: "k8s_pod list \<Rightarrow> bool" where
  "uids_identify pods =
     (let keys = List.map_filter owner_key pods
      in list_all (\<lambda>x. list_all (\<lambda>y. fst x \<noteq> fst y \<or> x = y) keys) keys)"

definition owner_mapping :: "owners_of \<Rightarrow> str \<times> str \<times> str \<times> str \<Rightarrow> OwnerMapping" where
  "owner_mapping owners key =
     (let (uid, namespace, name, kind) = key
      in case resolve_intermediate_owner owners namespace name kind of
           Some m \<Rightarrow> m
         | None \<Rightarrow> \<lparr>om_uid = uid, om_name = name, om_kind = kind\<rparr>)"

definition valid_owners :: "owners_of \<Rightarrow> k8s_pod list \<Rightarrow> (str, OwnerMapping) hmap \<Rightarrow> bool" where
  "valid_owners owners pods cache \<longleftrightarrow>
     (\<forall>uid m. map_of cache uid = Some m \<longrightarrow>
        (\<exists>key \<in> set (List.map_filter owner_key pods). fst key = uid \<and> m = owner_mapping owners key))"

lemma uids_identifyD:
  "\<lbrakk>uids_identify pods; x \<in> set (List.map_filter owner_key pods); y \<in> set (List.map_filter owner_key pods); fst x = fst y\<rbrakk> \<Longrightarrow> x = y"
  by (auto simp: uids_identify_def Let_def list_all_iff)

lemma resolve_owner_cached:
  fixes uid name :: str
  assumes "uids_identify pods" and "valid_owners owners pods cache" and "pod \<in> set pods"
  defines "run \<equiv> resolve_owner owners uid name (or_default (kp_namespace pod)) (or_default (kp_owner_references pod))"
  shows "fst (run cache) = fst (run [])" and "valid_owners owners pods (snd (run cache))"
proof -
  show "fst (run cache) = fst (run [])"
  proof (cases "select_controller_owner (or_default (kp_owner_references pod))")
    case None
    then show ?thesis by (simp add: run_def resolve_owner_def)
  next
    case (Some r)
    define key where "key = (or_uid r, or_default (kp_namespace pod), or_name r, or_kind r)"
    have key: "key \<in> set (List.map_filter owner_key pods)"
      using assms(3) Some by (force simp: owner_key_def key_def List.map_filter_def)
    have "m = owner_mapping owners key" if "map_of cache (or_uid r) = Some m" for m
      using that assms(2) uids_identifyD [OF assms(1) key] by (force simp: valid_owners_def key_def)
    then show ?thesis
      by (auto simp: run_def resolve_owner_def Some Let_def owner_mapping_def key_def split: option.split)
  qed
  show "valid_owners owners pods (snd (run cache))"
  proof (cases "select_controller_owner (or_default (kp_owner_references pod))")
    case None
    then show ?thesis using assms(2) by (simp add: run_def resolve_owner_def)
  next
    case (Some r)
    define key where "key = (or_uid r, or_default (kp_namespace pod), or_name r, or_kind r)"
    have "key \<in> set (List.map_filter owner_key pods)"
      using assms(3) Some by (force simp: owner_key_def key_def List.map_filter_def)
    then have "valid_owners owners pods (AList.update (or_uid r) (owner_mapping owners key) cache)"
      using assms(2) by (force simp: valid_owners_def key_def)
    then show ?thesis using assms(2)
      by (auto simp: run_def resolve_owner_def Some Let_def owner_mapping_def key_def split: option.split)
  qed
qed

lemma cache_pod_cached:
  fixes exact_labels prefix_labels operator_namespaces
  assumes "uids_identify pods" and "valid_owners owners pods oc" and "pod \<in> set pods"
  defines "run \<equiv> cache_pod owners exact_labels prefix_labels operator_namespaces pod"
  shows "fst (run (cache, oc)) = fst (run (cache, []))" and "valid_owners owners pods (snd (run (cache, oc)))"
proof -
  note ro = resolve_owner_cached [OF assms(1-3)]
  show "fst (run (cache, oc)) = fst (run (cache, []))"
    unfolding run_def cache_pod_def Let_def split_beta by (simp add: ro(1) split: option.split)
  show "valid_owners owners pods (snd (run (cache, oc)))"
    unfolding run_def cache_pod_def Let_def split_beta using assms(2) by (simp add: ro(2) split: option.split)
qed

lemma fold_cache_pod_cached:
  fixes exact_labels prefix_labels operator_namespaces
  assumes "uids_identify pods" and "valid_owners owners pods oc" and "set ps \<subseteq> set pods"
  defines "run \<equiv> cache_pod owners exact_labels prefix_labels operator_namespaces"
  shows "fst (fold run ps (cache, oc)) = fold (\<lambda>pod c. fst (run pod (c, []))) ps cache \<and>
    valid_owners owners pods (snd (fold run ps (cache, oc)))"
  using assms(2,3)
proof (induction ps arbitrary: cache oc)
  case (Cons p ps)
  obtain c' oc' where step: "run p (cache, oc) = (c', oc')" by (cases "run p (cache, oc)")
  have "p \<in> set pods" using Cons.prems(2) by simp
  from cache_pod_cached [OF assms(1) Cons.prems(1) this, of exact_labels prefix_labels operator_namespaces cache] step
  have "c' = fst (run p (cache, []))" "valid_owners owners pods oc'" by (simp_all add: run_def)
  with Cons.IH [of oc' c'] Cons.prems(2) step show ?case by simp
qed simp


definition sample_pod :: "str \<Rightarrow> k8s_pod" where
  "sample_pod uid = \<lparr>kp_uid = Some uid, kp_name = Some (''web-'' @ uid), kp_namespace = Some ''shop'', kp_labels = None,
     kp_owner_references = Some [\<lparr>or_uid = ''rs'', or_name = ''web-7d'', or_kind = ''ReplicaSet'', or_controller = Some True\<rparr>]\<rparr>"

definition sample_owners :: owners_of where
  "sample_owners kind namespace name =
     (if (kind, namespace, name) = (''ReplicaSet'', ''shop'', ''web-7d'')
      then Some (Some [\<lparr>or_uid = ''dep'', or_name = ''web'', or_kind = ''Deployment'', or_controller = Some True\<rparr>]) else None)"


end
