(* ===== verification/Ebpf_Loader.thy ===== *)
theory Ebpf_Loader
  imports Ebpf_Observer Perf_Counters Hardware
begin

text \<open>
  Loading the eBPF programs and attaching the hardware counters
  (\<open>EbpfObserver::load\<close> and \<open>attach_perf_to_bpf_maps\<close> in
  \<open>keck-agent/src/ebpf/mod.rs\<close>), with the file descriptors the process holds.  The outcome
  of every system call and of every call into the loader library is a parameter; a call
  that opens a descriptor gets a number the kernel picks.
\<close>

record loader_env =
  le_fs :: file_system
  le_io_error :: str
  le_load :: "str option"
  le_program :: "str \<Rightarrow> bool"
  le_cast :: "str \<Rightarrow> str option"
  le_prog_load :: "str \<Rightarrow> str option"
  le_attach :: "str \<Rightarrow> str option"
  le_map :: "str \<Rightarrow> bool"
  le_map_fd :: "str \<Rightarrow> bool"
  le_perf_open :: "perf_event \<Rightarrow> nat \<Rightarrow> str option"
  le_update :: "str \<Rightarrow> nat \<Rightarrow> str option"
  le_pick :: "nat list \<Rightarrow> nat"

definition close_all :: "nat list \<Rightarrow> nat list \<Rightarrow> nat list" where
  "close_all fds opened = fold remove1 fds opened"

fun event_config :: "perf_event \<Rightarrow> nat" where
  "event_config INSTRUCTIONS = 0"
| "event_config CPU_CYCLES = 1"
| "event_config CACHE_MISSES = 3"

definition online_cpus :: "loader_env \<Rightarrow> str + u64" where
  "online_cpus env =
     (let host = ''/host/sys/devices/system/cpu/online'';
          path = (if fs_exists (le_fs env) host then host else ''/sys/devices/system/cpu/online'')
      in case fs_read (le_fs env) path of
           None \<Rightarrow> Inl (''read '' @ path @ '': '' @ le_io_error env)
         | Some cpus \<Rightarrow>
             (case count_ranges (split_char (CHR '','') (trim cpus)) 0 of
                Inl e \<Rightarrow> Inl (if e = ''bad format'' then ''bad cpu format'' else e)
              | Inr n \<Rightarrow> Inr n))"

subsection \<open>Attaching the counters\<close>

text \<open>Results carry the descriptors that are open afterwards.\<close>

definition attach_cpu :: "loader_env \<Rightarrow> str \<Rightarrow> perf_event \<Rightarrow> nat \<Rightarrow> nat list \<Rightarrow> nat list \<Rightarrow> (str + nat list) \<times> nat list" where
  "attach_cpu env map_name event cpu fds opened =
     (case le_perf_open env event cpu of
        Some e \<Rightarrow>
          (Inl (''perf_event_open(cpu='' @ show_nat cpu @ '', config='' @ show_nat (event_config event) @ ''): '' @ e),
           close_all fds opened)
      | None \<Rightarrow>
          let perf_fd = le_pick env opened; opened' = perf_fd # opened
          in (case le_update env map_name cpu of
                Some e \<Rightarrow>
                  (Inl (map_name @ '' set cpu '' @ show_nat cpu @ '': bpf map update: '' @ e),
                   close_all fds (remove1 perf_fd opened'))
              | None \<Rightarrow> (Inr (fds @ [perf_fd]), opened')))"

fun attach_cpus :: "loader_env \<Rightarrow> str \<Rightarrow> perf_event \<Rightarrow> nat list \<Rightarrow> nat list \<Rightarrow> nat list \<Rightarrow> (str + nat list) \<times> nat list" where
  "attach_cpus env map_name event [] fds opened = (Inr fds, opened)"
| "attach_cpus env map_name event (cpu # cpus) fds opened =
     (case attach_cpu env map_name event cpu fds opened of
        (Inl e, opened') \<Rightarrow> (Inl e, opened')
      | (Inr fds', opened') \<Rightarrow> attach_cpus env map_name event cpus fds' opened')"

definition attach_map :: "loader_env \<Rightarrow> nat list \<Rightarrow> str \<times> perf_event \<Rightarrow> nat list \<Rightarrow> nat list \<Rightarrow> (str + nat list) \<times> nat list" where
  "attach_map env cpus me fds opened =
     (let (map_name, event) = me
      in if \<not> le_map env map_name then (Inl (map_name @ '' map not found''), opened)
         else if \<not> le_map_fd env map_name then (Inl (map_name @ '': cannot get map FD''), opened)
         else let map_fd = le_pick env opened
              in (case attach_cpus env map_name event cpus fds (map_fd # opened) of
                    (Inl e, opened') \<Rightarrow> (Inl e, opened')
                  | (Inr fds', opened') \<Rightarrow> (Inr fds', remove1 map_fd opened')))"

fun attach_maps :: "loader_env \<Rightarrow> nat list \<Rightarrow> (str \<times> perf_event) list \<Rightarrow> nat list \<Rightarrow> nat list \<Rightarrow> (str + nat list) \<times> nat list" where
  "attach_maps env cpus [] fds opened = (Inr fds, opened)"
| "attach_maps env cpus (me # mes) fds opened =
     (case attach_map env cpus me fds opened of
        (Inl e, opened') \<Rightarrow> (Inl e, opened')
      | (Inr fds', opened') \<Rightarrow> attach_maps env cpus mes fds' opened')"

definition perf_maps :: "(str \<times> perf_event) list" where
  "perf_maps = [(''PERF_INSTRUCTIONS'', INSTRUCTIONS), (''PERF_CYCLES'', CPU_CYCLES), (''PERF_CACHE_MISSES'', CACHE_MISSES)]"

text \<open>
  The last step sets the flag the kernel program tests; its failure is ignored, and the
  descriptor of its map is closed again at once.
\<close>

definition enable_pmc :: "loader_env \<Rightarrow> bpf_maps \<Rightarrow> bpf_maps" where
  "enable_pmc env b =
     (if le_map env ''PMC_ENABLED'' \<and> le_map_fd env ''PMC_ENABLED'' \<and> le_update env ''PMC_ENABLED'' 0 = None
      then b\<lparr>PMC_ENABLED := 1\<rparr> else b)"

definition attach_perf_to_bpf_maps :: "loader_env \<Rightarrow> bpf_maps \<Rightarrow> nat list \<Rightarrow> (str + nat list) \<times> bpf_maps \<times> nat list" where
  "attach_perf_to_bpf_maps env b opened =
     (case online_cpus env of
        Inl e \<Rightarrow> (Inl e, b, opened)
      | Inr num_cpus \<Rightarrow>
          (case attach_maps env [0..<unat num_cpus] perf_maps [] opened of
             (Inl e, opened') \<Rightarrow> (Inl e, b, opened')
           | (Inr fds, opened') \<Rightarrow> (Inr fds, enable_pmc env b, opened')))"

subsection \<open>Loading\<close>

text \<open>The two tracepoints are required, the two probes are optional.\<close>

definition attach_tracepoint :: "loader_env \<Rightarrow> str \<Rightarrow> ObserverError option" where
  "attach_tracepoint env name =
     (if \<not> le_program env name then Some (Ebpf (name @ '' program not found''))
      else (case le_cast env name of
              Some e \<Rightarrow> Some (Ebpf (name @ '' cast: '' @ e))
            | None \<Rightarrow>
                (case le_prog_load env name of
                   Some e \<Rightarrow> Some (Ebpf (name @ '' load: '' @ e))
                 | None \<Rightarrow> map_option (\<lambda>e. Ebpf (name @ '' attach: '' @ e)) (le_attach env name))))"

definition observer_load :: "loader_env \<Rightarrow> (str \<Rightarrow> map_status) \<Rightarrow> nat list \<Rightarrow> (ObserverError + EbpfObserver) \<times> nat list" where
  "observer_load env status opened =
     (case le_load env of
        Some e \<Rightarrow> (Inl (Ebpf (''load: '' @ e)), opened)
      | None \<Rightarrow>
          (case find_map (attach_tracepoint env) [''sched_switch'', ''cpu_frequency''] of
             Some e \<Rightarrow> (Inl e, opened)
           | None \<Rightarrow>
               (case attach_perf_to_bpf_maps env bpf_maps_new opened of
                  (res, b, opened') \<Rightarrow>
                    (Inr \<lparr>eo_bpf = b, eo_map_status = status, eo_pid_pmc_active = \<not> isl res,
                          eo_perf_fds = (case res of Inl _ \<Rightarrow> [] | Inr fds \<Rightarrow> fds)\<rparr>, opened'))))"

definition observer_drop :: "EbpfObserver \<Rightarrow> nat list \<Rightarrow> nat list" where
  "observer_drop ob opened = close_all (eo_perf_fds ob) opened"

subsection \<open>The descriptors balance\<close>

lemma mset_close_all: "mset (close_all fds opened) = mset opened - mset fds"
  by (induction fds arbitrary: opened) (simp_all add: close_all_def)

lemma attach_cpus_Inr:
  "attach_cpus env name ev cpus fds opened = (Inr fds', opened') \<Longrightarrow>
     \<exists>new. length new = length cpus \<and> fds' = fds @ new \<and> mset opened' = mset opened + mset new"
proof (induction cpus arbitrary: fds opened)
  case (Cons cpu cpus)
  let ?fd = "le_pick env opened"
  have "attach_cpus env name ev cpus (fds @ [?fd]) (?fd # opened) = (Inr fds', opened')"
    using Cons.prems by (auto simp: attach_cpu_def Let_def split: option.splits)
  from Cons.IH [OF this] obtain new where "length new = length cpus" "fds' = (fds @ [?fd]) @ new"
    "mset opened' = mset (?fd # opened) + mset new" by blast
  then show ?case by (intro exI [of _ "?fd # new"]) simp
qed simp

lemma attach_map_Inr:
  assumes "attach_map env cpus me fds opened = (Inr fds', opened')"
  shows "\<exists>new. length new = length cpus \<and> fds' = fds @ new \<and> mset opened' = mset opened + mset new"
proof -
  obtain name ev where me: "me = (name, ev)" by (cases me)
  let ?fd = "le_pick env opened"
  obtain o1 where "attach_cpus env name ev cpus fds (?fd # opened) = (Inr fds', o1)" "opened' = remove1 ?fd o1"
    using assms by (auto simp: attach_map_def me Let_def split: if_splits prod.splits sum.splits)
  with attach_cpus_Inr [of env name ev cpus fds "?fd # opened" fds' o1] show ?thesis by auto
qed

lemma attach_maps_Inr:
  "attach_maps env cpus mes fds opened = (Inr fds', opened') \<Longrightarrow>
     \<exists>new. length new = length mes * length cpus \<and> fds' = fds @ new \<and> mset opened' = mset opened + mset new"
proof (induction mes arbitrary: fds opened)
  case (Cons me mes)
  obtain f1 o1 where 1: "attach_map env cpus me fds opened = (Inr f1, o1)" "attach_maps env cpus mes f1 o1 = (Inr fds', opened')"
    using Cons.prems by (auto split: prod.splits sum.splits)
  from attach_map_Inr [OF 1(1)] Cons.IH [OF 1(2)] obtain new new' where
    "length new = length cpus" "f1 = fds @ new" "mset o1 = mset opened + mset new"
    "length new' = length mes * length cpus" "fds' = f1 @ new'" "mset opened' = mset o1 + mset new'" by blast
  then show ?case by (intro exI [of _ "new @ new'"]) (simp add: add_ac)
qed simp

text \<open>
  C16: An observer with hardware counters holds exactly three descriptors per online
  processor and nothing else, whichever numbers the kernel picks: loading adds these to
  the open descriptors of the process, and dropping the observer closes exactly these.
\<close>

theorem observer_descriptors_balanced:
  assumes "observer_load env status opened = (Inr ob, opened')" and "eo_pid_pmc_active ob"
  shows "\<exists>n. online_cpus env = Inr n \<and> length (eo_perf_fds ob) = 3 * unat n \<and>
    mset opened' = mset opened + mset (eo_perf_fds ob) \<and> mset (observer_drop ob opened') = mset opened"
proof -
  obtain fds b where "attach_perf_to_bpf_maps env bpf_maps_new opened = (Inr fds, b, opened')" and ob: "eo_perf_fds ob = fds"
    using assms by (auto simp: observer_load_def split: option.splits prod.splits sum.splits)
  then obtain n where n: "online_cpus env = Inr n" "attach_maps env [0..<unat n] perf_maps [] opened = (Inr fds, opened')"
    by (auto simp: attach_perf_to_bpf_maps_def split: sum.splits prod.splits)
  from attach_maps_Inr [OF n(2)] have "length fds = 3 * unat n" "mset opened' = mset opened + mset fds"
    by (auto simp: perf_maps_def)
  with n(1) show ?thesis by (simp add: ob observer_drop_def mset_close_all)
qed

text \<open>A machine with two processors; the kernel picks the next number.\<close>

definition sample_env :: loader_env where
  "sample_env = \<lparr>le_fs = \<lparr>fs_read = (\<lambda>_. Some ''0-1''), fs_dir = (\<lambda>_. None), fs_exists = (\<lambda>_. False)\<rparr>, le_io_error = [],
     le_load = None, le_program = (\<lambda>_. True), le_cast = (\<lambda>_. None), le_prog_load = (\<lambda>_. None), le_attach = (\<lambda>_. None),
     le_map = (\<lambda>_. True), le_map_fd = (\<lambda>_. True), le_perf_open = (\<lambda>_ _. None), le_update = (\<lambda>_ _. None),
     le_pick = (\<lambda>xs. Suc (fold max xs 2))\<rparr>"

theorem observer_descriptors_balanced_witness:
  "\<exists>ob opened'. observer_load sample_env (\<lambda>_. MapOk) [0, 1, 2] = (Inr ob, opened') \<and> length (eo_perf_fds ob) = 6 \<and>
     mset (observer_drop ob opened') = mset [0, 1, 2]"
proof -
  have "map_prod (map_sum (\<lambda>_. ()) eo_pid_pmc_active) (\<lambda>_. ()) (observer_load sample_env (\<lambda>_. MapOk) [0, 1, 2]) = (Inr True, ())"
    by code_simp
  then obtain ob opened' where run: "observer_load sample_env (\<lambda>_. MapOk) [0, 1, 2] = (Inr ob, opened')" "eo_pid_pmc_active ob"
    by (cases "observer_load sample_env (\<lambda>_. MapOk) [0, 1, 2]"; cases "fst (observer_load sample_env (\<lambda>_. MapOk) [0, 1, 2])") auto
  have "online_cpus sample_env = Inr 2" by code_simp
  with observer_descriptors_balanced [OF run] run(1) show ?thesis by auto
qed

text \<open>
  When a counter cannot be opened, the counters opened so far are closed, but not the
  descriptor of the map; when a map is missing, nothing is closed at all.
\<close>

lemma attach_failure_leaks:
  "snd (observer_load (sample_env\<lparr>le_perf_open := (\<lambda>ev cpu. if ev = CPU_CYCLES then Some ''EINVAL'' else None)\<rparr>) (\<lambda>_. MapOk) [0, 1, 2])
     = [6, 0, 1, 2]"
  "snd (observer_load (sample_env\<lparr>le_map := (\<lambda>name. name \<noteq> ''PERF_CYCLES'')\<rparr>) (\<lambda>_. MapOk) [0, 1, 2]) = [5, 4, 0, 1, 2]"
  by code_simp+

end
