(* ===== verification/Agent_Start.thy ===== *)
theory Agent_Start
  imports Agent Ebpf_Loader
begin

text \<open>
  Start-up of the agent (\<open>main\<close> in \<open>keck-agent/src/main.rs\<close>, before the collection loop):
  the retries of the Kubernetes client, the health endpoint, and the configuration and
  state the loop starts from.  The client itself is the library's and is a parameter.
\<close>

subsection \<open>Retrying the Kubernetes client\<close>

text \<open>
  \<open>try_default\<close> gives the outcome of each attempt.  The result carries the seconds spent
  waiting.
\<close>

function connect :: "(nat \<Rightarrow> str + 'c) \<Rightarrow> nat \<Rightarrow> nat \<Rightarrow> (str + 'c) \<times> nat" where
  "connect try_default attempts waited =
     (case try_default attempts of
        Inr c \<Rightarrow> (Inr c, waited)
      | Inl e \<Rightarrow>
          if 10 \<le> attempts + 1
          then (Inl (''Failed to create K8s client after '' @ show_nat (attempts + 1) @ '' attempts: '' @ e), waited)
          else connect try_default (attempts + 1) (waited + 2 ^ min (attempts + 1) 5))"
  by pat_completeness auto
termination
  by (relation "measure (\<lambda>(_, attempts, _). 10 - attempts)") auto

declare connect.simps [simp del]

lemma connect_from:
  assumes "attempts < 10"
  shows "case connect try_default attempts waited of
      (Inr c, w) \<Rightarrow> \<exists>k. attempts \<le> k \<and> k < 10 \<and> try_default k = Inr c \<and> list_all (\<lambda>j. isl (try_default j)) [attempts..<k] \<and>
        w = waited + (\<Sum>j\<leftarrow>[attempts..<k]. 2 ^ min (j + 1) 5)
    | (Inl e, w) \<Rightarrow> list_all (\<lambda>j. isl (try_default j)) [attempts..<10] \<and> w = waited + (\<Sum>j\<leftarrow>[attempts..<9]. 2 ^ min (j + 1) 5)"
  using assms
proof (induction try_default attempts waited rule: connect.induct)
  case (1 try_default attempts waited)
  show ?case
  proof (cases "try_default attempts")
    case (Inr c)
    then show ?thesis using "1.prems" by (subst connect.simps) (auto intro!: exI [of _ attempts])
  next
    case (Inl e)
    show ?thesis
    proof (cases "10 \<le> attempts + 1")
      case True
      then have "attempts = 9" using "1.prems" by simp
      then show ?thesis using Inl by (subst connect.simps) (simp add: upt_rec)
    next
      case False
      have unroll: "[attempts..<k] = attempts # [attempts + 1..<k]" if "attempts < k" for k
        using that by (simp add: upt_conv_Cons)
      obtain r w where run: "connect try_default (attempts + 1) (waited + 2 ^ min (attempts + 1) 5) = (r, w)"
        by (cases "connect try_default (attempts + 1) (waited + 2 ^ min (attempts + 1) 5)")
      then have step: "connect try_default attempts waited = (r, w)" using Inl False by (simp add: connect.simps [of _ attempts])
      note IH = "1.IH" [OF Inl False, unfolded run]
      show ?thesis
      proof (cases r)
        case (Inl e')
        with IH False show ?thesis unfolding step using \<open>try_default attempts = Inl e\<close>
          by (simp add: unroll)
      next
        case (Inr c)
        with IH False obtain k where k: "attempts + 1 \<le> k" "k < 10" "try_default k = Inr c"
          "list_all (\<lambda>j. isl (try_default j)) [attempts + 1..<k]"
          "w = waited + 2 ^ min (attempts + 1) 5 + (\<Sum>j\<leftarrow>[attempts + 1..<k]. 2 ^ min (j + 1) 5)" by auto
        then show ?thesis unfolding step Inr using \<open>try_default attempts = Inl e\<close>
          by (auto intro!: exI [of _ k] simp: unroll)
      qed
    qed
  qed
qed

text \<open>
  C28: The retries end.  The client is the first that succeeds among the first ten
  attempts, after waiting 2, 4, 8, 16 and then 32 seconds between them; the agent gives up
  only if all ten fail, after 190 seconds of waiting.
\<close>

theorem client_retries_end:
  "case connect try_default 0 0 of
      (Inr c, w) \<Rightarrow> \<exists>k. k < 10 \<and> try_default k = Inr c \<and> list_all (\<lambda>j. isl (try_default j)) [0..<k] \<and>
        w = (\<Sum>j\<leftarrow>[0..<k]. 2 ^ min (j + 1) 5)
    | (Inl e, w) \<Rightarrow> list_all (\<lambda>j. isl (try_default j)) [0..<10] \<and> w = 190"
proof -
  have "(\<Sum>j\<leftarrow>[0..<9]. 2 ^ min (j + 1) 5) = (190 :: nat)" by code_simp
  with connect_from [of 0 try_default 0] show ?thesis by (auto split: prod.splits sum.splits)
qed

subsection \<open>The health endpoint\<close>

definition healthz_response :: "bool \<Rightarrow> str" where
  "healthz_response is_healthy =
     (let (status, body) = (if is_healthy then (''200 OK'', ''ok'') else (''503 Service Unavailable'', ''not ready''));
          crlf = [carriage_return, newline]
      in ''HTTP/1.1 '' @ status @ crlf @ ''Content-Length: '' @ show_nat (length body) @ crlf @ ''Connection: close'' @ crlf @ crlf @ body)"

subsection \<open>Where the loop starts\<close>

definition interval_ns :: "env_vars \<Rightarrow> u64" where
  "interval_ns env =
     (case Option.bind (env ''KECK_INTERVAL_SECS'') parse_u64 of Some s \<Rightarrow> s | None \<Rightarrow> 10) * 1000000000"

definition report_url :: "env_vars \<Rightarrow> str" where
  "report_url env =
     (case env ''KECK_CONTROLLER_URL'' of Some u \<Rightarrow> u | None \<Rightarrow> ''http://keck-controller.keck-system.svc:8080'') @ ''/api/v1/report''"

text \<open>The stand-alone counters are opened only if the kernel programs do not read them.\<close>

definition init_counters :: "(perf_event \<Rightarrow> nat \<Rightarrow> str option) \<Rightarrow> str + str \<Rightarrow> EbpfObserver option \<Rightarrow> HwCounterReader option" where
  "init_counters open_event online ob =
     (let has_pid_pmc = (case ob of None \<Rightarrow> False | Some ob \<Rightarrow> eo_pid_pmc_active ob)
      in if has_pid_pmc then None else result_ok (hw_new open_event online))"

definition init_observer :: "loader_env \<Rightarrow> (str \<Rightarrow> map_status) \<Rightarrow> nat list \<Rightarrow> EbpfObserver option \<times> nat list" where
  "init_observer lenv status opened =
     (let (res, opened') = observer_load lenv status opened in (result_ok res, opened'))"

record start_inputs =
  si_inputs :: agent_inputs
  si_loader :: loader_env
  si_map_status :: "str \<Rightarrow> map_status"
  si_open_event :: "perf_event \<Rightarrow> nat \<Rightarrow> str option"
  si_online :: "str + str"
  si_subscriptions :: "str option list option"

definition agent_start :: "start_inputs \<Rightarrow> agent_config \<times> agent_state" where
  "agent_start si =
     (let inp = si_inputs si; env = in_env inp; fs = in_fs inp;
          sources = discover_sources fs (in_http inp) env;
          (ob, _) = init_observer (si_loader si) (si_map_status si) [];
          (exact_labels, prefix_labels) = label_config (env ''KECK_CAPTURED_LABELS'');
          operator_namespaces = discover_operator_namespaces (si_subscriptions si);
          (pods, owners) = refresh_pod_cache (in_owners inp) exact_labels prefix_labels operator_namespaces (in_listed inp) ([], [])
      in (\<lparr>cf_node_name = get_node_name fs env, cf_interval_ns = interval_ns env, cf_sources = sources,
           cf_exact_labels = exact_labels, cf_prefix_labels = prefix_labels, cf_operator_namespaces = operator_namespaces,
           cf_api_key = env ''KECK_API_KEY''\<rparr>,
          \<lparr>ag_prev_readings = initial_readings (source_read fs (in_http inp) env (in_now inp)) sources,
           ag_caches = \<lparr>pc_cpu_ticks = [], pc_page_faults = [], pc_pss = [], pc_io_bytes = []\<rparr>,
           ag_tick_count = 0, ag_pod_cache = pods, ag_owner_cache = owners, ag_last_pod_refresh = in_now inp,
           ag_observer = ob, ag_counters = init_counters (si_open_event si) (si_online si) ob,
           ag_tuner = init_tuner env, ag_healthy = False\<rparr>))"

end
