(* ===== verification/Collector.thy ===== *)
theory Collector
  imports Agent_Sources
begin

text \<open>
  The tiered collector (\<open>keck-agent/src/hardware/collector.rs\<close>): sources are polled in
  three tiers, all of them together at every heartbeat, and the energy between the last
  two readings goes to the attribution engine.  The reads of a tick are a parameter, and
  all of them happen at the tick's instant.  A duration is a number of nanoseconds.
\<close>

record CollectorConfig =
  cc_fast_interval :: int
  cc_medium_interval :: int
  cc_slow_interval :: int
  cc_heartbeat_interval :: int

definition collector_config_default :: CollectorConfig where
  "collector_config_default = \<lparr>cc_fast_interval = 100 * 1000000, cc_medium_interval = 500 * 1000000,
     cc_slow_interval = 3 * 1000000000, cc_heartbeat_interval = 5 * 1000000000\<rparr>"

datatype Tier = Fast | Medium | Slow

record RegisteredSource =
  rg_source :: power_source
  rg_tier :: Tier
  rg_last_reading :: "PowerReading option"
  rg_prev_reading :: "PowerReading option"

record HwReconciliation =
  hr_platform_uw :: "u64 option"
  hr_component_sum_uw :: u64
  hr_per_component :: "(Component, u64) hmap"
  hr_unaccounted_uw :: "64 word"
  hr_error_ratio :: f64
  hr_timestamp :: instant

record HardwareCollector =
  hc_sources :: "RegisteredSource list"
  hc_config :: CollectorConfig
  hc_last_heartbeat :: instant
  hc_last_fast :: instant
  hc_last_medium :: instant
  hc_last_slow :: instant
  hc_last_reconciliation :: "HwReconciliation option"
  hc_num_sockets :: u32

fun default_poll_interval :: "power_source \<Rightarrow> int" where
  "default_poll_interval (Rapl _) = 100 * 1000000"
| "default_poll_interval (Hwmon _) = 500 * 1000000"
| "default_poll_interval (Dcgm _) = 3 * 1000000000"
| "default_poll_interval (Redfish _) = 3 * 1000000000"

definition classify_tier :: "CollectorConfig \<Rightarrow> power_source \<Rightarrow> Tier" where
  "classify_tier config source =
     (let interval = default_poll_interval source
      in if interval \<le> cc_fast_interval config then Fast
         else if interval \<le> cc_medium_interval config then Medium else Slow)"

definition collector_new :: "instant \<Rightarrow> power_source list \<Rightarrow> CollectorConfig \<Rightarrow> u32 \<Rightarrow> HardwareCollector" where
  "collector_new now sources config num_sockets =
     \<lparr>hc_sources = map (\<lambda>s. \<lparr>rg_source = s, rg_tier = classify_tier config s, rg_last_reading = None, rg_prev_reading = None\<rparr>) sources,
      hc_config = config, hc_last_heartbeat = now, hc_last_fast = now, hc_last_medium = now, hc_last_slow = now,
      hc_last_reconciliation = None, hc_num_sockets = num_sockets\<rparr>"

subsection \<open>Energy between two readings\<close>

text \<open>\<open>duration_since(..).as_nanos() as u64\<close>\<close>

definition nanos_since :: "instant \<Rightarrow> instant \<Rightarrow> u64" where
  "nanos_since now t = word_of_int (max 0 (now - t))"

definition compute_energy_delta :: "PowerReading \<Rightarrow> PowerReading \<Rightarrow> u64" where
  "compute_energy_delta current previous =
     (case (pr_energy_uj current, pr_energy_uj previous) of
        (Some cur, Some prev) \<Rightarrow> counter_delta (pr_max_energy_uj current) prev cur
      | (None, None) \<Rightarrow>
          (case (pr_power_uw current, pr_power_uw previous) of
             (Some cur_pw, Some _) \<Rightarrow>
               ucast ((ucast cur_pw * ucast (nanos_since (pr_timestamp current) (pr_timestamp previous)) :: 128 word) div 1000000000)
           | _ \<Rightarrow> 0)
      | _ \<Rightarrow> 0)"

definition add_energy :: "RegisteredSource \<Rightarrow> EnergyInput \<Rightarrow> EnergyInput" where
  "add_energy reg e =
     (case (rg_last_reading reg, rg_prev_reading reg) of
        (Some current, Some previous) \<Rightarrow>
          let delta = compute_energy_delta current previous
          in if delta = 0 then e
             else (case (pr_component current, pr_granularity current) of
                     (Cpu, GSocket s) \<Rightarrow> e\<lparr>ei_socket_energy_uj := (ei_socket_energy_uj e)[unat s := delta]\<rparr>
                   | (Memory, GSocket s) \<Rightarrow> e\<lparr>ei_dram_energy_uj := (ei_dram_energy_uj e)[unat s := delta]\<rparr>
                   | (Gpu, _) \<Rightarrow> e\<lparr>ei_gpu_energy_uj := ei_gpu_energy_uj e @ [delta]\<rparr>
                   | (Platform, _) \<Rightarrow> e\<lparr>ei_platform_energy_uj := Some delta\<rparr>
                   | _ \<Rightarrow> e)
      | _ \<Rightarrow> e)"

definition energy_input :: "u64 \<Rightarrow> HardwareCollector \<Rightarrow> EnergyInput" where
  "energy_input interval c =
     (let n = unat (hc_num_sockets c)
      in fold add_energy (hc_sources c)
           \<lparr>ei_socket_energy_uj = replicate n 0, ei_dram_energy_uj = replicate n 0, ei_gpu_energy_uj = [],
            ei_platform_energy_uj = None, ei_interval_ns = interval\<rparr>)"

subsection \<open>Polling\<close>

type_synonym reads = "power_source \<Rightarrow> SourceError + PowerReading"

definition read_source :: "reads \<Rightarrow> RegisteredSource \<Rightarrow> bool \<times> RegisteredSource" where
  "read_source read reg =
     (case read (rg_source reg) of
        Inr reading \<Rightarrow> (True, reg\<lparr>rg_prev_reading := rg_last_reading reg, rg_last_reading := Some reading\<rparr>)
      | Inl _ \<Rightarrow> (False, reg))"

definition read_all :: "reads \<Rightarrow> HardwareCollector \<Rightarrow> HardwareCollector" where
  "read_all read c = c\<lparr>hc_sources := map (snd \<circ> read_source read) (hc_sources c)\<rparr>"

definition read_tier :: "reads \<Rightarrow> Tier \<Rightarrow> HardwareCollector \<Rightarrow> bool \<times> HardwareCollector" where
  "read_tier read tier c =
     (list_ex (\<lambda>reg. rg_tier reg = tier \<and> fst (read_source read reg)) (hc_sources c),
      c\<lparr>hc_sources := map (\<lambda>reg. if rg_tier reg = tier then snd (read_source read reg) else reg) (hc_sources c)\<rparr>)"

definition reading_power_uw :: "RegisteredSource \<Rightarrow> PowerReading \<Rightarrow> u64 option" where
  "reading_power_uw reg reading =
     (case pr_power_uw reading of
        Some pw \<Rightarrow> Some pw
      | None \<Rightarrow>
          map_option (\<lambda>prev. energy_to_power (compute_energy_delta reading prev)
            (nanos_since (pr_timestamp reading) (pr_timestamp prev))) (rg_prev_reading reg))"

definition reconcile_source :: "RegisteredSource \<Rightarrow> u64 option \<times> (Component, u64) hmap \<Rightarrow> u64 option \<times> (Component, u64) hmap" where
  "reconcile_source reg acc =
     (case rg_last_reading reg of
        None \<Rightarrow> acc
      | Some reading \<Rightarrow>
          (case reading_power_uw reg reading of
             None \<Rightarrow> acc
           | Some p \<Rightarrow>
               let (platform_uw, per_component) = acc
               in if pr_component reading = Platform then (Some p, per_component)
                  else (platform_uw, hm_upsert (pr_component reading) 0 (\<lambda>v. v + p) per_component)))"

definition reconcile :: "instant \<Rightarrow> HardwareCollector \<Rightarrow> HardwareCollector" where
  "reconcile now c =
     (let (platform_uw, per_component) = fold reconcile_source (hc_sources c) (None, []);
          component_sum = sum_list (map snd per_component);
          (unaccounted, error_ratio) =
            (case platform_uw of
               None \<Rightarrow> (0, f64_lit 0)
             | Some platform \<Rightarrow>
                 let u = platform - component_sum
                 in (u, if platform > 0 then f64_of_u64 (i64_unsigned_abs u) / f64_of_u64 platform else f64_lit 0))
      in c\<lparr>hc_last_reconciliation := Some
           \<lparr>hr_platform_uw = platform_uw, hr_component_sum_uw = component_sum, hr_per_component = per_component,
            hr_unaccounted_uw = unaccounted, hr_error_ratio = error_ratio, hr_timestamp = now\<rparr>\<rparr>)"

definition due :: "instant \<Rightarrow> instant \<Rightarrow> int \<Rightarrow> bool" where
  "due now t interval \<longleftrightarrow> interval \<le> max 0 (now - t)"

definition tick_tier ::
  "instant \<Rightarrow> reads \<Rightarrow> Tier \<Rightarrow> bool \<Rightarrow> (HardwareCollector \<Rightarrow> HardwareCollector) \<Rightarrow> bool \<times> HardwareCollector \<Rightarrow> bool \<times> HardwareCollector" where
  "tick_tier now read tier is_due stamp acc =
     (let (any_read, c) = acc
      in if is_due then let (r, c') = read_tier read tier c in (any_read \<or> r, stamp c') else acc)"

definition tick :: "instant \<Rightarrow> reads \<Rightarrow> HardwareCollector \<Rightarrow> bool \<times> HardwareCollector" where
  "tick now read c =
     (let config = hc_config c
      in if due now (hc_last_heartbeat c) (cc_heartbeat_interval config)
         then (True, (reconcile now (read_all read c))
                \<lparr>hc_last_heartbeat := now, hc_last_fast := now, hc_last_medium := now, hc_last_slow := now\<rparr>)
         else tick_tier now read Slow (due now (hc_last_slow c) (cc_slow_interval config)) (\<lambda>c. c\<lparr>hc_last_slow := now\<rparr>)
                (tick_tier now read Medium (due now (hc_last_medium c) (cc_medium_interval config)) (\<lambda>c. c\<lparr>hc_last_medium := now\<rparr>)
                  (tick_tier now read Fast (due now (hc_last_fast c) (cc_fast_interval config)) (\<lambda>c. c\<lparr>hc_last_fast := now\<rparr>)
                    (False, c))))"

subsection \<open>What the collector remembers\<close>

text \<open>
  A source keeps its last two successful readings; failed reads change nothing.
\<close>

definition successes :: "(SourceError + PowerReading) list \<Rightarrow> PowerReading list" where
  "successes rs = List.map_filter (\<lambda>r. case r of Inl _ \<Rightarrow> None | Inr v \<Rightarrow> Some v) rs"

definition last_two :: "'a list \<Rightarrow> 'a option \<times> 'a option" where
  "last_two xs = (case rev xs of [] \<Rightarrow> (None, None) | [a] \<Rightarrow> (Some a, None) | a # b # _ \<Rightarrow> (Some a, Some b))"

lemma last_two_snoc: "last_two (xs @ [x]) = (Some x, fst (last_two xs))"
  by (cases xs rule: rev_cases) (auto simp: last_two_def split: list.split)

lemma read_source_remembers:
  fixes reg :: RegisteredSource
  defines "after \<equiv> fold (\<lambda>r reg. snd (read_source (\<lambda>_. r) reg))"
  assumes "rg_last_reading reg = None" and "rg_prev_reading reg = None"
  shows "(rg_last_reading (after rs reg), rg_prev_reading (after rs reg)) = last_two (successes rs)"
proof (induction rs rule: rev_induct)
  case Nil
  then show ?case using assms by (simp add: after_def successes_def last_two_def map_filter_simps)
next
  case (snoc r rs)
  have "successes (rs @ [r]) = successes rs @ (case r of Inl _ \<Rightarrow> [] | Inr v \<Rightarrow> [v])"
    by (simp add: successes_def List.map_filter_def split: sum.split)
  with snoc show ?case
    by (cases r) (auto simp: after_def read_source_def last_two_snoc prod_eq_iff)
qed

text \<open>
  The energy of a counter that wraps adds up over the readings to what was consumed,
  however often it wrapped, if no two consecutive readings are a whole range apart.
\<close>

fun steps_below :: "nat \<Rightarrow> nat list \<Rightarrow> bool" where
  "steps_below m (a # b # es) \<longleftrightarrow> a \<le> b \<and> b - a < m \<and> steps_below m (b # es)"
| "steps_below m _ \<longleftrightarrow> True"

fun counter_deltas :: "u64 \<Rightarrow> nat list \<Rightarrow> nat list" where
  "counter_deltas m (a # b # es) =
     unat (counter_delta m (of_nat (a mod unat m)) (of_nat (b mod unat m))) # counter_deltas m (b # es)"
| "counter_deltas m _ = []"

lemma counter_deltas_telescope:
  "steps_below (unat m) es \<Longrightarrow> es \<noteq> [] \<Longrightarrow> sum_list (counter_deltas m es) + hd es = last es"
  by (induction m es rule: counter_deltas.induct) (simp_all add: counter_delta_exact)

end
