(* ===== verification/Carbon.thy ===== *)
theory Carbon
  imports F64
begin

text \<open>
  The carbon tracker of the controller (\<open>keck-controller/src/carbon/mod.rs\<close>).  A
  \<open>Duration\<close> is whole seconds and nanoseconds; environment variables and the clock are
  parameters.  The source does not call the configured endpoint yet.
\<close>

record CarbonIntensity =
  ci_grams_co2_per_kwh :: f64
  ci_source :: str
  ci_region :: str
  ci_timestamp :: instant
  ci_is_forecast :: bool

record EnergyCost =
  ec_currency :: str
  ec_cost_per_kwh :: f64
  ec_region :: str

record CarbonReport =
  cbr_power_watts :: f64
  cbr_energy_wh :: f64
  cbr_carbon_grams :: f64
  cbr_carbon_kg_per_year :: f64
  cbr_cost :: f64
  cbr_cost_per_year :: f64
  cbr_intensity :: CarbonIntensity
  cbr_energy_cost :: EnergyCost

record duration =
  du_secs :: u64
  du_nanos :: u32

record CarbonTracker =
  ct_current_intensity :: "CarbonIntensity option"
  ct_current_cost :: EnergyCost
  ct_api_endpoint :: "str option"
  ct_region :: str
  ct_refresh_interval :: duration

definition as_secs_f64 :: "duration \<Rightarrow> f64" where
  "as_secs_f64 d = f64_of_u64 (du_secs d) + f64_of_u32 (du_nanos d) / f64_lit 1000000000"

definition tracker_new :: "(str \<Rightarrow> str option) \<Rightarrow> CarbonTracker" where
  "tracker_new env =
     \<lparr>ct_current_intensity = None,
      ct_current_cost = \<lparr>ec_currency = ''USD'', ec_cost_per_kwh = f64_lit (10 / 100), ec_region = ''default''\<rparr>,
      ct_api_endpoint = env ''CARBON_API_ENDPOINT'',
      ct_region = (case env ''CARBON_REGION'' of Some r \<Rightarrow> r | None \<Rightarrow> ''unknown''),
      ct_refresh_interval = \<lparr>du_secs = 300, du_nanos = 0\<rparr>\<rparr>"

definition calculate :: "CarbonTracker \<Rightarrow> u64 \<Rightarrow> duration \<Rightarrow> CarbonReport option" where
  "calculate tracker power_uw interval =
     map_option (\<lambda>intensity.
       let power_watts = f64_of_u64 power_uw / f64_lit 1000000;
           hours = as_secs_f64 interval / f64_lit 3600;
           energy_wh = power_watts * hours;
           energy_kwh = energy_wh / f64_lit 1000;
           carbon_grams = energy_kwh * ci_grams_co2_per_kwh intensity;
           cost = energy_kwh * ec_cost_per_kwh (ct_current_cost tracker);
           intervals_per_year = f64_lit (36525 / 100) * f64_lit 24 * f64_lit 3600 / as_secs_f64 interval
       in \<lparr>cbr_power_watts = power_watts, cbr_energy_wh = energy_wh, cbr_carbon_grams = carbon_grams,
           cbr_carbon_kg_per_year = carbon_grams * intervals_per_year / f64_lit 1000, cbr_cost = cost,
           cbr_cost_per_year = cost * intervals_per_year, cbr_intensity = intensity,
           cbr_energy_cost = ct_current_cost tracker\<rparr>) (ct_current_intensity tracker)"

definition refresh_carbon :: "instant \<Rightarrow> CarbonTracker \<Rightarrow> CarbonTracker" where
  "refresh_carbon now tracker =
     tracker\<lparr>ct_current_intensity := Some
       \<lparr>ci_grams_co2_per_kwh = f64_lit 400,
        ci_source = (case ct_api_endpoint tracker of
                       None \<Rightarrow> ''static_default''
                     | Some endpoint \<Rightarrow> ''static (endpoint configured: '' @ endpoint @ '')''),
        ci_region = ct_region tracker, ci_timestamp = now, ci_is_forecast = False\<rparr>\<rparr>"

text \<open>A report exists from the first refresh on.\<close>

lemma calculate_after_refresh:
  "calculate (tracker_new env) p d = None" "calculate (refresh_carbon now tracker) p d \<noteq> None"
  by (simp_all add: calculate_def tracker_new_def refresh_carbon_def)

text \<open>An interval of length zero is annualised to a value that is not a number.\<close>

lemma zero_interval_NaN:
  "map_option cbr_cost_per_year (calculate (refresh_carbon 0 (tracker_new (\<lambda>_. None))) 1000000 \<lparr>du_secs = 0, du_nanos = 0\<rparr>)
     = Some NaN"
  by code_simp

end
