(* ===== verification/Fleet_Registry.thy ===== *)
theory Fleet_Registry
  imports F64_Mono Hash_Map "HOL-Library.Product_Lexorder"
begin

text \<open>
  The cluster registry of the fleet manager (\<open>keck-fleet/src/registry/mod.rs\<close>).  The
  comparisons of floating-point numbers are unwrapped in the source, so the views that
  sort or minimise can panic.  Clocks are parameters: an \<open>Instant\<close> or a
  \<open>DateTime\<close> is a number of nanoseconds.
\<close>

record ClusterPowerSummary =
  cps_total_watts :: f64
  cps_cpu_watts :: f64
  cps_memory_watts :: f64
  cps_gpu_watts :: f64
  cps_idle_watts :: f64
  cps_platform_watts :: "f64 option"

record NamespaceSummary =
  nsy_namespace :: str
  nsy_total_watts :: f64
  nsy_pod_count :: u32

record CarbonData =
  cd_intensity_grams_per_kwh :: f64
  cd_emissions_grams_per_hour :: f64
  cd_cost_per_kwh :: f64
  cd_currency :: str

record ClusterReport =
  clr_cluster_id :: str
  clr_cluster_name :: str
  clr_region :: str
  clr_provider :: str
  clr_power :: ClusterPowerSummary
  clr_namespaces :: "NamespaceSummary list"
  clr_carbon :: CarbonData
  clr_node_count :: u32
  clr_pod_count :: u32
  clr_avg_error_ratio :: f64
  clr_timestamp :: instant

record ClusterState =
  cls_latest_report :: ClusterReport
  cls_received_at :: instant
  cls_power_history :: "(instant \<times> f64) list"
  cls_carbon_history :: "(instant \<times> f64) list"

record ClusterView =
  cv_cluster_id :: str
  cv_cluster_name :: str
  cv_region :: str
  cv_total_watts :: f64
  cv_carbon_grams_per_hour :: f64
  cv_carbon_intensity :: f64
  cv_cost_per_hour :: f64
  cv_node_count :: u32
  cv_pod_count :: u32
  cv_error_ratio :: f64
  cv_last_seen_secs_ago :: u64

record FleetSummary =
  fs_total_watts :: f64
  fs_total_cpu_watts :: f64
  fs_total_memory_watts :: f64
  fs_total_gpu_watts :: f64
  fs_total_idle_watts :: f64
  fs_total_carbon_grams_per_hour :: f64
  fs_total_cost_per_hour :: f64
  fs_total_cost_currency :: str
  fs_cluster_count :: nat
  fs_total_nodes :: u32
  fs_total_pods :: u32
  fs_clusters :: "ClusterView list"

record TeamClusterBreakdown =
  tb_cluster_name :: str
  tb_namespace :: str
  tb_watts :: f64

record TeamPowerView =
  tv_team :: str
  tv_total_watts :: f64
  tv_carbon_grams_per_hour :: f64
  tv_cost_per_hour :: f64
  tv_per_cluster :: "TeamClusterBreakdown list"

record ClusterRegistry =
  reg_clusters :: "(str, ClusterState) hmap"
  reg_staleness_threshold :: instant
  reg_history_retention :: instant
  reg_namespace_owners :: "(str, str) hmap"

definition registry_new :: ClusterRegistry where
  "registry_new = \<lparr>reg_clusters = [], reg_staleness_threshold = 120 * 1000000000,
     reg_history_retention = 86400 * 30 * 1000000000, reg_namespace_owners = []\<rparr>"

subsection \<open>Updates\<close>

definition registry_ingest :: "instant \<Rightarrow> instant \<Rightarrow> ClusterReport \<Rightarrow> ClusterRegistry \<Rightarrow> ClusterRegistry" where
  "registry_ingest now utc_now report reg =
     (let cutoff = utc_now - reg_history_retention reg; recent = filter (\<lambda>(ts, _). cutoff \<le> ts);
          fresh = \<lparr>cls_latest_report = report, cls_received_at = now, cls_power_history = [], cls_carbon_history = []\<rparr>;
          update = (\<lambda>s. s\<lparr>cls_latest_report := report, cls_received_at := now,
            cls_power_history := recent (cls_power_history s @ [(clr_timestamp report, cps_total_watts (clr_power report))]),
            cls_carbon_history := recent (cls_carbon_history s @ [(clr_timestamp report, cd_emissions_grams_per_hour (clr_carbon report))])\<rparr>)
      in reg\<lparr>reg_clusters := hm_upsert (clr_cluster_id report) fresh update (reg_clusters reg)\<rparr>)"

definition set_namespace_owner :: "str \<Rightarrow> str \<Rightarrow> ClusterRegistry \<Rightarrow> ClusterRegistry" where
  "set_namespace_owner namespace team reg =
     reg\<lparr>reg_namespace_owners := AList.update namespace team (reg_namespace_owners reg)\<rparr>"

text \<open>\<open>elapsed\<close> is never negative.\<close>

definition elapsed :: "instant \<Rightarrow> instant \<Rightarrow> int" where
  "elapsed now t = max 0 (now - t)"

definition cluster_active :: "instant \<Rightarrow> ClusterRegistry \<Rightarrow> ClusterState \<Rightarrow> bool" where
  "cluster_active now reg s \<longleftrightarrow> elapsed now (cls_received_at s) < reg_staleness_threshold reg"

definition registry_evict_stale :: "instant \<Rightarrow> ClusterRegistry \<Rightarrow> ClusterRegistry" where
  "registry_evict_stale now reg =
     reg\<lparr>reg_clusters := hm_retain (\<lambda>_ s. cluster_active now reg s) (reg_clusters reg)\<rparr>"

subsection \<open>Comparing floating-point numbers\<close>

text \<open>
  \<open>partial_cmp(..).unwrap()\<close> panics on NaN.  A sort of at least two elements compares
  every element with another, so it panics if one of the keys is NaN; without NaN the
  comparison is a total preorder, and the sort is stable.
\<close>

fun f64_rank :: "f64 \<Rightarrow> int \<times> rat" where
  "f64_rank NInf = (0, 0)"
| "f64_rank (Fin q) = (1, q)"
| "f64_rank PInf = (2, 0)"
| "f64_rank NaN = (3, 0)"

definition sort_f64_desc :: "('a \<Rightarrow> f64) \<Rightarrow> 'a list \<Rightarrow> rust_panic + 'a list" where
  "sort_f64_desc f xs =
     (if 2 \<le> length xs \<and> list_ex (\<lambda>x. f x = NaN) xs then Inl UnwrapNone
      else Inr (sort_key (\<lambda>x. f64_rank (- f x)) xs))"

text \<open>\<open>min_by\<close> keeps the first of equal elements.\<close>

fun min_f64_by :: "('a \<Rightarrow> f64) \<Rightarrow> 'a list \<Rightarrow> rust_panic + 'a option" where
  "min_f64_by f [] = Inr None"
| "min_f64_by f [x] = Inr (Some x)"
| "min_f64_by f (x # y # xs) =
     (if f x = NaN \<or> f y = NaN then Inl UnwrapNone else min_f64_by f ((if f y < f x then y else x) # xs))"

subsection \<open>Views\<close>

definition cost_per_hour_of :: "f64 \<Rightarrow> ClusterReport \<Rightarrow> f64" where
  "cost_per_hour_of watts r = watts / f64_lit 1000 * cd_cost_per_kwh (clr_carbon r)"

definition cluster_view :: "instant \<Rightarrow> ClusterState \<Rightarrow> ClusterView" where
  "cluster_view now state =
     (let r = cls_latest_report state
      in \<lparr>cv_cluster_id = clr_cluster_id r, cv_cluster_name = clr_cluster_name r, cv_region = clr_region r,
          cv_total_watts = cps_total_watts (clr_power r),
          cv_carbon_grams_per_hour = cd_emissions_grams_per_hour (clr_carbon r),
          cv_carbon_intensity = cd_intensity_grams_per_kwh (clr_carbon r),
          cv_cost_per_hour = cost_per_hour_of (cps_total_watts (clr_power r)) r,
          cv_node_count = clr_node_count r, cv_pod_count = clr_pod_count r, cv_error_ratio = clr_avg_error_ratio r,
          cv_last_seen_secs_ago = word_of_int (elapsed now (cls_received_at state) div 1000000000)\<rparr>)"

definition add_cluster :: "instant \<Rightarrow> ClusterState \<Rightarrow> FleetSummary \<Rightarrow> FleetSummary" where
  "add_cluster now state s =
     (let r = cls_latest_report state; p = clr_power r
      in s\<lparr>fs_total_watts := fs_total_watts s + cps_total_watts p,
           fs_total_cpu_watts := fs_total_cpu_watts s + cps_cpu_watts p,
           fs_total_memory_watts := fs_total_memory_watts s + cps_memory_watts p,
           fs_total_gpu_watts := fs_total_gpu_watts s + cps_gpu_watts p,
           fs_total_idle_watts := fs_total_idle_watts s + cps_idle_watts p,
           fs_total_carbon_grams_per_hour := fs_total_carbon_grams_per_hour s + cd_emissions_grams_per_hour (clr_carbon r),
           fs_total_cost_per_hour := fs_total_cost_per_hour s + cost_per_hour_of (cps_total_watts p) r,
           fs_total_nodes := fs_total_nodes s + clr_node_count r, fs_total_pods := fs_total_pods s + clr_pod_count r,
           fs_clusters := fs_clusters s @ [cluster_view now state]\<rparr>)"

definition fleet_zero :: FleetSummary where
  "fleet_zero = \<lparr>fs_total_watts = f64_lit 0, fs_total_cpu_watts = f64_lit 0, fs_total_memory_watts = f64_lit 0,
     fs_total_gpu_watts = f64_lit 0, fs_total_idle_watts = f64_lit 0, fs_total_carbon_grams_per_hour = f64_lit 0,
     fs_total_cost_per_hour = f64_lit 0, fs_total_cost_currency = ''USD'', fs_cluster_count = 0,
     fs_total_nodes = 0, fs_total_pods = 0, fs_clusters = []\<rparr>"

definition fleet_summary :: "instant \<Rightarrow> ClusterRegistry \<Rightarrow> rust_panic + FleetSummary" where
  "fleet_summary now reg =
     (let s = fold (add_cluster now) (map snd (reg_clusters reg)) fleet_zero
      in case sort_f64_desc cv_total_watts (fs_clusters s) of
           Inl p \<Rightarrow> Inl p
         | Inr clusters \<Rightarrow> Inr (s\<lparr>fs_cluster_count := length (reg_clusters reg), fs_clusters := clusters\<rparr>))"

definition team_of :: "ClusterRegistry \<Rightarrow> str \<Rightarrow> str" where
  "team_of reg namespace = hm_get_or (reg_namespace_owners reg) namespace ''unassigned''"

definition team_zero :: "str \<Rightarrow> TeamPowerView" where
  "team_zero team = \<lparr>tv_team = team, tv_total_watts = f64_lit 0, tv_carbon_grams_per_hour = f64_lit 0,
     tv_cost_per_hour = f64_lit 0, tv_per_cluster = []\<rparr>"

definition add_namespace :: "ClusterReport \<times> NamespaceSummary \<Rightarrow> TeamPowerView \<Rightarrow> TeamPowerView" where
  "add_namespace rn e =
     (let (r, ns) = rn
      in e\<lparr>tv_total_watts := tv_total_watts e + nsy_total_watts ns,
           tv_carbon_grams_per_hour := tv_carbon_grams_per_hour e
             + nsy_total_watts ns / f64_lit 1000 * cd_intensity_grams_per_kwh (clr_carbon r),
           tv_cost_per_hour := tv_cost_per_hour e + cost_per_hour_of (nsy_total_watts ns) r,
           tv_per_cluster := tv_per_cluster e @
             [\<lparr>tb_cluster_name = clr_cluster_name r, tb_namespace = nsy_namespace ns, tb_watts = nsy_total_watts ns\<rparr>]\<rparr>)"

definition fleet_namespaces :: "ClusterRegistry \<Rightarrow> (ClusterReport \<times> NamespaceSummary) list" where
  "fleet_namespaces reg =
     concat (map (\<lambda>(_, s). map (Pair (cls_latest_report s)) (clr_namespaces (cls_latest_report s))) (reg_clusters reg))"

definition team_map :: "ClusterRegistry \<Rightarrow> (str, TeamPowerView) hmap" where
  "team_map reg =
     fold (\<lambda>rn. let team = team_of reg (nsy_namespace (snd rn)) in hm_upsert team (team_zero team) (add_namespace rn))
       (fleet_namespaces reg) []"

definition team_power :: "ClusterRegistry \<Rightarrow> rust_panic + TeamPowerView list" where
  "team_power reg = sort_f64_desc tv_total_watts (map snd (team_map reg))"

definition cluster_power_history :: "str \<Rightarrow> instant \<Rightarrow> ClusterRegistry \<Rightarrow> (instant \<times> f64) list" where
  "cluster_power_history cluster_id since reg =
     (case map_of (reg_clusters reg) cluster_id of
        None \<Rightarrow> []
      | Some s \<Rightarrow> filter (\<lambda>(ts, _). since \<le> ts) (cls_power_history s))"

definition active_states :: "instant \<Rightarrow> ClusterRegistry \<Rightarrow> ClusterState list" where
  "active_states now reg = filter (cluster_active now reg) (map snd (reg_clusters reg))"

definition lowest_carbon_cluster :: "instant \<Rightarrow> ClusterRegistry \<Rightarrow> rust_panic + ClusterReport option" where
  "lowest_carbon_cluster now reg =
     map_sum id (map_option cls_latest_report)
       (min_f64_by (\<lambda>s. cd_intensity_grams_per_kwh (clr_carbon (cls_latest_report s))) (active_states now reg))"

definition active_clusters :: "instant \<Rightarrow> ClusterRegistry \<Rightarrow> ClusterReport list" where
  "active_clusters now reg = map cls_latest_report (active_states now reg)"

end
