(* ===== verification/Fleet_Policy.thy ===== *)
theory Fleet_Policy
  imports Fleet_Registry Rust_Parse
begin

text \<open>
  The policy engine (\<open>keck-fleet/src/policy/mod.rs\<close>) and the reporting engine
  (\<open>keck-fleet/src/reporting/mod.rs\<close>) of the fleet manager.  Both read the registry only.
  The formatting of a date is the \<open>chrono\<close> library's and is a parameter.
\<close>

subsection \<open>Policies\<close>

datatype PolicyKind =
    TeamPowerBudget str f64
  | NamespaceCarbonBudget str f64
  | MeteringQuality f64
  | CarbonIntensityPreference f64
  | ClusterStaleness u64

datatype Severity = Info | Warning | Critical

record Policy =
  po_name :: str
  po_kind :: PolicyKind
  po_severity :: Severity
  po_enabled :: bool

record PolicyViolation =
  pv_policy_name :: str
  pv_severity :: Severity
  pv_message :: str
  pv_current_value :: f64
  pv_threshold :: f64
  pv_timestamp :: instant

definition apostrophe :: char where "apostrophe = char_of (39 :: nat)"

definition violation :: "instant \<Rightarrow> Policy \<Rightarrow> str \<Rightarrow> f64 \<Rightarrow> f64 \<Rightarrow> PolicyViolation" where
  "violation utc_now policy message current threshold =
     \<lparr>pv_policy_name = po_name policy, pv_severity = po_severity policy, pv_message = message,
      pv_current_value = current, pv_threshold = threshold, pv_timestamp = utc_now\<rparr>"

definition carbon_per_month :: "ClusterReport \<Rightarrow> NamespaceSummary \<Rightarrow> f64" where
  "carbon_per_month cluster ns =
     (let kwh_per_month = nsy_total_watts ns / f64_lit 1000 * f64_lit 24 * f64_lit (3044 / 100)
      in kwh_per_month * cd_intensity_grams_per_kwh (clr_carbon cluster))"

definition team_budget :: "instant \<Rightarrow> ClusterRegistry \<Rightarrow> Policy \<Rightarrow> str \<Rightarrow> f64 \<Rightarrow> rust_panic + PolicyViolation list" where
  "team_budget utc_now reg policy team max_watts =
     map_sum id (\<lambda>team_views.
       case find (\<lambda>v. tv_team v = team) team_views of
         None \<Rightarrow> []
       | Some view \<Rightarrow>
           if tv_total_watts view > max_watts
           then [violation utc_now policy
                  (''Team '' @ [apostrophe] @ team @ [apostrophe] @ '' power usage '' @ show_f64_fixed 0 (tv_total_watts view)
                    @ ''W exceeds budget '' @ show_f64_fixed 0 max_watts @ ''W'') (tv_total_watts view) max_watts]
           else []) (team_power reg)"

definition namespace_budget :: "instant \<Rightarrow> Policy \<Rightarrow> str \<Rightarrow> f64 \<Rightarrow> ClusterReport \<Rightarrow> PolicyViolation list" where
  "namespace_budget utc_now policy namespace max_grams cluster =
     (case find (\<lambda>n. nsy_namespace n = namespace) (clr_namespaces cluster) of
        None \<Rightarrow> []
      | Some ns \<Rightarrow>
          let c = carbon_per_month cluster ns
          in if c > max_grams
             then [violation utc_now policy
                    (''Namespace '' @ [apostrophe] @ namespace @ [apostrophe] @ '' in cluster '' @ [apostrophe] @ clr_cluster_name cluster @ [apostrophe]
                      @ '' projected at '' @ show_f64_fixed 0 c @ '' gCO2/month (budget: '' @ show_f64_fixed 0 max_grams @ '')'') c max_grams]
             else [])"

definition metering_quality :: "instant \<Rightarrow> Policy \<Rightarrow> f64 \<Rightarrow> ClusterReport \<Rightarrow> PolicyViolation list" where
  "metering_quality utc_now policy max_error cluster =
     (if clr_avg_error_ratio cluster > max_error
      then [violation utc_now policy
             (''Cluster '' @ [apostrophe] @ clr_cluster_name cluster @ [apostrophe] @ '' metering error ''
               @ show_f64_fixed 1 (clr_avg_error_ratio cluster * f64_lit 100) @ ''% exceeds threshold ''
               @ show_f64_fixed 1 (max_error * f64_lit 100) @ ''%'') (clr_avg_error_ratio cluster) max_error]
      else [])"

definition carbon_preference :: "instant \<Rightarrow> Policy \<Rightarrow> f64 \<Rightarrow> ClusterReport \<Rightarrow> PolicyViolation list" where
  "carbon_preference utc_now policy max_grams cluster =
     (let intensity = cd_intensity_grams_per_kwh (clr_carbon cluster)
      in if intensity > max_grams
         then [violation utc_now policy
                (''Cluster '' @ [apostrophe] @ clr_cluster_name cluster @ [apostrophe] @ '' carbon intensity ''
                  @ show_f64_fixed 0 intensity @ '' gCO2/kWh exceeds preference '' @ show_f64_fixed 0 max_grams) intensity max_grams]
         else [])"

definition cluster_staleness :: "instant \<Rightarrow> Policy \<Rightarrow> u64 \<Rightarrow> ClusterView \<Rightarrow> PolicyViolation list" where
  "cluster_staleness utc_now policy max_stale cluster =
     (let ago = cv_last_seen_secs_ago cluster
      in if ago > max_stale
         then [violation utc_now policy
                (''Cluster '' @ [apostrophe] @ cv_cluster_name cluster @ [apostrophe] @ '' last reported '' @ show_nat (unat ago)
                  @ ''s ago (threshold: '' @ show_nat (unat max_stale) @ ''s)'') (f64_of_u64 ago) (f64_of_u64 max_stale)]
         else [])"

definition evaluate_policy :: "instant \<Rightarrow> instant \<Rightarrow> ClusterRegistry \<Rightarrow> Policy \<Rightarrow> rust_panic + PolicyViolation list" where
  "evaluate_policy now utc_now reg policy =
     (if \<not> po_enabled policy then Inr []
      else (case po_kind policy of
              TeamPowerBudget team max_watts \<Rightarrow> team_budget utc_now reg policy team max_watts
            | NamespaceCarbonBudget namespace max_grams \<Rightarrow>
                Inr (concat (map (namespace_budget utc_now policy namespace max_grams) (active_clusters now reg)))
            | MeteringQuality max_error \<Rightarrow> Inr (concat (map (metering_quality utc_now policy max_error) (active_clusters now reg)))
            | CarbonIntensityPreference max_grams \<Rightarrow>
                Inr (concat (map (carbon_preference utc_now policy max_grams) (active_clusters now reg)))
            | ClusterStaleness max_stale \<Rightarrow>
                map_sum id (\<lambda>s. concat (map (cluster_staleness utc_now policy max_stale) (fs_clusters s))) (fleet_summary now reg)))"

text \<open>The policies in their order; a panic ends the evaluation.\<close>

fun evaluate :: "instant \<Rightarrow> instant \<Rightarrow> ClusterRegistry \<Rightarrow> Policy list \<Rightarrow> rust_panic + PolicyViolation list" where
  "evaluate now utc_now reg [] = Inr []"
| "evaluate now utc_now reg (p # ps) =
     (case evaluate_policy now utc_now reg p of
        Inl e \<Rightarrow> Inl e
      | Inr vs \<Rightarrow> map_sum id (\<lambda>ws. vs @ ws) (evaluate now utc_now reg ps))"

definition default_policies :: "Policy list" where
  "default_policies =
     [\<lparr>po_name = ''metering-quality'', po_kind = MeteringQuality (f64_lit (20 / 100)), po_severity = Warning, po_enabled = True\<rparr>,
      \<lparr>po_name = ''cluster-staleness'', po_kind = ClusterStaleness 120, po_severity = Critical, po_enabled = True\<rparr>]"

subsection \<open>Daily reports\<close>

datatype ReportType = DailySummary | MonthlyESG | OnDemandAudit

record FleetPeriodSummary =
  fp_energy_kwh :: f64
  fp_carbon_kg :: f64
  fp_cost :: f64
  fp_cost_currency :: str
  fp_avg_power_watts :: f64
  fp_peak_power_watts :: f64
  fp_avg_carbon_intensity :: f64

record ClusterPeriodSummary =
  cp_cluster_name :: str
  cp_region :: str
  cp_energy_kwh :: f64
  cp_carbon_kg :: f64
  cp_cost :: f64
  cp_avg_power_watts :: f64

record TeamPeriodSummary =
  tp_team :: str
  tp_energy_kwh :: f64
  tp_carbon_kg :: f64
  tp_cost :: f64
  tp_namespace_count :: nat

record ReportData =
  rd_fleet :: FleetPeriodSummary
  rd_clusters :: "ClusterPeriodSummary list"
  rd_teams :: "TeamPeriodSummary list"

record Report =
  rp_id :: str
  rp_report_type :: ReportType
  rp_generated_at :: instant
  rp_period_start :: instant
  rp_period_end :: instant
  rp_data :: ReportData

definition daily_energy :: "f64 \<Rightarrow> f64" where
  "daily_energy watts = watts / f64_lit 1000 * f64_lit 24"

definition daily_carbon :: "f64 \<Rightarrow> f64" where
  "daily_carbon grams_per_hour = grams_per_hour * f64_lit 24 / f64_lit 1000"

definition daily_cost :: "f64 \<Rightarrow> f64" where
  "daily_cost cost_per_hour = cost_per_hour * f64_lit 24"

definition cluster_period :: "ClusterView \<Rightarrow> ClusterPeriodSummary" where
  "cluster_period c =
     \<lparr>cp_cluster_name = cv_cluster_name c, cp_region = cv_region c, cp_energy_kwh = daily_energy (cv_total_watts c),
      cp_carbon_kg = daily_carbon (cv_carbon_grams_per_hour c), cp_cost = daily_cost (cv_cost_per_hour c),
      cp_avg_power_watts = cv_total_watts c\<rparr>"

definition team_period :: "TeamPowerView \<Rightarrow> TeamPeriodSummary" where
  "team_period t =
     \<lparr>tp_team = tv_team t, tp_energy_kwh = daily_energy (tv_total_watts t),
      tp_carbon_kg = daily_carbon (tv_carbon_grams_per_hour t), tp_cost = daily_cost (tv_cost_per_hour t),
      tp_namespace_count = length (tv_per_cluster t)\<rparr>"

definition fleet_period :: "FleetSummary \<Rightarrow> FleetPeriodSummary" where
  "fleet_period fleet =
     (let energy = daily_energy (fs_total_watts fleet); carbon = daily_carbon (fs_total_carbon_grams_per_hour fleet)
      in \<lparr>fp_energy_kwh = energy, fp_carbon_kg = carbon, fp_cost = daily_cost (fs_total_cost_per_hour fleet),
          fp_cost_currency = fs_total_cost_currency fleet, fp_avg_power_watts = fs_total_watts fleet,
          fp_peak_power_watts = fs_total_watts fleet,
          fp_avg_carbon_intensity = (if energy > f64_lit 0 then carbon * f64_lit 1000 / energy else f64_lit 0)\<rparr>)"

definition generate_daily_report :: "(instant \<Rightarrow> str) \<Rightarrow> instant \<Rightarrow> instant \<Rightarrow> ClusterRegistry \<Rightarrow> rust_panic + Report" where
  "generate_daily_report format_time now utc_now reg =
     (case fleet_summary now reg of
        Inl e \<Rightarrow> Inl e
      | Inr fleet \<Rightarrow>
          map_sum id (\<lambda>teams.
            \<lparr>rp_id = ''daily-'' @ format_time utc_now, rp_report_type = DailySummary, rp_generated_at = utc_now,
             rp_period_start = utc_now - 24 * 3600 * 1000000000, rp_period_end = utc_now,
             rp_data = \<lparr>rd_fleet = fleet_period fleet, rd_clusters = map cluster_period (fs_clusters fleet),
               rd_teams = map team_period teams\<rparr>\<rparr>) (team_power reg))"

end
