(* ===== verification/Fleet_Facts.thy ===== *)
theory Fleet_Facts
  imports Fleet_Policy
begin

text \<open>
  The fleet manager's views follow the latest reports, they panic on NaN only, and a team's
  budget is compared with the sum over all its namespaces in all clusters.
\<close>

subsection \<open>Sorting by floating-point keys\<close>

lemma f64_rank_le: "x \<noteq> NaN \<Longrightarrow> y \<noteq> NaN \<Longrightarrow> f64_rank (- x) \<le> f64_rank (- y) \<longleftrightarrow> y \<le> x"
  by (cases x; cases y) (auto simp: uminus_f64_def less_eq_f64_def less_eq_prod_def)

lemma sort_f64_desc_Inr:
  assumes "sort_f64_desc f xs = Inr ys"
  shows "mset ys = mset xs" and "sorted_wrt (\<lambda>a b. f b \<le> f a) ys"
proof -
  have ys: "ys = sort_key (\<lambda>x. f64_rank (- f x)) xs" and ok: "length xs < 2 \<or> (\<forall>x \<in> set xs. f x \<noteq> NaN)"
    using assms by (auto simp: sort_f64_desc_def list_ex_iff split: if_splits)
  show "mset ys = mset xs" by (simp add: ys)
  have "sorted_wrt (\<lambda>a b. f64_rank (- f a) \<le> f64_rank (- f b)) ys"
    using sorted_sort_key [of "\<lambda>x. f64_rank (- f x)" xs] by (simp add: ys sorted_map)
  then show "sorted_wrt (\<lambda>a b. f b \<le> f a) ys"
  proof (cases "length xs < 2")
    case True
    then have "length ys < 2" by (simp add: ys)
    then show ?thesis by (cases ys rule: remdups_adj.cases) auto
  next
    case False
    then have nn: "\<forall>x \<in> set ys. f x \<noteq> NaN" using ok by (simp add: ys)
    show ?thesis
      by (rule sorted_wrt_mono_rel [OF _ \<open>sorted_wrt (\<lambda>a b. f64_rank (- f a) \<le> f64_rank (- f b)) ys\<close>])
        (use nn f64_rank_le in blast)
  qed
qed

lemma sort_f64_desc_Inl: "sort_f64_desc f xs = Inl e \<longleftrightarrow> e = UnwrapNone \<and> 2 \<le> length xs \<and> (\<exists>x \<in> set xs. f x = NaN)"
  by (auto simp: sort_f64_desc_def list_ex_iff)

text \<open>The condition of the panic, over the keys alone.\<close>

lemma sort_f64_desc_result:
  assumes "length xs = n" and "f ` set xs = ws"
  shows "sort_f64_desc f xs = Inl e \<Longrightarrow> e = UnwrapNone \<and> 2 \<le> n \<and> NaN \<in> ws"
    and "sort_f64_desc f xs = Inr ys \<Longrightarrow> (2 \<le> n \<and> NaN \<in> ws) = False"
    and "sort_f64_desc f xs = Inr ys \<Longrightarrow> set ys = set xs"
proof -
  have nan: "(\<exists>x \<in> set xs. f x = NaN) \<longleftrightarrow> NaN \<in> ws" unfolding assms(2) [symmetric] by (metis image_iff)
  show "e = UnwrapNone \<and> 2 \<le> n \<and> NaN \<in> ws" if "sort_f64_desc f xs = Inl e"
    using that unfolding sort_f64_desc_Inl nan assms(1) .
  show "(2 \<le> n \<and> NaN \<in> ws) = False" if "sort_f64_desc f xs = Inr ys"
    using that sort_f64_desc_Inl [of f xs UnwrapNone] unfolding nan assms(1) by auto
  show "set ys = set xs" if "sort_f64_desc f xs = Inr ys"
    using sort_f64_desc_Inr(1) [OF that] by (rule mset_eq_setD)
qed

subsection \<open>The latest reports\<close>

text \<open>Reports in the order of their arrival, each with the two clocks.\<close>

definition ingest_all :: "(instant \<times> instant \<times> ClusterReport) list \<Rightarrow> ClusterRegistry \<Rightarrow> ClusterRegistry" where
  "ingest_all arrivals reg = fold (\<lambda>(now, utc, r). registry_ingest now utc r) arrivals reg"

definition latest_from :: "(instant \<times> instant \<times> ClusterReport) list \<Rightarrow> str \<Rightarrow> ClusterReport option" where
  "latest_from arrivals = map_of (rev (map (\<lambda>(_, _, r). (clr_cluster_id r, r)) arrivals))"

definition registry_ok :: "(instant \<times> instant \<times> ClusterReport) list \<Rightarrow> ClusterRegistry \<Rightarrow> bool" where
  "registry_ok arrivals reg \<longleftrightarrow> hm_wf (reg_clusters reg) \<and>
     (\<forall>cid. map_option cls_latest_report (map_of (reg_clusters reg) cid) = latest_from arrivals cid)"

lemma latest_from_id: "latest_from arrivals cid = Some r \<Longrightarrow> clr_cluster_id r = cid"
  by (auto simp: latest_from_def dest: map_of_SomeD)

lemma registry_ok_new: "registry_ok [] registry_new"
  by (simp add: registry_ok_def registry_new_def latest_from_def)

lemma registry_ok_ingest:
  assumes "registry_ok arrivals reg"
  shows "registry_ok (arrivals @ [(now, utc, r)]) (registry_ingest now utc r reg)"
  using assms
  by (auto simp: registry_ok_def registry_ingest_def Let_def latest_from_def hm_upsert_def)

lemma registry_ok_ingest_all: "registry_ok before reg \<Longrightarrow> registry_ok (before @ arrivals) (ingest_all arrivals reg)"
proof (induction arrivals arbitrary: before reg)
  case (Cons a arrivals)
  obtain now utc r where a: "a = (now, utc, r)" by (cases a)
  from Cons.IH [OF registry_ok_ingest [OF Cons.prems, of now utc r]] show ?case by (simp add: ingest_all_def a)
qed (simp add: ingest_all_def)

subsection \<open>The fleet's summary\<close>

lemma fold_add_cluster:
  "fs_clusters (fold (add_cluster now) xs s) = fs_clusters s @ map (cluster_view now) xs"
  "fs_total_watts (fold (add_cluster now) xs s) = foldl (+) (fs_total_watts s) (map (cps_total_watts \<circ> clr_power \<circ> cls_latest_report) xs)"
  by (induction xs arbitrary: s) (simp_all add: add_cluster_def Let_def)

definition report_watts :: "ClusterReport \<Rightarrow> f64" where
  "report_watts r = cps_total_watts (clr_power r)"

lemma registry_ok_entries:
  assumes "registry_ok arrivals reg"
  shows "map_of (map (\<lambda>(cid, s). (cid, cls_latest_report s)) (reg_clusters reg)) = latest_from arrivals"
    and "(cid, s) \<in> set (reg_clusters reg) \<Longrightarrow> clr_cluster_id (cls_latest_report s) = cid"
    and "length (reg_clusters reg) = card (dom (latest_from arrivals))"
    and "fst ` set (reg_clusters reg) = dom (latest_from arrivals)"
proof -
  have wf: "distinct (map fst (reg_clusters reg))" using assms by (simp add: registry_ok_def hm_wf_def)
  have ok: "map_option cls_latest_report (map_of (reg_clusters reg) c) = latest_from arrivals c" for c
    using assms by (simp add: registry_ok_def)
  show L: "map_of (map (\<lambda>(cid, s). (cid, cls_latest_report s)) (reg_clusters reg)) = latest_from arrivals"
    using ok by (simp add: map_of_map fun_eq_iff)
  show "clr_cluster_id (cls_latest_report s) = cid" if "(cid, s) \<in> set (reg_clusters reg)"
    using ok [of cid] that wf latest_from_id [of arrivals cid "cls_latest_report s"] by simp
  show dom: "fst ` set (reg_clusters reg) = dom (latest_from arrivals)"
    unfolding L [symmetric] by (simp add: dom_map_of_conv_image_fst image_image split_beta)
  show "length (reg_clusters reg) = card (dom (latest_from arrivals))"
    using distinct_card [OF wf] by (simp add: dom [symmetric])
qed

text \<open>The views of the clusters, before they are sorted.\<close>

definition cluster_views :: "instant \<Rightarrow> ClusterRegistry \<Rightarrow> ClusterView list" where
  "cluster_views now reg = map (\<lambda>(_, s). cluster_view now s) (reg_clusters reg)"

lemma cluster_views_latest:
  assumes "registry_ok arrivals reg"
  defines "L \<equiv> latest_from arrivals"
  shows "map cv_cluster_id (cluster_views now reg) = map fst (reg_clusters reg)"
    and "map cv_total_watts (cluster_views now reg) = map (report_watts \<circ> the \<circ> L) (map fst (reg_clusters reg))"
    and "(\<lambda>v. (cv_cluster_id v, cv_total_watts v)) ` set (cluster_views now reg) = {(cid, report_watts r) | cid r. L cid = Some r}"
    and "cv_total_watts ` set (cluster_views now reg) = report_watts ` ran L"
proof -
  note entries = registry_ok_entries [OF assms(1), folded L_def]
  have wf: "distinct (map fst (reg_clusters reg))" using assms(1) by (simp add: registry_ok_def hm_wf_def)
  have L: "L cid = Some r \<longleftrightarrow> (\<exists>s. (cid, s) \<in> set (reg_clusters reg) \<and> r = cls_latest_report s)" for cid r
    using wf unfolding entries(1) [symmetric] by (auto simp: map_of_map)
  have Lv: "(cid, s) \<in> set (reg_clusters reg) \<Longrightarrow> L cid = Some (cls_latest_report s)" for cid s
    using L by blast
  have view: "cv_cluster_id (cluster_view now s) = cid" "cv_total_watts (cluster_view now s) = report_watts (cls_latest_report s)"
    if "(cid, s) \<in> set (reg_clusters reg)" for cid s
    using entries(2) [OF that] by (simp_all add: cluster_view_def Let_def report_watts_def)
  show "map cv_cluster_id (cluster_views now reg) = map fst (reg_clusters reg)" using view(1) by (auto simp: cluster_views_def)
  show "map cv_total_watts (cluster_views now reg) = map (report_watts \<circ> the \<circ> L) (map fst (reg_clusters reg))"
    unfolding cluster_views_def map_map by (rule map_cong) (auto simp: view Lv)
  let ?pairs = "(\<lambda>(cid, s). (cid, report_watts (cls_latest_report s))) ` set (reg_clusters reg)"
  have "(\<lambda>v. (cv_cluster_id v, cv_total_watts v)) ` set (cluster_views now reg) = ?pairs"
    unfolding cluster_views_def set_map image_image by (rule image_cong) (auto simp: view)
  also have "?pairs = {(cid, report_watts r) | cid r. L cid = Some r}" by (auto simp: L)
  finally show pairs: "(\<lambda>v. (cv_cluster_id v, cv_total_watts v)) ` set (cluster_views now reg) = {(cid, report_watts r) | cid r. L cid = Some r}" .
  have "cv_total_watts ` set (cluster_views now reg) = snd ` {(cid, report_watts r) | cid r. L cid = Some r}"
    unfolding pairs [symmetric] image_image by simp
  also have "\<dots> = report_watts ` ran L" by (auto simp: ran_def image_def)
  finally show "cv_total_watts ` set (cluster_views now reg) = report_watts ` ran L" .
qed

lemma fleet_summary_views:
  "fleet_summary now reg = map_sum id (\<lambda>cs. (fold (add_cluster now) (map snd (reg_clusters reg)) fleet_zero)
     \<lparr>fs_cluster_count := length (reg_clusters reg), fs_clusters := cs\<rparr>) (sort_f64_desc cv_total_watts (cluster_views now reg))"
  "fs_total_watts (fold (add_cluster now) (map snd (reg_clusters reg)) fleet_zero) = f64_sum (map cv_total_watts (cluster_views now reg))"
proof -
  have "fs_clusters (fold (add_cluster now) (map snd (reg_clusters reg)) fleet_zero) = cluster_views now reg"
    by (simp add: fold_add_cluster fleet_zero_def cluster_views_def split_beta comp_def)
  then show "fleet_summary now reg = map_sum id (\<lambda>cs. (fold (add_cluster now) (map snd (reg_clusters reg)) fleet_zero)
     \<lparr>fs_cluster_count := length (reg_clusters reg), fs_clusters := cs\<rparr>) (sort_f64_desc cv_total_watts (cluster_views now reg))"
    by (cases "sort_f64_desc cv_total_watts (cluster_views now reg)") (simp_all add: fleet_summary_def Let_def)
  show "fs_total_watts (fold (add_cluster now) (map snd (reg_clusters reg)) fleet_zero) = f64_sum (map cv_total_watts (cluster_views now reg))"
    by (simp add: fold_add_cluster fleet_zero_def cluster_views_def f64_sum_def f64_lit_def split_beta cluster_view_def comp_def Let_def)
qed

text \<open>
  C29: The fleet's summary shows every cluster that ever reported exactly once, with its
  latest report, by falling power, and the total is the sum over the clusters.  It panics
  if and only if there are at least two clusters and one reports a power that is not a
  number.
\<close>

theorem fleet_summary_exact:
  fixes arrivals now
  defines "reg \<equiv> ingest_all arrivals registry_new" and "L \<equiv> latest_from arrivals"
  shows "case fleet_summary now reg of
      Inl e \<Rightarrow> e = UnwrapNone \<and> 2 \<le> card (dom L) \<and> NaN \<in> report_watts ` ran L
    | Inr s \<Rightarrow> (2 \<le> card (dom L) \<and> NaN \<in> report_watts ` ran L) = False \<and>
        fs_cluster_count s = card (dom L) \<and> distinct (map cv_cluster_id (fs_clusters s)) \<and>
        (\<lambda>v. (cv_cluster_id v, cv_total_watts v)) ` set (fs_clusters s) = {(cid, report_watts r) | cid r. L cid = Some r} \<and>
        sorted_wrt (\<lambda>a b. cv_total_watts b \<le> cv_total_watts a) (fs_clusters s) \<and>
        (\<exists>order. distinct order \<and> set order = dom L \<and> fs_total_watts s = f64_sum (map (report_watts \<circ> the \<circ> L) order))"
proof -
  have ok: "registry_ok arrivals reg" using registry_ok_ingest_all [OF registry_ok_new] by (simp add: reg_def)
  have wf: "distinct (map fst (reg_clusters reg))" using ok by (simp add: registry_ok_def hm_wf_def)
  note entries = registry_ok_entries [OF ok, folded L_def]
  note views = cluster_views_latest [OF ok, where now = now, folded L_def]
  have "length (cluster_views now reg) = card (dom L)" using entries(3) by (simp add: cluster_views_def)
  note result = sort_f64_desc_result [OF this views(4)]
  show ?thesis
  proof (cases "sort_f64_desc cv_total_watts (cluster_views now reg)")
    case (Inl e)
    then show ?thesis using result(1) by (simp add: fleet_summary_views)
  next
    case (Inr ys)
    note ys = sort_f64_desc_Inr [OF Inr]
    have "distinct (map cv_cluster_id ys)"
      using wf mset_eq_imp_distinct_iff [OF arg_cong [OF ys(1), of "image_mset cv_cluster_id", folded mset_map]]
      unfolding views(1) by simp
    moreover have "\<exists>order. distinct order \<and> set order = dom L \<and>
        f64_sum (map cv_total_watts (cluster_views now reg)) = f64_sum (map (report_watts \<circ> the \<circ> L) order)"
      using wf entries(4) views(2) by (intro exI [of _ "map fst (reg_clusters reg)"]) simp
    ultimately show ?thesis using Inr result(2,3) views(3) ys(2) entries(3)
      by (simp add: fleet_summary_views)
  qed
qed

subsection \<open>Teams and their budgets\<close>

definition team_namespaces :: "ClusterRegistry \<Rightarrow> str \<Rightarrow> (ClusterReport \<times> NamespaceSummary) list" where
  "team_namespaces reg team = filter (\<lambda>rn. team_of reg (nsy_namespace (snd rn)) = team) (fleet_namespaces reg)"

definition team_watts :: "ClusterRegistry \<Rightarrow> str \<Rightarrow> f64" where
  "team_watts reg team = f64_sum (map (nsy_total_watts \<circ> snd) (team_namespaces reg team))"

lemma fold_add_namespace:
  "tv_team (fold add_namespace xs e) = tv_team e"
  "tv_total_watts (fold add_namespace xs e) = foldl (+) (tv_total_watts e) (map (nsy_total_watts \<circ> snd) xs)"
  by (induction xs arbitrary: e) (simp_all add: add_namespace_def split_beta Let_def)

lemma team_views:
  obtains teams where "distinct teams" and "set teams = (\<lambda>rn. team_of reg (nsy_namespace (snd rn))) ` set (fleet_namespaces reg)"
    and "map (\<lambda>v. (tv_team v, tv_total_watts v)) (map snd (team_map reg)) = map (\<lambda>t. (t, team_watts reg t)) teams"
proof -
  note grouped = hm.grouped_by_key [OF hm_wf_Nil refl team_map_def [unfolded Let_def]]
  have "map (\<lambda>v. (tv_team v, tv_total_watts v)) (map snd (team_map reg)) = map (\<lambda>t. (t, team_watts reg t)) (map fst (team_map reg))"
    unfolding grouped(1) map_map
    by (rule map_cong) (simp_all add: fold_add_namespace team_zero_def team_watts_def team_namespaces_def f64_sum_def f64_lit_def comp_def)
  with grouped(2,3) that show ?thesis by blast
qed

text \<open>
  C30: A team's budget is checked against the sum of the power of all its namespaces in
  all clusters: an enabled policy reports a violation, with that sum as its value, exactly
  if the team has a namespace and the sum exceeds the budget.  The check panics exactly if
  at least two teams have namespaces and the sum of one of them is not a number.
\<close>

theorem team_budget_exact:
  fixes reg utc_now name team max_watts severity
  defines "policy \<equiv> \<lparr>po_name = name, po_kind = TeamPowerBudget team max_watts, po_severity = severity, po_enabled = True\<rparr>"
    and "teams \<equiv> (\<lambda>rn. team_of reg (nsy_namespace (snd rn))) ` set (fleet_namespaces reg)"
  shows "case evaluate_policy now utc_now reg policy of
      Inl e \<Rightarrow> e = UnwrapNone \<and> 2 \<le> card teams \<and> NaN \<in> team_watts reg ` teams
    | Inr vs \<Rightarrow> (2 \<le> card teams \<and> NaN \<in> team_watts reg ` teams) = False \<and>
        map (\<lambda>v. (pv_policy_name v, pv_current_value v, pv_threshold v)) vs =
          (if team \<in> teams \<and> max_watts < team_watts reg team then [(name, team_watts reg team, max_watts)] else [])"
proof -
  let ?views = "map snd (team_map reg)"
  obtain ts where ts: "distinct ts" "set ts = teams" "map (\<lambda>v. (tv_team v, tv_total_watts v)) ?views = map (\<lambda>t. (t, team_watts reg t)) ts"
    using team_views [of reg] unfolding teams_def .
  have pairs: "(\<lambda>v. (tv_team v, tv_total_watts v)) ` set ?views = (\<lambda>t. (t, team_watts reg t)) ` teams"
    using arg_cong [OF ts(3), of set] unfolding set_map ts(2) .
  have watts: "tv_total_watts ` set ?views = team_watts reg ` teams"
    using arg_cong [OF pairs, of "image snd"] unfolding image_image snd_conv .
  have "length ?views = card teams"
    using arg_cong [OF ts(3), of length] distinct_card [OF ts(1)] unfolding length_map ts(2) by simp
  note result = sort_f64_desc_result [OF this watts]
  show ?thesis
  proof (cases "sort_f64_desc tv_total_watts ?views")
    case (Inl e)
    then show ?thesis using result(1) by (simp add: evaluate_policy_def policy_def team_budget_def team_power_def)
  next
    case (Inr ys)
    from result(3) [OF Inr]
    have ys: "(\<lambda>v. (tv_team v, tv_total_watts v)) ` set ys = (\<lambda>t. (t, team_watts reg t)) ` teams" using pairs by simp
    have "find (\<lambda>v. tv_team v = team) ys = None \<longleftrightarrow> team \<notin> teams"
      using arg_cong [OF ys, of "image fst"] unfolding image_image fst_conv find_None_iff by (auto simp: image_iff)
    moreover have "tv_total_watts v = team_watts reg team" if "find (\<lambda>v. tv_team v = team) ys = Some v" for v
    proof -
      from that have "v \<in> set ys" "tv_team v = team" by (auto simp: find_Some_iff)
      with ys show ?thesis by (auto simp: image_iff set_eq_iff)
    qed
    ultimately show ?thesis using result(2) [OF Inr]
      by (auto simp: evaluate_policy_def policy_def team_budget_def team_power_def Inr violation_def split: option.split)
  qed
qed

end
