(* ===== verification/Operator_Types.thy ===== *)
theory Operator_Types
  imports Hash_Map Json
begin

text \<open>
  The types of the operator: its custom resources (\<open>keck-operator/api/v1alpha1/types.go\<close>) and
  the fields it sets in the Kubernetes objects it writes.  A Go map is an association list
  and the nil map is the empty one, except where the source tells them apart.  Go's
  \<open>int32\<close> fields are only compared, copied and printed, and are integers.
\<close>

subsection \<open>Custom resources\<close>

record ObjectMeta =
  meta_name :: str
  meta_namespace :: str
  meta_labels :: "(str, str) hmap"
  meta_annotations :: "(str, str) hmap"
  meta_finalizers :: "str list"
  meta_deletion_timestamp :: "instant option"

record Toleration =
  tol_key :: str
  tol_operator :: str
  tol_value :: str
  tol_effect :: str
  tol_seconds :: "int option"

text \<open>Limits that are nil and limits that are empty differ.\<close>

record ResourceRequirements =
  rr_requests :: "(str, str) hmap"
  rr_limits :: "(str, str) hmap option"

record NodeBMCEntry =
  bmc_serial :: str
  bmc_endpoint :: str

record RedfishSpec =
  rfs_credentials_secret :: str
  rfs_node_bmc_map :: "NodeBMCEntry list"

record AgentSpec =
  asp_default_profile :: str
  asp_node_selector :: "(str, str) hmap"
  asp_tolerations :: "Toleration list"
  asp_resources :: ResourceRequirements
  asp_gpu_enabled :: bool
  asp_captured_labels :: "str list"
  asp_redfish :: "RedfishSpec option"

record ControllerSpec =
  csp_replicas :: int
  csp_resources :: ResourceRequirements
  csp_scheduler_enabled :: bool
  csp_carbon_api_endpoint :: str
  csp_carbon_region :: str
  csp_energy_cost_per_kwh :: str

record ImageSpec =
  img_repository :: str
  img_tag :: str
  img_pull_policy :: str
  img_pull_secrets :: "str list"

record KeckClusterSpec =
  kcs_agent :: AgentSpec
  kcs_controller :: ControllerSpec
  kcs_fleet_endpoint :: str
  kcs_image :: ImageSpec

record Condition =
  cond_type :: str
  cond_status :: str
  cond_observed_generation :: int
  cond_last_transition :: instant
  cond_reason :: str
  cond_message :: str

record KeckClusterStatus =
  kst_phase :: str
  kst_agent_ready :: int
  kst_agent_desired :: int
  kst_controller_ready :: bool
  kst_last_updated :: instant
  kst_message :: str
  kst_conditions :: "Condition list"

record KeckCluster =
  kc_meta :: ObjectMeta
  kc_spec :: KeckClusterSpec
  kc_status :: KeckClusterStatus

record PowerBudgetSpec =
  pbs_max_watts :: f64
  pbs_action :: str
  pbs_alert_webhook :: str

record PowerBudgetStatus =
  pbt_current_watts :: f64
  pbt_usage_percent :: str
  pbt_exceeded :: bool
  pbt_last_updated :: instant

record PowerBudget =
  pwb_meta :: ObjectMeta
  pwb_spec :: PowerBudgetSpec
  pwb_status :: PowerBudgetStatus

subsection \<open>Pods\<close>

text \<open>An environment variable has a value or a source: a field of the pod or a key of a secret.\<close>

datatype EnvVarSource = FieldRef str | SecretKeyRef str str

record EnvVar =
  ev_name :: str
  ev_value :: str
  ev_value_from :: "EnvVarSource option"

record SecurityContext =
  sec_add :: "str list"
  sec_drop :: "str list"
  sec_read_only_root :: "bool option"
  sec_run_as_non_root :: "bool option"

record Probe =
  prb_path :: str
  prb_port :: int
  prb_scheme :: str
  prb_initial_delay :: int
  prb_period :: int
  prb_timeout :: int
  prb_failure_threshold :: int

record VolumeMount =
  vm_name :: str
  vm_path :: str
  vm_sub_path :: str
  vm_read_only :: bool

record ContainerPort =
  cpt_name :: str
  cpt_port :: int
  cpt_protocol :: str

record Container =
  con_name :: str
  con_image :: str
  con_pull_policy :: str
  con_command :: "str list"
  con_args :: "str list"
  con_env :: "EnvVar list"
  con_security :: SecurityContext
  con_liveness :: "Probe option"
  con_readiness :: "Probe option"
  con_resources :: ResourceRequirements
  con_mounts :: "VolumeMount list"
  con_ports :: "ContainerPort list"

datatype VolumeSource = HostPath str | SecretVolume str | ConfigMapVolume str

record PodSpec =
  ps_service_account :: str
  ps_host_pid :: bool
  ps_node_selector :: "(str, str) hmap"
  ps_tolerations :: "Toleration list"
  ps_containers :: "Container list"
  ps_volumes :: "(str \<times> VolumeSource) list"

subsection \<open>Objects\<close>

record PolicyRule =
  pr_api_groups :: "str list"
  pr_resources :: "str list"
  pr_verbs :: "str list"

record RoleRef =
  rref_api_group :: str
  rref_kind :: str
  rref_name :: str

record Subject =
  sub_kind :: str
  sub_name :: str
  sub_namespace :: str

text \<open>A workload: the selector, and the labels and the specification of its pods.\<close>

record DaemonSetSpec =
  dss_selector :: "(str, str) hmap"
  dss_pod_labels :: "(str, str) hmap"
  dss_pod :: PodSpec

record DeploymentSpec =
  dps_replicas :: int
  dps_selector :: "(str, str) hmap"
  dps_pod_labels :: "(str, str) hmap"
  dps_pod :: PodSpec

record ServicePort =
  spt_name :: str
  spt_port :: int
  spt_target_port :: "int option"
  spt_protocol :: str

datatype NetworkPolicyPeer = PodPeer "(str, str) hmap" | NamespacePeer "(str, str) hmap"

record IngressRule =
  igr_from :: "NetworkPolicyPeer list"
  igr_ports :: "(int \<times> str) list"

record NetworkPolicySpec =
  nps_pod_selector :: "(str, str) hmap"
  nps_policy_types :: "str list"
  nps_ingress :: "IngressRule list"

datatype kube_object =
    KeckClusterObj KeckCluster
  | PowerBudgetObj PowerBudget
  | NamespaceObj ObjectMeta
  | ServiceAccountObj ObjectMeta
  | SecretObj ObjectMeta str "(str, str) hmap"
  | ClusterRoleObj ObjectMeta "PolicyRule list"
  | ClusterRoleBindingObj ObjectMeta RoleRef "Subject list"
  | DaemonSetObj ObjectMeta DaemonSetSpec int int \<comment> \<open>number ready, number desired\<close>
  | DeploymentObj ObjectMeta DeploymentSpec int \<comment> \<open>ready replicas\<close>
  | ConfigMapObj ObjectMeta "(str, str) hmap"
  | ServiceObj ObjectMeta "(str, str) hmap" "ServicePort list"
  | PodDisruptionBudgetObj ObjectMeta int "(str, str) hmap"
  | NetworkPolicyObj ObjectMeta NetworkPolicySpec
  | ServiceMonitorObj ObjectMeta json

datatype kube_kind =
    KKeckCluster | KPowerBudget | KNamespace | KServiceAccount | KSecret | KClusterRole | KClusterRoleBinding
  | KDaemonSet | KDeployment | KConfigMap | KService | KPodDisruptionBudget | KNetworkPolicy | KServiceMonitor

text \<open>An object is found by its kind, its namespace (empty for a cluster-scoped kind) and its name.\<close>

datatype object_key = ObjectKey (key_kind: kube_kind) (key_namespace: str) (key_name: str)

fun kind_of :: "kube_object \<Rightarrow> kube_kind" where
  "kind_of (KeckClusterObj _) = KKeckCluster"
| "kind_of (PowerBudgetObj _) = KPowerBudget"
| "kind_of (NamespaceObj _) = KNamespace"
| "kind_of (ServiceAccountObj _) = KServiceAccount"
| "kind_of (SecretObj _ _ _) = KSecret"
| "kind_of (ClusterRoleObj _ _) = KClusterRole"
| "kind_of (ClusterRoleBindingObj _ _ _) = KClusterRoleBinding"
| "kind_of (DaemonSetObj _ _ _ _) = KDaemonSet"
| "kind_of (DeploymentObj _ _ _) = KDeployment"
| "kind_of (ConfigMapObj _ _) = KConfigMap"
| "kind_of (ServiceObj _ _ _) = KService"
| "kind_of (PodDisruptionBudgetObj _ _ _) = KPodDisruptionBudget"
| "kind_of (NetworkPolicyObj _ _) = KNetworkPolicy"
| "kind_of (ServiceMonitorObj _ _) = KServiceMonitor"

fun meta_of :: "kube_object \<Rightarrow> ObjectMeta" where
  "meta_of (KeckClusterObj k) = kc_meta k"
| "meta_of (PowerBudgetObj b) = pwb_meta b"
| "meta_of (NamespaceObj m) = m"
| "meta_of (ServiceAccountObj m) = m"
| "meta_of (SecretObj m _ _) = m"
| "meta_of (ClusterRoleObj m _) = m"
| "meta_of (ClusterRoleBindingObj m _ _) = m"
| "meta_of (DaemonSetObj m _ _ _) = m"
| "meta_of (DeploymentObj m _ _) = m"
| "meta_of (ConfigMapObj m _) = m"
| "meta_of (ServiceObj m _ _) = m"
| "meta_of (PodDisruptionBudgetObj m _ _) = m"
| "meta_of (NetworkPolicyObj m _) = m"
| "meta_of (ServiceMonitorObj m _) = m"

definition key_of :: "kube_object \<Rightarrow> object_key" where
  "key_of obj = ObjectKey (kind_of obj) (meta_namespace (meta_of obj)) (meta_name (meta_of obj))"

subsection \<open>The Kubernetes API\<close>

text \<open>
  The client is a parameter.  A request fails because the object is not there or for another
  reason; wrapping an error with \<open>%w\<close> keeps which of the two it is.  An update answers with
  the object as the server stored it.
\<close>

datatype kube_error = NotFound str | OtherError str

fun error_text :: "kube_error \<Rightarrow> str" where
  "error_text (NotFound m) = m"
| "error_text (OtherError m) = m"

fun wrap :: "str \<Rightarrow> kube_error \<Rightarrow> kube_error" where
  "wrap p (NotFound m) = NotFound (p @ m)"
| "wrap p (OtherError m) = OtherError (p @ m)"

record 'w kube =
  kb_get :: "object_key \<Rightarrow> 'w \<Rightarrow> kube_error + kube_object"
  kb_create :: "kube_object \<Rightarrow> 'w \<Rightarrow> kube_error option \<times> 'w"
  kb_update :: "kube_object \<Rightarrow> 'w \<Rightarrow> (kube_error + kube_object) \<times> 'w"
  kb_update_status :: "kube_object \<Rightarrow> 'w \<Rightarrow> (kube_error + kube_object) \<times> 'w"
  kb_delete :: "kube_object \<Rightarrow> 'w \<Rightarrow> kube_error option \<times> 'w"

end
