(* ===== verification/Operator.thy ===== *)
theory Operator
  imports Operator_Types Rust_Parse
begin

text \<open>
  The operator (\<open>keck-operator/controllers\<close>): the objects it wants in the cluster, the
  reconciliation of a \<open>KeckCluster\<close> that brings them there, the clean-up when it is deleted,
  and the reconciliation of a \<open>PowerBudget\<close>.  An operation takes the state of the cluster as
  the client sees it and gives the error, if any, and the new state.  Log messages are left
  out; events are not.
\<close>

subsection \<open>Labels, images and resources\<close>

definition keckNamespace :: str where "keckNamespace = ''keck-system''"
definition finalizerName :: str where "finalizerName = ''keck.io/finalizer''"

definition commonLabels :: "(str, str) hmap" where
  "commonLabels = [(''app.kubernetes.io/managed-by'', ''keck-operator''), (''app.kubernetes.io/part-of'', ''keck'')]"

definition agentLabels :: "(str, str) hmap" where
  "agentLabels = AList.update ''app.kubernetes.io/component'' ''agent''
                   (AList.update ''app.kubernetes.io/name'' ''keck-agent'' commonLabels)"

definition controllerLabels :: "(str, str) hmap" where
  "controllerLabels = AList.update ''app.kubernetes.io/component'' ''controller''
                        (AList.update ''app.kubernetes.io/name'' ''keck-controller'' commonLabels)"

definition imageRepo :: "KeckCluster \<Rightarrow> str" where
  "imageRepo keck =
     (if img_repository (kcs_image (kc_spec keck)) \<noteq> [] then img_repository (kcs_image (kc_spec keck))
      else ''quay.io/aguetta'')"

definition imageTag :: "KeckCluster \<Rightarrow> str" where
  "imageTag keck =
     (if img_tag (kcs_image (kc_spec keck)) \<noteq> [] then img_tag (kcs_image (kc_spec keck)) else ''latest'')"

definition agentImage :: "KeckCluster \<Rightarrow> str" where
  "agentImage keck = imageRepo keck @ ''/keck-agent:'' @ imageTag keck"

definition controllerImage :: "KeckCluster \<Rightarrow> str" where
  "controllerImage keck = imageRepo keck @ ''/keck-controller:'' @ imageTag keck"

definition agentTolerations :: "KeckCluster \<Rightarrow> Toleration list" where
  "agentTolerations keck =
     (if asp_tolerations (kcs_agent (kc_spec keck)) \<noteq> [] then asp_tolerations (kcs_agent (kc_spec keck))
      else map (\<lambda>key. \<lparr>tol_key = key, tol_operator = ''Exists'', tol_value = [], tol_effect = ''NoSchedule'',
                        tol_seconds = None\<rparr>)
             [''node-role.kubernetes.io/control-plane'', ''node-role.kubernetes.io/master''])"

definition agentResources :: "KeckCluster \<Rightarrow> ResourceRequirements" where
  "agentResources keck =
     (if rr_limits (asp_resources (kcs_agent (kc_spec keck))) \<noteq> None then asp_resources (kcs_agent (kc_spec keck))
      else \<lparr>rr_requests = [(''cpu'', ''50m''), (''memory'', ''64Mi'')],
            rr_limits = Some [(''cpu'', ''200m''), (''memory'', ''256Mi'')]\<rparr>)"

definition controllerResources :: "KeckCluster \<Rightarrow> ResourceRequirements" where
  "controllerResources keck =
     (if rr_limits (csp_resources (kcs_controller (kc_spec keck))) \<noteq> None
      then csp_resources (kcs_controller (kc_spec keck))
      else \<lparr>rr_requests = [(''cpu'', ''100m''), (''memory'', ''128Mi'')],
            rr_limits = Some [(''cpu'', ''500m''), (''memory'', ''512Mi'')]\<rparr>)"

text \<open>\<open>metav1.ObjectMeta\<close> with the fields it is not given at their zero values.\<close>

definition object_meta :: "str \<Rightarrow> str \<Rightarrow> (str, str) hmap \<Rightarrow> ObjectMeta" where
  "object_meta name namespace labels =
     \<lparr>meta_name = name, meta_namespace = namespace, meta_labels = labels, meta_annotations = [], meta_finalizers = [],
      meta_deletion_timestamp = None\<rparr>"

definition no_resources :: ResourceRequirements where
  "no_resources = \<lparr>rr_requests = [], rr_limits = None\<rparr>"

definition http_probe :: "int \<Rightarrow> int \<Rightarrow> int \<Rightarrow> Probe" where
  "http_probe port initial_delay period =
     \<lparr>prb_path = ''/healthz'', prb_port = port, prb_scheme = ''HTTP'', prb_initial_delay = initial_delay,
      prb_period = period, prb_timeout = 3, prb_failure_threshold = 3\<rparr>"

definition plain_env :: "str \<Rightarrow> str \<Rightarrow> EnvVar" where
  "plain_env name val = \<lparr>ev_name = name, ev_value = val, ev_value_from = None\<rparr>"

definition secret_env :: "str \<Rightarrow> str \<Rightarrow> str \<Rightarrow> EnvVar" where
  "secret_env name secret key = \<lparr>ev_name = name, ev_value = [], ev_value_from = Some (SecretKeyRef secret key)\<rparr>"

text \<open>\<open>strings.Join\<close>.\<close>

fun join_strs :: "str \<Rightarrow> str list \<Rightarrow> str" where
  "join_strs sep [] = []"
| "join_strs sep [s] = s"
| "join_strs sep (s # rest) = s @ sep @ join_strs sep rest"

subsection \<open>The agent's DaemonSet\<close>

definition redfish_env :: "RedfishSpec \<Rightarrow> EnvVar list" where
  "redfish_env rf =
     (if rfs_node_bmc_map rf \<noteq> []
      then [plain_env ''REDFISH_MAP''
              (join_strs '','' (map (\<lambda>e. bmc_serial e @ ''='' @ bmc_endpoint e) (rfs_node_bmc_map rf)))]
      else []) @
     (if rfs_credentials_secret rf \<noteq> []
      then [secret_env ''REDFISH_USERNAME'' (rfs_credentials_secret rf) ''username'',
            secret_env ''REDFISH_PASSWORD'' (rfs_credentials_secret rf) ''password'']
      else [])"

definition agent_env :: "KeckCluster \<Rightarrow> EnvVar list" where
  "agent_env keck =
     (let spec = kcs_agent (kc_spec keck)
      in [\<lparr>ev_name = ''NODE_NAME'', ev_value = [], ev_value_from = Some (FieldRef ''spec.nodeName'')\<rparr>,
          plain_env ''KECK_CONTROLLER_URL'' ''http://keck-controller.keck-system.svc:8080'',
          secret_env ''KECK_API_KEY'' ''keck-api-key'' ''api-key''] @
         (if asp_default_profile spec \<noteq> [] then [plain_env ''KECK_PROFILE'' (asp_default_profile spec)] else []) @
         (if asp_gpu_enabled spec then [plain_env ''KECK_GPU_ENABLED'' ''true''] else []) @
         (if asp_captured_labels spec \<noteq> []
          then [plain_env ''KECK_CAPTURED_LABELS'' (join_strs '','' (asp_captured_labels spec))] else []) @
         (case asp_redfish spec of None \<Rightarrow> [] | Some rf \<Rightarrow> redfish_env rf))"

definition read_only_mount :: "str \<Rightarrow> str \<Rightarrow> VolumeMount" where
  "read_only_mount name path = \<lparr>vm_name = name, vm_path = path, vm_sub_path = [], vm_read_only = True\<rparr>"

definition tcp_port :: "str \<Rightarrow> int \<Rightarrow> ContainerPort" where
  "tcp_port name port = \<lparr>cpt_name = name, cpt_port = port, cpt_protocol = ''TCP''\<rparr>"

definition agent_container :: "KeckCluster \<Rightarrow> Container" where
  "agent_container keck =
     \<lparr>con_name = ''keck-agent'', con_image = agentImage keck,
      con_pull_policy = img_pull_policy (kcs_image (kc_spec keck)), con_command = [''/usr/bin/keck-agent''],
      con_args = [], con_env = agent_env keck,
      con_security = \<lparr>sec_add = [''SYS_ADMIN'', ''PERFMON'', ''BPF'', ''SYS_RESOURCE''], sec_drop = [''ALL''],
                      sec_read_only_root = Some True, sec_run_as_non_root = None\<rparr>,
      con_liveness = Some (http_probe 9100 30 30), con_readiness = Some (http_probe 9100 10 10),
      con_resources = agentResources keck,
      con_mounts = [read_only_mount ''proc'' ''/host/proc'', read_only_mount ''sys'' ''/host/sys'',
                    read_only_mount ''tracefs'' ''/sys/kernel/tracing''],
      con_ports = [tcp_port ''metrics'' 9100]\<rparr>"

definition agent_spec :: "KeckCluster \<Rightarrow> DaemonSetSpec" where
  "agent_spec keck =
     \<lparr>dss_selector = [(''app.kubernetes.io/name'', ''keck-agent''), (''app.kubernetes.io/component'', ''agent'')],
      dss_pod_labels = agentLabels,
      dss_pod =
        \<lparr>ps_service_account = ''keck-agent'', ps_host_pid = True,
         ps_node_selector = asp_node_selector (kcs_agent (kc_spec keck)), ps_tolerations = agentTolerations keck,
         ps_containers = [agent_container keck],
         ps_volumes = [(''proc'', HostPath ''/proc''), (''sys'', HostPath ''/sys''),
                       (''tracefs'', HostPath ''/sys/kernel/tracing'')]\<rparr>\<rparr>"

subsection \<open>The controller's Deployment\<close>

definition controller_selector :: "(str, str) hmap" where
  "controller_selector =
     [(''app.kubernetes.io/name'', ''keck-controller''), (''app.kubernetes.io/component'', ''controller'')]"

definition controller_args :: "KeckCluster \<Rightarrow> str list" where
  "controller_args keck =
     (let spec = kcs_controller (kc_spec keck)
      in (if csp_scheduler_enabled spec then [''--scheduler-enabled''] else []) @
         (if csp_carbon_api_endpoint spec \<noteq> [] then [''--carbon-api='' @ csp_carbon_api_endpoint spec] else []) @
         (if csp_carbon_region spec \<noteq> [] then [''--carbon-region='' @ csp_carbon_region spec] else []) @
         (if kcs_fleet_endpoint (kc_spec keck) \<noteq> []
          then [''--fleet-endpoint='' @ kcs_fleet_endpoint (kc_spec keck)] else []))"

definition controller_env :: "EnvVar list" where
  "controller_env = [secret_env ''KECK_API_KEY'' ''keck-api-key'' ''api-key'', plain_env ''KEPLER_ENABLED'' ''true'']"

definition locked_down :: SecurityContext where
  "locked_down = \<lparr>sec_add = [], sec_drop = [''ALL''], sec_read_only_root = Some True, sec_run_as_non_root = Some True\<rparr>"

definition controller_container :: "KeckCluster \<Rightarrow> Container" where
  "controller_container keck =
     \<lparr>con_name = ''keck-controller'', con_image = controllerImage keck,
      con_pull_policy = img_pull_policy (kcs_image (kc_spec keck)), con_command = [''/usr/bin/keck-controller''],
      con_args = controller_args keck, con_env = controller_env, con_security = locked_down,
      con_liveness = Some (http_probe 8080 15 15), con_readiness = Some (http_probe 8080 5 10),
      con_resources = controllerResources keck, con_mounts = [],
      con_ports = [tcp_port ''grpc'' 9090, tcp_port ''http'' 8080]\<rparr>"

definition tls_proxy :: Container where
  "tls_proxy =
     \<lparr>con_name = ''tls-proxy'', con_image = ''nginxinc/nginx-unprivileged:1.27-alpine'', con_pull_policy = [],
      con_command = [''nginx'', ''-g'', ''daemon off;''], con_args = [], con_env = [], con_security = locked_down,
      con_liveness = None, con_readiness = None, con_resources = no_resources,
      con_mounts = [read_only_mount ''tls'' ''/etc/tls'',
                    (read_only_mount ''nginx-conf'' ''/etc/nginx/nginx.conf'')\<lparr>vm_sub_path := ''nginx.conf''\<rparr>],
      con_ports = [tcp_port ''https'' 9443]\<rparr>"

definition controller_spec :: "KeckCluster \<Rightarrow> DeploymentSpec" where
  "controller_spec keck =
     (let replicas = csp_replicas (kcs_controller (kc_spec keck))
      in \<lparr>dps_replicas = (if replicas = 0 then 1 else replicas), dps_selector = controller_selector,
          dps_pod_labels = controllerLabels,
          dps_pod =
            \<lparr>ps_service_account = ''keck-controller'', ps_host_pid = False, ps_node_selector = [], ps_tolerations = [],
             ps_containers = [controller_container keck, tls_proxy],
             ps_volumes = [(''tls'', SecretVolume ''keck-controller-tls''),
                           (''nginx-conf'', ConfigMapVolume ''keck-controller-nginx'')]\<rparr>\<rparr>)"

subsection \<open>The other objects\<close>

definition agent_rules :: "PolicyRule list" where
  "agent_rules =
     [\<lparr>pr_api_groups = [''''], pr_resources = [''nodes'', ''pods'', ''namespaces'', ''endpoints''],
       pr_verbs = [''get'', ''list'', ''watch'']\<rparr>,
      \<lparr>pr_api_groups = [''keck.io''], pr_resources = [''powerbudgets'', ''powerprofiles''],
       pr_verbs = [''get'', ''list'', ''watch'']\<rparr>]"

definition agent_subjects :: "Subject list" where
  "agent_subjects = [\<lparr>sub_kind = ''ServiceAccount'', sub_name = ''keck-agent'', sub_namespace = keckNamespace\<rparr>]"

definition nginx_conf :: str where
  "nginx_conf = concat (map (\<lambda>l. l @ [newline])
     [''pid /tmp/nginx.pid;'', ''worker_processes 1;'', ''events { worker_connections 1024; }'', ''http {'',
      ''    client_body_temp_path /tmp/client_body;'', ''    proxy_temp_path /tmp/proxy;'',
      ''    fastcgi_temp_path /tmp/fastcgi;'', ''    uwsgi_temp_path /tmp/uwsgi;'', ''    scgi_temp_path /tmp/scgi;'',
      ''    server {'', ''        listen 9443 ssl;'', ''        ssl_certificate /etc/tls/tls.crt;'',
      ''        ssl_certificate_key /etc/tls/tls.key;'', ''        location / {'',
      ''            proxy_pass http://localhost:8080;'', ''        }'', ''    }'', ''}''])"

definition controller_ports :: "ServicePort list" where
  "controller_ports =
     [\<lparr>spt_name = ''grpc'', spt_port = 9090, spt_target_port = None, spt_protocol = ''TCP''\<rparr>,
      \<lparr>spt_name = ''http'', spt_port = 8080, spt_target_port = None, spt_protocol = ''TCP''\<rparr>,
      \<lparr>spt_name = ''https'', spt_port = 9443, spt_target_port = Some 9443, spt_protocol = ''TCP''\<rparr>]"

definition namespace_named :: "str \<Rightarrow> NetworkPolicyPeer" where
  "namespace_named name = NamespacePeer [(''kubernetes.io/metadata.name'', name)]"

definition ingress_policy :: NetworkPolicySpec where
  "ingress_policy =
     \<lparr>nps_pod_selector = controller_selector, nps_policy_types = [''Ingress''],
      nps_ingress =
        [\<lparr>igr_from = [PodPeer [(''app.kubernetes.io/name'', ''keck-agent'')]], igr_ports = [(8080, ''TCP'')]\<rparr>,
         \<lparr>igr_from = [namespace_named ''openshift-monitoring'', namespace_named ''openshift-user-workload-monitoring''],
          igr_ports = [(8080, ''TCP'')]\<rparr>,
         \<lparr>igr_from = [namespace_named ''openshift-console'',
                      PodPeer [(''app.kubernetes.io/name'', ''keck-power-management'')]],
          igr_ports = [(9443, ''TCP'')]\<rparr>]\<rparr>"

definition monitor_spec :: json where
  "monitor_spec =
     JObj [(''selector'', JObj [(''matchLabels'', JObj (map (\<lambda>(k, v). (k, JStr v)) controller_selector))]),
           (''endpoints'', JArr [JObj [(''port'', JStr ''http''), (''path'', JStr ''/metrics''), (''interval'', JStr ''30s'')]])]"

subsection \<open>Bringing an object into the cluster\<close>

definition and_then ::
  "kube_error option \<times> 'w \<Rightarrow> ('w \<Rightarrow> kube_error option \<times> 'w) \<Rightarrow> kube_error option \<times> 'w" where
  "and_then r next = (case r of (Some e, w) \<Rightarrow> (Some e, w) | (None, w) \<Rightarrow> next w)"

definition update_object :: "'w kube \<Rightarrow> kube_object \<Rightarrow> 'w \<Rightarrow> kube_error option \<times> 'w" where
  "update_object kb obj w = (case kb_update kb obj w of (Inl e, w') \<Rightarrow> (Some e, w') | (Inr _, w') \<Rightarrow> (None, w'))"

text \<open>
  The common shape of the \<open>ensure\<close> functions: create the object if the cluster does not have
  it, and otherwise change what is there, where the function does so.
\<close>

definition ensure ::
  "'w kube \<Rightarrow> kube_object \<Rightarrow> (kube_object \<Rightarrow> kube_object) option \<Rightarrow> 'w \<Rightarrow> kube_error option \<times> 'w" where
  "ensure kb obj change w =
     (case kb_get kb (key_of obj) w of
        Inl (NotFound _) \<Rightarrow> kb_create kb obj w
      | Inl e \<Rightarrow> (Some e, w)
      | Inr existing \<Rightarrow> (case change of None \<Rightarrow> (None, w) | Some f \<Rightarrow> update_object kb (f existing) w))"

fun label_namespace :: "kube_object \<Rightarrow> kube_object" where
  "label_namespace (NamespaceObj m) =
     NamespaceObj (m\<lparr>meta_labels := AList.update ''app.kubernetes.io/part-of'' ''keck''
                                  (AList.update ''app.kubernetes.io/managed-by'' ''keck-operator'' (meta_labels m))\<rparr>)"
| "label_namespace obj = obj"

fun replace_rules :: "kube_object \<Rightarrow> kube_object" where
  "replace_rules (ClusterRoleObj m _) = ClusterRoleObj (m\<lparr>meta_labels := commonLabels\<rparr>) agent_rules"
| "replace_rules obj = obj"

fun replace_subjects :: "kube_object \<Rightarrow> kube_object" where
  "replace_subjects (ClusterRoleBindingObj m ref _) =
     ClusterRoleBindingObj (m\<lparr>meta_labels := commonLabels\<rparr>) ref agent_subjects"
| "replace_subjects obj = obj"

fun replace_daemonset :: "DaemonSetSpec \<Rightarrow> kube_object \<Rightarrow> kube_object" where
  "replace_daemonset spec (DaemonSetObj m _ ready desired) = DaemonSetObj m spec ready desired"
| "replace_daemonset spec obj = obj"

fun replace_deployment :: "DeploymentSpec \<Rightarrow> kube_object \<Rightarrow> kube_object" where
  "replace_deployment spec (DeploymentObj m _ ready) = DeploymentObj m spec ready"
| "replace_deployment spec obj = obj"

fun replace_ports :: "kube_object \<Rightarrow> kube_object" where
  "replace_ports (ServiceObj m selector _) =
     ServiceObj (m\<lparr>meta_annotations := AList.update ''service.beta.openshift.io/serving-cert-secret-name''
                      ''keck-controller-tls'' (meta_annotations m)\<rparr>) selector controller_ports"
| "replace_ports obj = obj"

fun replace_budget :: "kube_object \<Rightarrow> kube_object" where
  "replace_budget (PodDisruptionBudgetObj m _ _) = PodDisruptionBudgetObj m 1 controller_selector"
| "replace_budget obj = obj"

fun replace_policy :: "kube_object \<Rightarrow> kube_object" where
  "replace_policy (NetworkPolicyObj m _) = NetworkPolicyObj m ingress_policy"
| "replace_policy obj = obj"

definition ensureNamespace :: "'w kube \<Rightarrow> 'w \<Rightarrow> kube_error option \<times> 'w" where
  "ensureNamespace kb = ensure kb (NamespaceObj (object_meta keckNamespace [] commonLabels)) (Some label_namespace)"

definition ensureServiceAccount :: "'w kube \<Rightarrow> 'w \<Rightarrow> kube_error option \<times> 'w" where
  "ensureServiceAccount kb w =
     and_then (ensure kb (ServiceAccountObj (object_meta ''keck-agent'' keckNamespace commonLabels)) None w)
       (ensure kb (ServiceAccountObj (object_meta ''keck-controller'' keckNamespace commonLabels)) None)"

text \<open>\<open>hex.EncodeToString\<close>: two lower-case digits per byte.\<close>

definition hex_digit :: "nat \<Rightarrow> char" where
  "hex_digit n = char_of (if n < 10 then 48 + n else 87 + n)"

definition hex_encode :: "u8 list \<Rightarrow> str" where
  "hex_encode bytes = concat (map (\<lambda>b. [hex_digit (unat b div 16), hex_digit (unat b mod 16)]) bytes)"

text \<open>\<open>random\<close> is what the random generator gives: 32 bytes or an error.\<close>

definition ensureAPIKeySecret :: "'w kube \<Rightarrow> str + u8 list \<Rightarrow> 'w \<Rightarrow> kube_error option \<times> 'w" where
  "ensureAPIKeySecret kb random w =
     (case kb_get kb (ObjectKey KSecret keckNamespace ''keck-api-key'') w of
        Inr _ \<Rightarrow> (None, w)
      | Inl (OtherError m) \<Rightarrow> (Some (OtherError m), w)
      | Inl (NotFound _) \<Rightarrow>
          (case random of
             Inl e \<Rightarrow> (Some (OtherError (''generating API key: '' @ e)), w)
           | Inr bytes \<Rightarrow>
               kb_create kb (SecretObj (object_meta ''keck-api-key'' keckNamespace commonLabels) ''Opaque''
                               [(''api-key'', hex_encode bytes)]) w))"

text \<open>An error other than \<open>NotFound\<close> when the role is read goes unnoticed.\<close>

definition ensure_cluster_role :: "'w kube \<Rightarrow> 'w \<Rightarrow> kube_error option \<times> 'w" where
  "ensure_cluster_role kb w =
     (let role = ClusterRoleObj (object_meta ''keck-agent'' [] commonLabels) agent_rules
      in case kb_get kb (key_of role) w of
           Inl (NotFound _) \<Rightarrow> kb_create kb role w
         | Inl (OtherError _) \<Rightarrow> (None, w)
         | Inr existing \<Rightarrow> update_object kb (replace_rules existing) w)"

definition ensureRBAC :: "'w kube \<Rightarrow> 'w \<Rightarrow> kube_error option \<times> 'w" where
  "ensureRBAC kb w =
     and_then (ensure_cluster_role kb w)
       (ensure kb (ClusterRoleBindingObj (object_meta ''keck-agent'' [] commonLabels)
          \<lparr>rref_api_group = ''rbac.authorization.k8s.io'', rref_kind = ''ClusterRole'', rref_name = ''keck-agent''\<rparr>
          agent_subjects) (Some replace_subjects))"

definition ensureAgentDaemonSet :: "'w kube \<Rightarrow> KeckCluster \<Rightarrow> 'w \<Rightarrow> kube_error option \<times> 'w" where
  "ensureAgentDaemonSet kb keck =
     ensure kb (DaemonSetObj (object_meta ''keck-agent'' keckNamespace agentLabels) (agent_spec keck) 0 0)
       (Some (replace_daemonset (agent_spec keck)))"

definition ensureNginxConfig :: "'w kube \<Rightarrow> 'w \<Rightarrow> kube_error option \<times> 'w" where
  "ensureNginxConfig kb =
     ensure kb (ConfigMapObj (object_meta ''keck-controller-nginx'' keckNamespace commonLabels)
       [(''nginx.conf'', nginx_conf)]) None"

definition ensureControllerDeployment :: "'w kube \<Rightarrow> KeckCluster \<Rightarrow> 'w \<Rightarrow> kube_error option \<times> 'w" where
  "ensureControllerDeployment kb keck =
     ensure kb (DeploymentObj (object_meta ''keck-controller'' keckNamespace controllerLabels) (controller_spec keck) 0)
       (Some (replace_deployment (controller_spec keck)))"

definition ensureControllerService :: "'w kube \<Rightarrow> 'w \<Rightarrow> kube_error option \<times> 'w" where
  "ensureControllerService kb =
     ensure kb (ServiceObj ((object_meta ''keck-controller'' keckNamespace controllerLabels)
         \<lparr>meta_annotations := [(''service.beta.openshift.io/serving-cert-secret-name'', ''keck-controller-tls'')]\<rparr>)
       controller_selector controller_ports) (Some replace_ports)"

definition ensureServiceMonitor :: "'w kube \<Rightarrow> 'w \<Rightarrow> kube_error option \<times> 'w" where
  "ensureServiceMonitor kb =
     ensure kb (ServiceMonitorObj (object_meta ''keck-controller'' keckNamespace commonLabels) monitor_spec) None"

definition ensureNetworkPolicy :: "'w kube \<Rightarrow> 'w \<Rightarrow> kube_error option \<times> 'w" where
  "ensureNetworkPolicy kb =
     ensure kb (NetworkPolicyObj (object_meta ''keck-controller-ingress'' keckNamespace commonLabels) ingress_policy)
       (Some replace_policy)"

definition ensurePDB :: "'w kube \<Rightarrow> 'w \<Rightarrow> kube_error option \<times> 'w" where
  "ensurePDB kb =
     ensure kb (PodDisruptionBudgetObj (object_meta ''keck-controller'' keckNamespace commonLabels) 1 controller_selector)
       (Some replace_budget)"

subsection \<open>Clean-up\<close>

definition cleanup_targets :: "(str \<times> object_key) list" where
  "cleanup_targets =
     [(''Service'', (ObjectKey KService keckNamespace ''keck-controller'')),
      (''Deployment'', (ObjectKey KDeployment keckNamespace ''keck-controller'')),
      (''DaemonSet'', (ObjectKey KDaemonSet keckNamespace ''keck-agent'')),
      (''Secret'', (ObjectKey KSecret keckNamespace ''keck-api-key'')),
      (''ClusterRoleBinding'', (ObjectKey KClusterRoleBinding [] ''keck-agent'')),
      (''ClusterRole'', (ObjectKey KClusterRole [] ''keck-agent'')),
      (''ServiceAccount'', (ObjectKey KServiceAccount keckNamespace ''keck-agent'')),
      (''Namespace'', (ObjectKey KNamespace [] keckNamespace))]"

text \<open>An object that cannot be read is passed over, whatever the reason.\<close>

fun delete_targets :: "'w kube \<Rightarrow> (str \<times> object_key) list \<Rightarrow> 'w \<Rightarrow> kube_error option \<times> 'w" where
  "delete_targets kb [] w = (None, w)"
| "delete_targets kb ((what, key) # rest) w =
     (case kb_get kb key w of
        Inl _ \<Rightarrow> delete_targets kb rest w
      | Inr obj \<Rightarrow>
          (case kb_delete kb obj w of
             (Some (OtherError m), w') \<Rightarrow> (Some (wrap (''deleting '' @ what @ '': '') (OtherError m)), w')
           | (_, w') \<Rightarrow> delete_targets kb rest w'))"

definition cleanupResources :: "'w kube \<Rightarrow> 'w \<Rightarrow> kube_error option \<times> 'w" where
  "cleanupResources kb = delete_targets kb cleanup_targets"

subsection \<open>Reconciliation of a KeckCluster\<close>

text \<open>A response that is not of the kind asked for cannot be decoded.\<close>

definition decode_keck :: "kube_error + kube_object \<Rightarrow> kube_error + KeckCluster" where
  "decode_keck r =
     (case r of Inl e \<Rightarrow> Inl e | Inr (KeckClusterObj keck) \<Rightarrow> Inr keck | Inr _ \<Rightarrow> Inl (OtherError ''unexpected kind''))"

definition finalize_keck :: "'w kube \<Rightarrow> KeckCluster \<Rightarrow> 'w \<Rightarrow> kube_error option \<times> 'w" where
  "finalize_keck kb keck w =
     (if finalizerName \<in> set (meta_finalizers (kc_meta keck))
      then case cleanupResources kb w of
             (Some e, w') \<Rightarrow> (Some (wrap ''cleanup failed: '' e), w')
           | (None, w') \<Rightarrow>
               update_object kb (KeckClusterObj (keck\<lparr>kc_meta := (kc_meta keck)
                 \<lparr>meta_finalizers := removeAll finalizerName (meta_finalizers (kc_meta keck))\<rparr>\<rparr>)) w'
      else (None, w))"

definition add_finalizer :: "'w kube \<Rightarrow> KeckCluster \<Rightarrow> 'w \<Rightarrow> (kube_error + KeckCluster) \<times> 'w" where
  "add_finalizer kb keck w =
     (if finalizerName \<in> set (meta_finalizers (kc_meta keck)) then (Inr keck, w)
      else let (r, w') = kb_update kb (KeckClusterObj (keck\<lparr>kc_meta := (kc_meta keck)
                           \<lparr>meta_finalizers := meta_finalizers (kc_meta keck) @ [finalizerName]\<rparr>\<rparr>)) w
           in (decode_keck r, w'))"

definition mark_installing :: "'w kube \<Rightarrow> KeckCluster \<Rightarrow> 'w \<Rightarrow> KeckCluster \<times> 'w" where
  "mark_installing kb keck w =
     (if kst_phase (kc_status keck) = []
      then let keck' = keck\<lparr>kc_status := (kc_status keck)\<lparr>kst_phase := ''Installing''\<rparr>\<rparr>;
               (r, w') = kb_update_status kb (KeckClusterObj keck') w
           in (case decode_keck r of Inl _ \<Rightarrow> keck' | Inr stored \<Rightarrow> stored, w')
      else (keck, w))"

text \<open>
  The steps that must succeed, in order: the prefix of their error, the text of the warning
  event for those that have one, and what they do.
\<close>

definition deploy_steps ::
  "'w kube \<Rightarrow> str + u8 list \<Rightarrow> KeckCluster \<Rightarrow> (str \<times> str option \<times> ('w \<Rightarrow> kube_error option \<times> 'w)) list" where
  "deploy_steps kb random keck =
     [(''ensuring namespace: '', None, ensureNamespace kb),
      (''ensuring service account: '', None, ensureServiceAccount kb),
      (''ensuring API key secret: '', None, ensureAPIKeySecret kb random),
      (''ensuring RBAC: '', None, ensureRBAC kb),
      (''ensuring agent DaemonSet: '', Some ''Failed to ensure agent DaemonSet: '', ensureAgentDaemonSet kb keck),
      (''ensuring nginx config: '', Some ''Failed to ensure nginx config: '', ensureNginxConfig kb),
      (''ensuring controller Deployment: '', Some ''Failed to ensure controller Deployment: '',
       ensureControllerDeployment kb keck),
      (''ensuring controller Service: '', Some ''Failed to ensure controller Service: '', ensureControllerService kb)]"

type_synonym kube_event = "str \<times> str \<times> str"

fun run_steps ::
  "(str \<times> str option \<times> ('w \<Rightarrow> kube_error option \<times> 'w)) list \<Rightarrow> 'w \<Rightarrow> kube_error option \<times> 'w \<times> kube_event list" where
  "run_steps [] w = (None, w, [])"
| "run_steps ((pre, warning, act) # rest) w =
     (case act w of
        (None, w') \<Rightarrow> run_steps rest w'
      | (Some e, w') \<Rightarrow>
          (Some (wrap pre e), w',
           case warning of None \<Rightarrow> [] | Some t \<Rightarrow> [(''Warning'', ''ReconcileFailed'', t @ error_text e)]))"

definition show_int :: "int \<Rightarrow> str" where
  "show_int i = (if i < 0 then ''-'' @ show_nat (nat (- i)) else show_nat (nat i))"

definition observed_status :: "'w kube \<Rightarrow> 'w \<Rightarrow> KeckClusterStatus \<Rightarrow> KeckClusterStatus" where
  "observed_status kb w st =
     (let st1 = (case kb_get kb (ObjectKey KDaemonSet keckNamespace ''keck-agent'') w of
                   Inr (DaemonSetObj _ _ ready desired) \<Rightarrow> st\<lparr>kst_agent_ready := ready, kst_agent_desired := desired\<rparr>
                 | _ \<Rightarrow> st);
          st2 = (case kb_get kb (ObjectKey KDeployment keckNamespace ''keck-controller'') w of
                   Inr (DeploymentObj _ _ ready) \<Rightarrow> st1\<lparr>kst_controller_ready := (0 < ready)\<rparr>
                 | _ \<Rightarrow> st1)
      in if 0 < kst_agent_ready st2 \<and> kst_controller_ready st2
         then st2\<lparr>kst_phase := ''Running'',
                  kst_message := show_int (kst_agent_ready st2) @ ''/'' @ show_int (kst_agent_desired st2) @
                                 '' agents ready, controller running''\<rparr>
         else st2\<lparr>kst_phase := ''Installing'', kst_message := ''Waiting for components to become ready''\<rparr>)"

definition updateStatus :: "'w kube \<Rightarrow> instant \<Rightarrow> KeckCluster \<Rightarrow> 'w \<Rightarrow> kube_error option \<times> 'w" where
  "updateStatus kb now keck w =
     (let st = (observed_status kb w (kc_status keck))\<lparr>kst_last_updated := now\<rparr>
      in case kb_update_status kb (KeckClusterObj (keck\<lparr>kc_status := st\<rparr>)) w of
           (Inl e, w') \<Rightarrow> (Some e, w') | (Inr _, w') \<Rightarrow> (None, w'))"

text \<open>The steps after the Service may fail without an effect on the outcome.\<close>

definition best_effort :: "'w kube \<Rightarrow> instant \<Rightarrow> KeckCluster \<Rightarrow> 'w \<Rightarrow> 'w" where
  "best_effort kb now keck w =
     (let w1 = snd (ensureServiceMonitor kb w); w2 = snd (ensureNetworkPolicy kb w1); w3 = snd (ensurePDB kb w2)
      in snd (updateStatus kb now keck w3))"

text \<open>\<open>has_recorder\<close> says whether the reconciler has a recorder of events.\<close>

definition Reconcile ::
  "'w kube \<Rightarrow> bool \<Rightarrow> str + u8 list \<Rightarrow> instant \<Rightarrow> str \<Rightarrow> 'w \<Rightarrow> kube_error option \<times> 'w \<times> kube_event list" where
  "Reconcile kb has_recorder random now name w =
     (case decode_keck (kb_get kb (ObjectKey KKeckCluster [] name) w) of
        Inl (NotFound _) \<Rightarrow> (None, w, [])
      | Inl e \<Rightarrow> (Some e, w, [])
      | Inr keck \<Rightarrow>
          if meta_deletion_timestamp (kc_meta keck) \<noteq> None
          then let (e, w') = finalize_keck kb keck w in (e, w', [])
          else (case add_finalizer kb keck w of
                  (Inl e, w1) \<Rightarrow> (Some e, w1, [])
                | (Inr keck1, w1) \<Rightarrow>
                    let (keck2, w2) = mark_installing kb keck1 w1
                    in (case run_steps (deploy_steps kb random keck2) w2 of
                          (Some e, w3, events) \<Rightarrow> (Some e, w3, if has_recorder then events else [])
                        | (None, w3, _) \<Rightarrow>
                            (None, best_effort kb now keck2 w3,
                             if has_recorder
                             then [(''Normal'', ''Reconciled'', ''Successfully reconciled all Keck resources'')]
                             else []))))"

text \<open>
  A change of an object in the operator's namespace that the operator manages reconciles all
  clusters; \<open>clusters\<close> are the names a list request gives, if it succeeds.
\<close>

definition mapToKeckCluster :: "kube_object \<Rightarrow> str list option \<Rightarrow> str list" where
  "mapToKeckCluster obj clusters =
     (if meta_namespace (meta_of obj) \<noteq> keckNamespace then []
      else if map_of (meta_labels (meta_of obj)) ''app.kubernetes.io/managed-by'' \<noteq> Some ''keck-operator'' then []
      else (case clusters of None \<Rightarrow> [] | Some names \<Rightarrow> names))"

subsection \<open>Reconciliation of a PowerBudget\<close>

text \<open>Go prints infinities with a sign and a number with \<open>%.0f\<close> rounded half to even.\<close>

definition usage_percent :: "f64 \<Rightarrow> f64 \<Rightarrow> str" where
  "usage_percent current max_watts =
     (let x = (current / max_watts) * f64_lit 100
      in (case x of PInf \<Rightarrow> ''+Inf'' | NInf \<Rightarrow> ''-Inf'' | _ \<Rightarrow> show_f64_fixed 0 x) @ ''%'')"

definition budget_status :: "instant \<Rightarrow> PowerBudget \<Rightarrow> PowerBudgetStatus" where
  "budget_status now budget =
     (let st = (pwb_status budget)\<lparr>pbt_last_updated := now\<rparr>; max_watts = pbs_max_watts (pwb_spec budget);
          current = pbt_current_watts st
      in if max_watts < current
         then st\<lparr>pbt_exceeded := True, pbt_usage_percent := usage_percent current max_watts\<rparr>
         else let st' = st\<lparr>pbt_exceeded := False\<rparr>
              in if f64_lit 0 < max_watts then st'\<lparr>pbt_usage_percent := usage_percent current max_watts\<rparr> else st')"

definition reconcile_budget :: "'w kube \<Rightarrow> instant \<Rightarrow> str \<Rightarrow> str \<Rightarrow> 'w \<Rightarrow> kube_error option \<times> 'w" where
  "reconcile_budget kb now namespace name w =
     (case kb_get kb (ObjectKey KPowerBudget namespace name) w of
        Inl (NotFound _) \<Rightarrow> (None, w)
      | Inl e \<Rightarrow> (Some e, w)
      | Inr (PowerBudgetObj budget) \<Rightarrow>
          (case kb_update_status kb (PowerBudgetObj (budget\<lparr>pwb_status := budget_status now budget\<rparr>)) w of
             (Inl e, w') \<Rightarrow> (Some e, w') | (Inr _, w') \<Rightarrow> (None, w'))
      | Inr _ \<Rightarrow> (Some (OtherError ''unexpected kind''), w))"

end
