(* ===== verification/Operator_Correct.thy ===== *)
theory Operator_Correct
  imports Operator_Facts
begin

text \<open>
  The operator's guarantees for whole reconciliations: whatever requests fail, no workload is
  left without what it needs and the API key never changes; a server that answers brings the
  deployment about; and a deletion cleans up.
\<close>

lemma agent_spec_cong: "kc_spec k = kc_spec k' \<Longrightarrow> agent_spec k = agent_spec k'"
  by (simp add: agent_spec_def agent_container_def agent_env_def agentTolerations_def agentResources_def agentImage_def
      imageRepo_def imageTag_def)

lemma side_keeps: "grows stored side_keys {} r w \<Longrightarrow> key_kind k \<notin> {KKeckCluster, KServiceMonitor, KNetworkPolicy, KPodDisruptionBudget} \<Longrightarrow>
    stored (snd r) k = stored w k"
  by (auto intro!: grows_keeps simp: side_keys_def)

lemma side_backed:
  assumes "grows stored side_keys {} (e, w') w" and "workloads_backed (present stored w)"
  shows "workloads_backed (present stored w')"
proof (rule workloads_backed_kept [OF assms(2)])
  show "present stored w \<subseteq> present stored w'" "present stored w' \<subseteq> present stored w \<union> side_keys"
    using assms(1) others_kept_present [of stored side_keys w w'] by (simp_all add: grows_def)
qed (simp_all add: side_keys_def object_keys)

text \<open>A reconciliation of a cluster that is not being deleted: the phases before, during and after the steps.\<close>

lemma reconcile_phases:
  assumes laws: "kube_laws kb stored dflt" and keck: "kb_get kb (ObjectKey KKeckCluster [] name) w = Inr (KeckClusterObj keck)"
    and live: "meta_deletion_timestamp (kc_meta keck) = None"
    and run: "Reconcile kb has_recorder random now name w = (e, w', evs)"
  shows "(\<exists>x. e = Some x \<and> grows stored side_keys {} (e, w') w) \<or>
    (\<exists>keck2 w2 w3 evs2. grows stored side_keys {} (None, w2) w \<and> kc_spec keck2 = kc_spec keck \<and>
       run_steps (deploy_steps kb random keck2) w2 = (e, w3, evs2) \<and> grows stored side_keys {} (e, w') w3)"
proof -
  obtain r1 w1 where a: "add_finalizer kb keck w = (r1, w1)" by (cases "add_finalizer kb keck w")
  note g1 = add_finalizer_grows [OF laws a]
  have d: "decode_keck (kb_get kb (ObjectKey KKeckCluster [] name) w) = Inr keck" by (simp add: decode_keck_Inr keck)
  show ?thesis
  proof (cases r1)
    case (Inl x)
    with run d live a have "e = Some x" "w' = w1" by (simp_all add: Reconcile_def)
    with g1 show ?thesis by blast
  next
    case (Inr keck1)
    obtain keck2 w2 where m: "mark_installing kb keck1 w1 = (keck2, w2)" by (cases "mark_installing kb keck1 w1")
    obtain e3 w3 evs3 where s: "run_steps (deploy_steps kb random keck2) w2 = (e3, w3, evs3)"
      by (cases "run_steps (deploy_steps kb random keck2) w2")
    have pre: "grows stored side_keys {} (None, w2) w" by (rule grows_chain [OF g1 mark_installing_facts(1) [OF laws m]])
    have spec: "kc_spec keck2 = kc_spec keck"
      using add_finalizer_facts [OF laws, of keck w keck1 w1] a Inr mark_installing_facts(2) [OF laws m] by simp
    have "e = e3 \<and> grows stored side_keys {} (e, w') w3"
      using run d live a Inr m s best_effort_grows [OF laws, of _ now keck2 w3]
      by (cases e3) (auto simp: Reconcile_def grows_def)
    with pre spec s show ?thesis by blast
  qed
qed

text \<open>
  One reconciliation, whichever requests fail and wherever it stops; on success the DaemonSet
  carries the specification that follows from the \<open>KeckCluster\<close>.
\<close>

lemma reconcile_safe:
  assumes "kube_laws kb stored dflt" and "kb_get kb (ObjectKey KKeckCluster [] name) w = Inr (KeckClusterObj keck)"
    and "meta_deletion_timestamp (kc_meta keck) = None" and "workloads_backed (present stored w)"
    and "Reconcile kb has_recorder random now name w = (e, w', evs)"
  shows "workloads_backed (present stored w') \<and> present stored w \<subseteq> present stored w' \<and>
    (stored w secret_key = None \<or> stored w' secret_key = stored w secret_key) \<and>
    (e = None \<longrightarrow> (\<exists>m r d. stored w' daemonset_key = Some (dflt (DaemonSetObj m (agent_spec keck) r d))))"
proof -
  have sec: "key_kind secret_key = KSecret" "key_kind daemonset_key = KDaemonSet" by (simp_all add: object_keys)
  from reconcile_phases [OF assms(1-3,5)] show ?thesis
  proof (elim disjE exE conjE)
    fix x assume "e = Some x" and g: "grows stored side_keys {} (e, w') w"
    then show ?thesis using side_backed [OF g assms(4)] side_keeps [OF g, of secret_key] sec by (simp add: grows_def)
  next
    fix keck2 w2 w3 evs2
    assume pre: "grows stored side_keys {} (None, w2) w" and spec: "kc_spec keck2 = kc_spec keck"
      and steps: "run_steps (deploy_steps kb random keck2) w2 = (e, w3, evs2)" and post: "grows stored side_keys {} (e, w') w3"
    note backed = deploy_backed [OF assms(1) steps side_backed [OF pre assms(4)]]
    have mono: "present stored w \<subseteq> present stored w2" "present stored w3 \<subseteq> present stored w'"
      using pre post by (simp_all add: grows_def)
    have key: "stored w secret_key = None \<or> stored w' secret_key = stored w secret_key"
      using side_keeps [OF pre, of secret_key] side_keeps [OF post, of secret_key] sec
        deploy_keeps_secret [OF assms(1) steps] by (cases "stored w secret_key") simp_all
    have "\<exists>m r d. stored w' daemonset_key = Some (dflt (DaemonSetObj m (agent_spec keck) r d))" if "e = None"
      using deploy_stores_daemonset [OF assms(1), of random keck2 w2 w3 evs2] steps that agent_spec_cong [OF spec]
        side_keeps [OF post, of daemonset_key] sec by simp
    with side_backed [OF post backed(1)] backed(2) mono key show ?thesis by blast
  qed
qed

subsection \<open>Everything the operator does\<close>

text \<open>
  The steps of the operator while no \<open>KeckCluster\<close> is being deleted, with what others do to the
  objects in between: they may change them, but neither add or remove any nor touch the key.
\<close>

inductive operator_step :: "'w kube \<Rightarrow> ('w \<Rightarrow> object_key \<Rightarrow> kube_object option) \<Rightarrow> 'w \<Rightarrow> 'w \<Rightarrow> bool" for kb stored where
  ClusterStep: "kb_get kb (ObjectKey KKeckCluster [] name) w = Inr (KeckClusterObj keck) \<Longrightarrow>
    meta_deletion_timestamp (kc_meta keck) = None \<Longrightarrow> Reconcile kb has_recorder random now name w = (e, w', evs) \<Longrightarrow>
    operator_step kb stored w w'"
| UnreadStep: "isl (decode_keck (kb_get kb (ObjectKey KKeckCluster [] name) w)) \<Longrightarrow>
    Reconcile kb has_recorder random now name w = (e, w', evs) \<Longrightarrow> operator_step kb stored w w'"
| BudgetStep: "reconcile_budget kb now namespace name w = (e, w') \<Longrightarrow> operator_step kb stored w w'"
| OthersStep: "present stored w' = present stored w \<Longrightarrow> stored w' secret_key = stored w secret_key \<Longrightarrow> operator_step kb stored w w'"

inductive operator_run :: "'w kube \<Rightarrow> ('w \<Rightarrow> object_key \<Rightarrow> kube_object option) \<Rightarrow> 'w \<Rightarrow> 'w \<Rightarrow> bool" for kb stored where
  RunNone: "operator_run kb stored w w"
| RunStep: "operator_run kb stored w w1 \<Longrightarrow> operator_step kb stored w1 w' \<Longrightarrow> operator_run kb stored w w'"

lemma budget_keeps:
  assumes laws: "kube_laws kb stored dflt" and run: "reconcile_budget kb now namespace name w = (e, w')"
  shows "present stored w' = present stored w" and "stored w' secret_key = stored w secret_key"
proof -
  have "w' = w \<or> (\<exists>b r. kb_update_status kb (PowerBudgetObj b) w = (r, w'))"
    using run by (auto simp: reconcile_budget_def split: sum.splits kube_error.splits kube_object.splits prod.splits)
  moreover have "present stored w' = present stored w \<and> stored w' secret_key = stored w secret_key"
    if "kb_update_status kb (PowerBudgetObj b) w = (r, w')" for b r
  proof -
    have "status_faithful kb stored" using laws by (simp add: kube_laws_def)
    note st = this [unfolded status_faithful_def, rule_format, OF that]
    have "stored w' k = None \<longleftrightarrow> stored w k = None" for k
      using st by (cases "k = key_of (PowerBudgetObj b)") (simp_all add: others_kept_def write_faithful_def)
    moreover have "secret_key \<noteq> key_of (PowerBudgetObj b)" by (simp add: secret_key_def key_of_def)
    ultimately show ?thesis using st by (simp add: present_def others_kept_def)
  qed
  ultimately show "present stored w' = present stored w" and "stored w' secret_key = stored w secret_key" by auto
qed

lemma step_safe:
  assumes laws: "kube_laws kb stored dflt" and step: "operator_step kb stored w w'" and ok: "workloads_backed (present stored w)"
  shows "workloads_backed (present stored w') \<and> present stored w \<subseteq> present stored w' \<and>
    (stored w secret_key = None \<or> stored w' secret_key = stored w secret_key)"
  using step
proof cases
  case (ClusterStep name keck has_recorder random now e evs)
  then show ?thesis using reconcile_safe [OF laws ClusterStep(1,2) ok ClusterStep(3)] by blast
next
  case (UnreadStep name has_recorder random now e evs)
  then have "w' = w"
    by (auto simp: Reconcile_def split: sum.splits kube_error.splits)
  with ok show ?thesis by simp
next
  case (BudgetStep now namespace name e)
  with budget_keeps [OF laws] ok show ?thesis by simp
qed (use ok in simp)


subsection \<open>A server in memory\<close>

text \<open>An API server without failures and defaults, on which the hypotheses above hold.\<close>

definition map_stored :: "(object_key \<Rightarrow> kube_object option) \<Rightarrow> object_key \<Rightarrow> kube_object option" where
  "map_stored w k = (case w k of Some obj \<Rightarrow> if key_of obj = k then Some obj else None | None \<Rightarrow> None)"

definition map_put :: "kube_object \<Rightarrow> (object_key \<Rightarrow> kube_object option) \<Rightarrow> (kube_error + kube_object) \<times> (object_key \<Rightarrow> kube_object option)" where
  "map_put obj w = (if map_stored w (key_of obj) = None then (Inl (NotFound ''not found''), w) else (Inr obj, w(key_of obj \<mapsto> obj)))"

definition map_kube :: "(object_key \<Rightarrow> kube_object option) kube" where
  "map_kube =
     \<lparr>kb_get = \<lambda>k w. case map_stored w k of None \<Rightarrow> Inl (NotFound ''not found'') | Some obj \<Rightarrow> Inr obj,
      kb_create = \<lambda>obj w. if map_stored w (key_of obj) = None then (None, w(key_of obj \<mapsto> obj))
                          else (Some (OtherError ''already exists''), w),
      kb_update = map_put, kb_update_status = map_put,
      kb_delete = \<lambda>obj w. if map_stored w (key_of obj) = None then (Some (NotFound ''not found''), w)
        else (None, \<lambda>k. if k = key_of obj \<or> kind_of obj = KNamespace \<and> key_namespace k = meta_name (meta_of obj)
                         then None else w k)\<rparr>"

lemma map_stored_Some: "map_stored w k = Some obj \<Longrightarrow> key_of obj = k"
  by (auto simp: map_stored_def split: option.splits if_splits)

lemma map_stored_put: "map_stored (w(key_of obj \<mapsto> obj)) k = (if k = key_of obj then Some obj else map_stored w k)"
  by (simp add: map_stored_def)

lemma map_kube_laws: "kube_laws map_kube map_stored (\<lambda>obj. obj)"
proof -
  have "reads_faithful map_kube map_stored"
    by (auto simp: reads_faithful_def map_kube_def map_stored_Some split: option.splits)
  moreover have "creates_faithful map_kube map_stored (\<lambda>obj. obj)"
    by (auto simp: creates_faithful_def map_kube_def others_kept_def map_stored_put)
  moreover have "updates_faithful map_kube map_stored (\<lambda>obj. obj)"
    by (auto simp: updates_faithful_def map_kube_def map_put_def others_kept_def write_faithful_def map_stored_put)
  moreover have "status_faithful map_kube map_stored"
    by (auto simp: status_faithful_def map_kube_def map_put_def others_kept_def write_faithful_def map_stored_put)
  moreover have "dflt_faithful (\<lambda>obj. obj)" by (simp add: dflt_faithful_def)
  moreover have "deletes_faithful map_kube map_stored"
    by (auto simp: deletes_faithful_def map_kube_def map_stored_def split: if_splits)
  ultimately show ?thesis by (simp add: kube_laws_def)
qed

lemma map_kube_answers: "kube_answers map_kube map_stored"
  by (auto simp: kube_answers_def map_kube_def map_put_def split: option.splits)

definition sample_keck :: KeckCluster where
  "sample_keck =
     \<lparr>kc_meta = object_meta ''keck'' [] [],
      kc_spec =
        \<lparr>kcs_agent = \<lparr>asp_default_profile = ''standard'', asp_node_selector = [], asp_tolerations = [],
           asp_resources = no_resources, asp_gpu_enabled = False, asp_captured_labels = [''olm.owner'', ''team/*''],
           asp_redfish = Some \<lparr>rfs_credentials_secret = ''bmc'', rfs_node_bmc_map =
             [\<lparr>bmc_serial = ''ABC1'', bmc_endpoint = ''https://10.0.0.1''\<rparr>,
              \<lparr>bmc_serial = ''DEF2'', bmc_endpoint = ''https://10.0.0.2''\<rparr>]\<rparr>\<rparr>,
         kcs_controller = \<lparr>csp_replicas = 1, csp_resources = no_resources, csp_scheduler_enabled = False,
           csp_carbon_api_endpoint = [], csp_carbon_region = [], csp_energy_cost_per_kwh = ''0.10''\<rparr>,
         kcs_fleet_endpoint = [],
         kcs_image = \<lparr>img_repository = [], img_tag = [], img_pull_policy = ''Always'', img_pull_secrets = []\<rparr>\<rparr>,
      kc_status = \<lparr>kst_phase = [], kst_agent_ready = 0, kst_agent_desired = 0, kst_controller_ready = False,
        kst_last_updated = 0, kst_message = [], kst_conditions = []\<rparr>\<rparr>"

definition sample_objects :: "KeckCluster \<Rightarrow> object_key \<Rightarrow> kube_object option" where
  "sample_objects keck = [ObjectKey KKeckCluster [] ''keck'' \<mapsto> KeckClusterObj keck]"

lemma sample_objects_get:
  assumes "meta_namespace (kc_meta keck) = []" and "meta_name (kc_meta keck) = ''keck''"
  shows "kb_get map_kube (ObjectKey KKeckCluster [] ''keck'') (sample_objects keck) = Inr (KeckClusterObj keck)"
  using assms by (simp add: map_kube_def map_stored_def sample_objects_def key_of_meta)

lemma sample_objects_backed: "workloads_backed (present map_stored (sample_objects keck))"
  by (simp add: workloads_backed_def present_def map_stored_def sample_objects_def object_keys)

lemma sample_keck_meta:
  "meta_namespace (kc_meta sample_keck) = []" "meta_name (kc_meta sample_keck) = ''keck''"
  "meta_deletion_timestamp (kc_meta sample_keck) = None"
  by (simp_all add: sample_keck_def object_meta_def)


subsection \<open>A server that answers\<close>

lemma answers:
  assumes "kube_answers kb stored"
  shows "(\<exists>m. kb_get kb k w = Inl (NotFound m)) \<or> (\<exists>obj. kb_get kb k w = Inr obj)"
    and "stored w (key_of obj) = None \<Longrightarrow>
      meta_namespace (meta_of obj) = [] \<or> stored w (ObjectKey KNamespace [] (meta_namespace (meta_of obj))) \<noteq> None \<Longrightarrow>
      fst (kb_create kb obj w) = None"
    and "stored w (key_of obj) \<noteq> None \<Longrightarrow> \<not> isl (fst (kb_update kb obj w))"
    and "stored w (key_of obj) \<noteq> None \<Longrightarrow> fst (kb_delete kb obj w) = None"
  using assms unfolding kube_answers_def by blast+

lemma ensure_succeeds:
  assumes laws: "kube_laws kb stored dflt" and ans: "kube_answers kb stored" and kept: "pred_option keeps_key change"
    and ns: "meta_namespace (meta_of obj) = [] \<or> meta_namespace (meta_of obj) = keckNamespace \<and> namespace_key \<in> present stored w"
  shows "fst (ensure kb obj change w) = None"
proof (cases "kb_get kb (key_of obj) w")
  case (Inl err)
  with answers(1) [OF ans, of "key_of obj" w] obtain m where "err = NotFound m" by auto
  with Inl read_facts(3) [OF laws] ns show ?thesis
    by (auto simp: ensure_def present_def namespace_key_def intro!: answers(2) [OF ans])
next
  case (Inr existing)
  note ex = read_facts(1,2) [OF laws Inr]
  show ?thesis
  proof (cases change)
    case None
    with Inr show ?thesis by (simp add: ensure_def)
  next
    case (Some f)
    then have "key_of (f existing) = key_of existing" using kept by (simp add: keeps_key_def)
    with answers(3) [OF ans, of w "f existing"] ex Inr Some show ?thesis
      by (auto simp: ensure_def update_object_def split: prod.splits sum.splits)
  qed
qed

lemma run_steps_succeed:
  assumes "\<And>t v act w. (t, v, act) \<in> set steps \<Longrightarrow> Q w \<Longrightarrow> fst (act w) = None \<and> Q (snd (act w))" and "Q w"
  shows "\<exists>w'. run_steps steps w = (None, w', []) \<and> Q w'"
  using assms
proof (induction steps arbitrary: w)
  case (Cons step steps)
  obtain t v act where step: "step = (t, v, act)" by (cases step)
  have "fst (act w) = None" "Q (snd (act w))" using Cons.prems(1) [of t v act w] Cons.prems(2) step by simp_all
  moreover have "\<exists>w'. run_steps steps (snd (act w)) = (None, w', []) \<and> Q w'"
    by (rule Cons.IH) (use Cons.prems(1) calculation(2) in auto)
  ultimately show ?case by (cases "act w") (simp add: step)
qed simp

lemma role_ensured:
  assumes "kube_answers kb stored"
  shows "ensure_cluster_role kb w =
    ensure kb (ClusterRoleObj (object_meta ''keck-agent'' [] commonLabels) agent_rules) (Some replace_rules) w"
  using answers(1) [OF assms, of "key_of (ClusterRoleObj (object_meta ''keck-agent'' [] commonLabels) agent_rules)" w]
  by (auto simp: ensure_cluster_role_def ensure_def Let_def split: sum.split kube_error.split)

lemma and_then_succeeds: "fst r = None \<Longrightarrow> fst (g (snd r)) = None \<Longrightarrow> fst (and_then r g) = None"
  by (cases r) (simp add: and_then_def)

text \<open>Once the namespace exists, every step succeeds and keeps it.\<close>

lemma steps_succeed:
  assumes laws: "kube_laws kb stored dflt" and ans: "kube_answers kb stored"
    and step: "(t, v, act) \<in> set (tl (deploy_steps kb (Inr bytes) keck))" and ns: "namespace_key \<in> present stored w"
  shows "fst (act w) = None \<and> namespace_key \<in> present stored (snd (act w))"
proof -
  note ok = ensure_succeeds [OF laws ans]
  have ns': "namespace_key \<in> present stored (snd (ensure kb obj None w))" for obj
    using grows_ensure [OF laws _ refl, of None obj w] ns by (auto simp: grows_def)
  have "fst (ensureServiceAccount kb w) = None"
    unfolding ensureServiceAccount_def by (rule and_then_succeeds; rule ok) (simp_all add: ns ns')
  moreover have "fst (ensureRBAC kb w) = None"
    unfolding ensureRBAC_def role_ensured [OF ans] by (rule and_then_succeeds; rule ok) simp_all
  moreover have "fst (ensureAPIKeySecret kb (Inr bytes) w) = None"
    using answers(1) [OF ans, of secret_key w] read_facts(3) [OF laws, of secret_key w] ns
    by (auto simp: ensureAPIKeySecret_def secret_key_def [symmetric] intro!: answers(2) [OF ans])
      (simp_all add: key_of_meta secret_key_def present_def namespace_key_def)
  moreover have "fst (ensureAgentDaemonSet kb keck w) = None" "fst (ensureNginxConfig kb w) = None"
    "fst (ensureControllerDeployment kb keck w) = None" "fst (ensureControllerService kb w) = None"
    unfolding ensureAgentDaemonSet_def ensureNginxConfig_def ensureControllerDeployment_def ensureControllerService_def
    by (rule ok; simp add: ns)+
  moreover have "\<exists>K M. grows stored K M (act w) w"
    using step grows_accounts [OF laws] grows_secret(1) [OF laws] grows_rbac [OF laws] grows_workloads [OF laws]
    by (auto simp: deploy_steps_def) blast+
  ultimately show ?thesis using step ns by (auto simp: deploy_steps_def grows_def)
qed

lemma deploy_succeeds:
  assumes laws: "kube_laws kb stored dflt" and ans: "kube_answers kb stored"
  shows "\<exists>w'. run_steps (deploy_steps kb (Inr bytes) keck) w = (None, w', [])"
proof -
  have "fst (ensureNamespace kb w) = None"
    unfolding ensureNamespace_def by (rule ensure_succeeds [OF laws ans]) simp_all
  then obtain w1 where w1: "ensureNamespace kb w = (None, w1)" by (cases "ensureNamespace kb w") auto
  then have "namespace_key \<in> present stored w1" using grows_namespace [OF laws, of w] by (simp add: grows_def)
  then have "\<exists>w'. run_steps (tl (deploy_steps kb (Inr bytes) keck)) w1 = (None, w', []) \<and> namespace_key \<in> present stored w'"
    by (intro run_steps_succeed [where Q = "\<lambda>w. namespace_key \<in> present stored w"]) (rule steps_succeed [OF laws ans])
  then obtain w' where "run_steps (tl (deploy_steps kb (Inr bytes) keck)) w1 = (None, w', [])" by blast
  then show ?thesis using w1 by (simp add: deploy_steps_def)
qed

lemma deploy_brings_role:
  assumes laws: "kube_laws kb stored dflt" and ans: "kube_answers kb stored"
    and run: "run_steps (deploy_steps kb random keck) w = (None, w', evs)"
  shows "role_key \<in> present stored w'"
proof -
  have role: "grows stored {role_key} {role_key} (ensure_cluster_role kb w) w" for w
    unfolding role_ensured [OF ans] by (rule grows_ensure [OF laws]) (simp_all add: key_of_meta object_keys)
  have "grows stored {binding_key} {binding_key} (ensure kb (ClusterRoleBindingObj (object_meta ''keck-agent'' [] commonLabels) ref subs)
      (Some replace_subjects) w) w" for ref subs w
    by (rule grows_ensure [OF laws]) (simp_all add: key_of_meta object_keys)
  then have rbac: "grows stored ({role_key} \<union> {binding_key}) ({role_key} \<union> {binding_key}) (ensureRBAC kb w) w" for w
    unfolding ensureRBAC_def by (intro grows_and_then role)
  define keys where "keys = deploy_keys[3 := ({role_key} \<union> {binding_key}, {role_key} \<union> {binding_key})]"
  have "steps_grow stored (deploy_steps kb random keck) keys"
    using rbac by (simp add: keys_def deploy_steps_def deploy_keys_def eval_nat_numeral grows_namespace [OF laws]
      grows_accounts [OF laws] grows_secret(1) [OF laws] grows_workloads [OF laws])
  from run_steps_grow [OF this run] have "\<Union> (snd ` set keys) \<subseteq> present stored w'" by auto
  then show ?thesis by (simp add: keys_def deploy_keys_def eval_nat_numeral)
qed

lemma add_finalizer_succeeds:
  assumes laws: "kube_laws kb stored dflt" and ans: "kube_answers kb stored" and "stored w (key_of (KeckClusterObj keck)) \<noteq> None"
  shows "\<exists>keck1 w1. add_finalizer kb keck w = (Inr keck1, w1)"
proof (cases "finalizerName \<in> set (meta_finalizers (kc_meta keck))")
  case True
  then show ?thesis by (simp add: add_finalizer_def)
next
  case False
  define obj where "obj = KeckClusterObj (keck\<lparr>kc_meta := (kc_meta keck)
    \<lparr>meta_finalizers := meta_finalizers (kc_meta keck) @ [finalizerName]\<rparr>\<rparr>)"
  have k: "key_of obj = key_of (KeckClusterObj keck)" by (simp add: obj_def key_of_meta)
  obtain r w1 where up: "kb_update kb obj w = (r, w1)" by (cases "kb_update kb obj w")
  with answers(3) [OF ans, of w obj] assms(3) k obtain obj' where r: "r = Inr obj'" by (cases r) auto
  have "updates_faithful kb stored dflt" and d: "dflt_faithful dflt" using laws by (simp_all add: kube_laws_def)
  from this(1) [unfolded updates_faithful_def, rule_format, OF up] r d have "key_of obj' = key_of obj" by (simp add: dflt_faithful_def)
  then obtain keck1 where "obj' = KeckClusterObj keck1" by (cases obj') (simp_all add: obj_def key_of_def)
  with False up r show ?thesis by (simp add: add_finalizer_def obj_def [symmetric] decode_keck_def)
qed

text \<open>
  C18: If the API server answers, a reconciliation of a \<open>KeckCluster\<close> that is not being deleted
  succeeds from every state: the namespace, service accounts, role and binding, API key,
  DaemonSet, Deployment with its configuration and Service are in the cluster afterwards, the
  DaemonSet carries the specification that follows from the \<open>KeckCluster\<close>, and the event
  reports the success.
\<close>

theorem reconcile_converges:
  assumes "kube_laws kb stored dflt" and "kube_answers kb stored"
    and "kb_get kb (ObjectKey KKeckCluster [] name) w = Inr (KeckClusterObj keck)"
    and "meta_deletion_timestamp (kc_meta keck) = None"
  shows "let (e, w', evs) = Reconcile kb has_recorder (Inr bytes) now name w
    in e = None \<and> needs \<union> {role_key, daemonset_key, config_key, deployment_key, service_key} \<subseteq> present stored w' \<and>
       (\<exists>m r d. stored w' daemonset_key = Some (dflt (DaemonSetObj m (agent_spec keck) r d))) \<and>
       evs = (if has_recorder then [(''Normal'', ''Reconciled'', ''Successfully reconciled all Keck resources'')] else [])"
proof -
  note laws = assms(1) and ans = assms(2)
  have d: "decode_keck (kb_get kb (ObjectKey KKeckCluster [] name) w) = Inr keck" by (simp add: decode_keck_Inr assms(3))
  have "\<exists>keck1 w1. add_finalizer kb keck w = (Inr keck1, w1)"
    by (rule add_finalizer_succeeds [OF laws ans]) (use read_facts(1,2) [OF laws assms(3)] in simp)
  then obtain keck1 w1 where a: "add_finalizer kb keck w = (Inr keck1, w1)" by blast
  obtain keck2 w2 where m: "mark_installing kb keck1 w1 = (keck2, w2)" by (cases "mark_installing kb keck1 w1")
  obtain w3 where s: "run_steps (deploy_steps kb (Inr bytes) keck2) w2 = (None, w3, [])"
    using deploy_succeeds [OF laws ans] by blast
  have "needs \<union> {daemonset_key, config_key, deployment_key, service_key} \<subseteq> present stored w3"
    by (rule deploy_complete [OF laws s])
  moreover have "present stored w3 \<subseteq> present stored (best_effort kb now keck2 w3)"
    using best_effort_grows [OF laws, of None now keck2 w3] by (simp add: grows_def)
  moreover have "\<exists>m r d. stored (best_effort kb now keck2 w3) daemonset_key = Some (dflt (DaemonSetObj m (agent_spec keck) r d))"
    using deploy_stores_daemonset [OF laws s] side_keeps [OF best_effort_grows [OF laws, of None now keck2 w3], of daemonset_key]
      agent_spec_cong [of keck2 keck] add_finalizer_facts [OF laws a] mark_installing_facts(2) [OF laws m]
    by (simp add: daemonset_key_def)
  ultimately show ?thesis
    using deploy_brings_role [OF laws ans s] d assms(4) a m s by (auto simp: Reconcile_def)
qed

theorem reconcile_converges_witness:
  "let (e, w', evs) = Reconcile map_kube True (Inr [7, 255]) 5 ''keck'' (sample_objects sample_keck)
   in e = None \<and> needs \<subseteq> present map_stored w' \<and> deployment_key \<in> present map_stored w'"
  using reconcile_converges [OF map_kube_laws map_kube_answers sample_objects_get sample_keck_meta(3), of True "[7, 255]" 5]
    sample_keck_meta by (auto split: prod.splits)

subsection \<open>Deletion\<close>

text \<open>A clean-up against a server that answers: what is listed goes, and what is not in a listed namespace stays.\<close>

lemma delete_targets_clean:
  assumes laws: "kube_laws kb stored dflt" and ans: "kube_answers kb stored"
  shows "\<exists>w'. delete_targets kb targets w = (None, w') \<and>
    (\<forall>k. stored w k = None \<longrightarrow> k \<notin> snd ` set targets \<or> key_kind k \<noteq> KNamespace \<longrightarrow> stored w' k = None) \<and>
    (\<forall>k \<in> snd ` set targets. key_kind k \<noteq> KNamespace \<longrightarrow> stored w' k = None) \<and>
    (\<forall>k. k \<notin> snd ` set targets \<and> (\<forall>t \<in> snd ` set targets. key_namespace k \<noteq> key_name t) \<longrightarrow> stored w' k = stored w k)"
proof (induction targets arbitrary: w)
  case (Cons target targets)
  obtain what key where target: "target = (what, key)" by (cases target)
  show ?case
  proof (cases "kb_get kb key w")
    case (Inl err)
    with answers(1) [OF ans, of key w] obtain m where "kb_get kb key w = Inl (NotFound m)" by auto
    with read_facts(3) [OF laws] have "stored w key = None" by blast
    with Cons.IH [of w] Inl target show ?thesis by fastforce
  next
    case (Inr obj)
    note ex = read_facts(1,2) [OF laws Inr]
    obtain e w1 where del: "kb_delete kb obj w = (e, w1)" by (cases "kb_delete kb obj w")
    have e: "e = None" using answers(4) [OF ans, of w obj] ex del by simp
    have "deletes_faithful kb stored" using laws by (simp add: kube_laws_def)
    from this [unfolded deletes_faithful_def, rule_format, OF del] ex(2) e
    have law: "\<forall>k. k = key \<or> stored w1 k = stored w k \<or> key_namespace k = key_name key \<and> stored w1 k = None"
      "key_kind key \<noteq> KNamespace \<longrightarrow> stored w1 key = None"
      by (auto simp: key_of_def)
    from Cons.IH [of w1] obtain w' where w': "delete_targets kb targets w1 = (None, w')"
      "\<forall>k. stored w1 k = None \<longrightarrow> k \<notin> snd ` set targets \<or> key_kind k \<noteq> KNamespace \<longrightarrow> stored w' k = None"
      "\<forall>k \<in> snd ` set targets. key_kind k \<noteq> KNamespace \<longrightarrow> stored w' k = None"
      "\<forall>k. k \<notin> snd ` set targets \<and> (\<forall>t \<in> snd ` set targets. key_namespace k \<noteq> key_name t) \<longrightarrow> stored w' k = stored w1 k"
      by blast
    have "delete_targets kb (target # targets) w = (None, w')" using Inr del e w'(1) target by simp
    moreover have "stored w' k = None" if "stored w k = None" "k \<notin> snd ` set (target # targets) \<or> key_kind k \<noteq> KNamespace" for k
    proof -
      have "stored w1 k = None" using law that target ex(1) by (cases "k = key") auto
      with w'(2) that(2) target show ?thesis by auto
    qed
    moreover have "\<forall>k \<in> snd ` set (target # targets). key_kind k \<noteq> KNamespace \<longrightarrow> stored w' k = None"
      using w'(2,3) law(2) target by auto
    moreover have "\<forall>k. k \<notin> snd ` set (target # targets) \<and> (\<forall>t \<in> snd ` set (target # targets). key_namespace k \<noteq> key_name t) \<longrightarrow>
        stored w' k = stored w k"
      using w'(4) law(1) target by auto
    ultimately show ?thesis by blast
  qed
qed simp



text \<open>
  An object that cannot be read at the moment is passed over: with a server that fails to read
  the role, the clean-up succeeds, the finalizer goes, and the role stays.
\<close>

definition failing_reads :: "object_key \<Rightarrow> (object_key \<Rightarrow> kube_object option) kube" where
  "failing_reads bad = map_kube\<lparr>kb_get := \<lambda>k w. if k = bad then Inl (OtherError ''timeout'') else kb_get map_kube k w\<rparr>"

lemma cleanup_skips_unreadable:
  "let w = [role_key \<mapsto> ClusterRoleObj (object_meta ''keck-agent'' [] commonLabels) agent_rules];
       (e, w') = cleanupResources (failing_reads role_key) w
   in e = None \<and> w' role_key \<noteq> None"
  by (simp add: cleanupResources_def cleanup_targets_def failing_reads_def map_kube_def map_stored_def object_keys keckNamespace_def)

text \<open>A role that cannot be read is not created either, and the step succeeds.\<close>

lemma role_error_ignored: "ensure_cluster_role (failing_reads role_key) w = (None, w)"
  by (simp add: ensure_cluster_role_def failing_reads_def key_of_meta role_key_def)

text \<open>The proxy of the controller has no place to write to.\<close>

lemma proxy_cannot_write:
  "sec_read_only_root (con_security tls_proxy) = Some True \<and> list_all vm_read_only (con_mounts tls_proxy)"
  by (simp add: tls_proxy_def locked_down_def read_only_mount_def)

subsection \<open>The agent reads what the operator wrote\<close>

text \<open>
  The environment of the agent's process holds the variables of its container that have a
  value, and none of the two below unless the container has it.
\<close>

definition runs_with :: "EnvVar list \<Rightarrow> env_vars \<Rightarrow> bool" where
  "runs_with vars env \<longleftrightarrow>
     (\<forall>v \<in> set vars. ev_value_from v = None \<longrightarrow> env (ev_name v) = Some (ev_value v)) \<and>
     (\<forall>name \<in> {''REDFISH_ENDPOINT'', ''KECK_CAPTURED_LABELS''}. name \<notin> ev_name ` set vars \<longrightarrow> env name = None)"

lemma split_join:
  assumes "xs \<noteq> []" and "list_all (\<lambda>x. c \<notin> set x) xs"
  shows "split_char c (join_strs [c] xs) = xs"
  using assms by (induction "[c]" xs rule: join_strs.induct) (simp_all add: split_char_id split_char_append)

lemma join_nonempty: "xs \<noteq> [] \<Longrightarrow> hd xs \<noteq> [] \<Longrightarrow> join_strs sep xs \<noteq> []"
  by (induction sep xs rule: join_strs.induct) simp_all

lemma label_config_join:
  assumes "labels \<noteq> []" and "list_all (\<lambda>l. l \<noteq> [] \<and> trim l = l \<and> CHR '','' \<notin> set l) labels"
  shows "label_config (Some (join_strs '','' labels)) =
    (filter (\<lambda>l. strip_suffix l ''/*'' = None) labels, List.map_filter (\<lambda>l. map_option (\<lambda>p. p @ ''/'') (strip_suffix l ''/*'')) labels)"
proof -
  have entries: "filter (\<lambda>s. s \<noteq> []) (map trim labels) = labels"
    using assms(2) by (induction labels) simp_all
  have ne: "join_strs '','' labels \<noteq> []" using assms by (intro join_nonempty) (cases labels; simp)+
  have split: "split_char (CHR '','') (join_strs '','' labels) = labels"
    using assms by (intro split_join) (auto simp: list_all_iff)
  have "fold (\<lambda>entry (exact, prefixes). case strip_suffix entry ''/*'' of Some pre \<Rightarrow> (exact, prefixes @ [pre @ ''/''])
          | None \<Rightarrow> (exact @ [entry], prefixes)) xs (a, b) =
      (a @ filter (\<lambda>l. strip_suffix l ''/*'' = None) xs, b @ List.map_filter (\<lambda>l. map_option (\<lambda>p. p @ ''/'') (strip_suffix l ''/*'')) xs)" for xs a b
    by (induction xs arbitrary: a b) (auto simp: List.map_filter_simps split: option.split)
  then show ?thesis using ne by (simp add: label_config_def or_default_def parse_label_config_def split entries)
qed

lemma redfish_entry:
  assumes "CHR ''='' \<notin> set s" and "trim s = s" and "trim ep = ep"
  shows "redfish_map_entry serial (s @ ''='' @ ep) = (if s = serial then Some ep else None)"
  using assms find_char_append [of "CHR ''=''" s ep] by (simp add: redfish_map_entry_def)

lemma redfish_lookup:
  assumes "distinct (map bmc_serial entries)" and "entry \<in> set entries"
    and "list_all (\<lambda>e. CHR ''='' \<notin> set (bmc_serial e) \<and> trim (bmc_serial e) = bmc_serial e \<and> trim (bmc_endpoint e) = bmc_endpoint e) entries"
  shows "find_map (redfish_map_entry (bmc_serial entry)) (map (\<lambda>e. bmc_serial e @ ''='' @ bmc_endpoint e) entries) =
    Some (bmc_endpoint entry)"
  using assms
proof (induction entries)
  case (Cons e entries)
  have e: "redfish_map_entry (bmc_serial entry) (bmc_serial e @ ''='' @ bmc_endpoint e) =
      (if bmc_serial e = bmc_serial entry then Some (bmc_endpoint e) else None)"
    using Cons.prems(3) by (intro redfish_entry) simp_all
  show ?case
  proof (cases "bmc_serial e = bmc_serial entry")
    case True
    then have "e = entry" using Cons.prems(1,2) by (auto simp: image_iff)
    then show ?thesis using e by simp
  next
    case False
    then have "entry \<in> set entries" using Cons.prems(2) by auto
    then show ?thesis using e False Cons.IH Cons.prems by simp
  qed
qed simp

lemma redfish_env_names: "ev_name ` set (redfish_env rf) \<subseteq> {''REDFISH_MAP'', ''REDFISH_USERNAME'', ''REDFISH_PASSWORD''}"
  by (auto simp: redfish_env_def plain_env_def secret_env_def)

lemma agent_env_names:
  "''REDFISH_ENDPOINT'' \<notin> ev_name ` set (agent_env keck)"
  "asp_captured_labels (kcs_agent (kc_spec keck)) = [] \<Longrightarrow> ''KECK_CAPTURED_LABELS'' \<notin> ev_name ` set (agent_env keck)"
  using redfish_env_names
  by (cases "asp_redfish (kcs_agent (kc_spec keck))"; fastforce simp: agent_env_def Let_def plain_env_def secret_env_def image_Un)+

text \<open>
  C20: An agent that runs with the environment of the container the operator specifies reads
  back the configuration of the \<open>KeckCluster\<close>: it captures the configured labels, those that
  end in \<open>/*\<close> as prefixes, or the default ones if there are none; and on the node with a
  configured serial number it finds the endpoint that the configuration has for it.
\<close>

theorem agent_reads_configuration:
  assumes "runs_with (agent_env keck) env" and "spec = kcs_agent (kc_spec keck)"
    and "list_all (\<lambda>l. l \<noteq> [] \<and> trim l = l \<and> CHR '','' \<notin> set l) (asp_captured_labels spec)"
    and "asp_redfish spec = Some rf" and "distinct (map bmc_serial (rfs_node_bmc_map rf))" and "entry \<in> set (rfs_node_bmc_map rf)"
    and "list_all (\<lambda>e. CHR ''='' \<notin> set (bmc_serial e) \<and> CHR '','' \<notin> set (bmc_serial e @ bmc_endpoint e) \<and>
           trim (bmc_serial e) = bmc_serial e \<and> trim (bmc_endpoint e) = bmc_endpoint e) (rfs_node_bmc_map rf)"
    and "read_trimmed fs (sysfs_root fs @ ''/class/dmi/id/product_serial'') [] = bmc_serial entry" and "bmc_serial entry \<noteq> []"
  shows "redfish_endpoint fs env = Inr (bmc_endpoint entry) \<and>
    label_config (env ''KECK_CAPTURED_LABELS'') =
      (let labels = asp_captured_labels spec
       in if labels = [] then (DEFAULT_CAPTURED_LABELS, DEFAULT_CAPTURED_PREFIXES)
          else (filter (\<lambda>l. strip_suffix l ''/*'' = None) labels,
                List.map_filter (\<lambda>l. map_option (\<lambda>p. p @ ''/'') (strip_suffix l ''/*'')) labels))"
proof
  let ?entries = "map (\<lambda>e. bmc_serial e @ ''='' @ bmc_endpoint e) (rfs_node_bmc_map rf)"
  have ne: "rfs_node_bmc_map rf \<noteq> []" using assms(6) by auto
  have vars: "plain_env ''REDFISH_MAP'' (join_strs '','' ?entries) \<in> set (agent_env keck)"
    using ne assms(2,4) by (simp add: agent_env_def redfish_env_def Let_def)
  have "env ''REDFISH_MAP'' = Some (join_strs '','' ?entries)"
    using assms(1) vars unfolding runs_with_def by (force simp: plain_env_def)
  moreover have "env ''REDFISH_ENDPOINT'' = None"
    using assms(1) agent_env_names(1) unfolding runs_with_def by simp
  moreover have "split_char (CHR '','') (join_strs '','' ?entries) = ?entries"
    using ne assms(7) by (intro split_join) (auto simp: list_all_iff)
  moreover have "find_map (redfish_map_entry (bmc_serial entry)) ?entries = Some (bmc_endpoint entry)"
    using assms(7) by (intro redfish_lookup [OF assms(5,6)]) (auto simp: list_all_iff)
  ultimately show "redfish_endpoint fs env = Inr (bmc_endpoint entry)"
    using assms(8,9) by (simp add: redfish_endpoint_def ok_or_def)
  show "label_config (env ''KECK_CAPTURED_LABELS'') =
      (let labels = asp_captured_labels spec
       in if labels = [] then (DEFAULT_CAPTURED_LABELS, DEFAULT_CAPTURED_PREFIXES)
          else (filter (\<lambda>l. strip_suffix l ''/*'' = None) labels,
                List.map_filter (\<lambda>l. map_option (\<lambda>p. p @ ''/'') (strip_suffix l ''/*'')) labels))"
  proof (cases "asp_captured_labels spec = []")
    case True
    then have "env ''KECK_CAPTURED_LABELS'' = None"
      using assms(1,2) agent_env_names(2) unfolding runs_with_def by simp
    with True show ?thesis by (simp add: label_config_def or_default_def)
  next
    case False
    then have "plain_env ''KECK_CAPTURED_LABELS'' (join_strs '','' (asp_captured_labels spec)) \<in> set (agent_env keck)"
      using assms(2) by (simp add: agent_env_def Let_def)
    then have "env ''KECK_CAPTURED_LABELS'' = Some (join_strs '','' (asp_captured_labels spec))"
      using assms(1) unfolding runs_with_def by (force simp: plain_env_def)
    with label_config_join [OF False assms(3)] False show ?thesis by (simp add: Let_def)
  qed
qed

definition sample_agent_env :: env_vars where
  "sample_agent_env = map_of [(''KECK_CONTROLLER_URL'', ''http://keck-controller.keck-system.svc:8080''), (''KECK_PROFILE'', ''standard''),
     (''KECK_CAPTURED_LABELS'', ''olm.owner,team/*''), (''REDFISH_MAP'', ''ABC1=https://10.0.0.1,DEF2=https://10.0.0.2'')]"

definition sample_dmi :: file_system where
  "sample_dmi = \<lparr>fs_read = [''/sys/class/dmi/id/product_serial'' \<mapsto> ''DEF2 ''], fs_dir = \<lambda>_. None, fs_exists = \<lambda>_. False\<rparr>"

theorem agent_reads_configuration_witness:
  "redfish_endpoint sample_dmi sample_agent_env = Inr ''https://10.0.0.2'' \<and>
   label_config (sample_agent_env ''KECK_CAPTURED_LABELS'') = ([''olm.owner''], [''team/''])"
proof -
  define rf where "rf = the (asp_redfish (kcs_agent (kc_spec sample_keck)))"
  have 1: "runs_with (agent_env sample_keck) sample_agent_env"
    by (simp add: runs_with_def agent_env_def redfish_env_def plain_env_def secret_env_def sample_keck_def sample_agent_env_def)
  have 2: "list_all (\<lambda>l. l \<noteq> [] \<and> trim l = l \<and> CHR '','' \<notin> set l) (asp_captured_labels (kcs_agent (kc_spec sample_keck)))"
    by (simp add: sample_keck_def trim_def is_ws_def)
  have 3: "asp_redfish (kcs_agent (kc_spec sample_keck)) = Some rf" by (simp add: rf_def sample_keck_def)
  have 4: "distinct (map bmc_serial (rfs_node_bmc_map rf))" by (simp add: rf_def sample_keck_def)
  have 5: "\<lparr>bmc_serial = ''DEF2'', bmc_endpoint = ''https://10.0.0.2''\<rparr> \<in> set (rfs_node_bmc_map rf)" by (simp add: rf_def sample_keck_def)
  have 6: "list_all (\<lambda>e. CHR ''='' \<notin> set (bmc_serial e) \<and> CHR '','' \<notin> set (bmc_serial e @ bmc_endpoint e) \<and>
      trim (bmc_serial e) = bmc_serial e \<and> trim (bmc_endpoint e) = bmc_endpoint e) (rfs_node_bmc_map rf)"
    by (simp add: rf_def sample_keck_def trim_def is_ws_def)
  have 7: "read_trimmed sample_dmi (sysfs_root sample_dmi @ ''/class/dmi/id/product_serial'') [] = ''DEF2''"
    by (simp add: read_trimmed_def sample_dmi_def sysfs_root_def trim_def is_ws_def)
  have 8: "asp_captured_labels (kcs_agent (kc_spec sample_keck)) = [''olm.owner'', ''team/*'']" by (simp add: sample_keck_def)
  have 9: "strip_suffix ''olm.owner'' ''/*'' = None" "strip_suffix ''team/*'' ''/*'' = Some ''team''" by code_simp+
  from agent_reads_configuration [OF 1 refl 2 3 4 5 6, of sample_dmi] 7 show ?thesis
    by (simp add: 8 9 List.map_filter_simps)
qed

end
