(* ===== verification/Calibrate.thy ===== *)
theory Calibrate
  imports F64_Mono
begin

text \<open>
  The fit of the model's coefficients in the calibration script (\<open>scripts/calibrate.py\<close>): the
  statistics it reads from \<open>perf\<close>, the predicted ratios, and the grid search.  A Python
  \<open>float\<close> is a binary64 number.  Squaring a finite number whose square is too large raises
  an \<open>OverflowError\<close>, and so does the quotient of two integers.  The two nested loops of the
  search run as long as the source's do, so they are partial.
\<close>

datatype py_error = OverflowError

record WorkloadProfile =
  wp_name :: str
  wp_avg_cpu_uw :: f64
  wp_ipc :: f64
  wp_miss_ratio :: f64

subsection \<open>Statistics\<close>

text \<open>The white space of \<open>str.strip\<close> and \<open>str.split\<close> also has the four separators 28 to 31.\<close>

definition py_ws :: "char \<Rightarrow> bool" where
  "py_ws c \<longleftrightarrow> is_ws c \<or> (of_char c :: nat) \<in> {28, 29, 30, 31}"

definition py_strip :: "str \<Rightarrow> str" where
  "py_strip s = rev (dropWhile py_ws (rev (dropWhile py_ws s)))"

definition py_split :: "str \<Rightarrow> str list" where
  "py_split s = filter (\<lambda>p. p \<noteq> []) (split_char (CHR '' '') (map (\<lambda>c. if py_ws c then CHR '' '' else c) s))"

text \<open>\<open>int(s)\<close>: an optional sign and digits, with single underscores between them.\<close>

fun py_digits :: "bool \<Rightarrow> int \<Rightarrow> str \<Rightarrow> int option" where
  "py_digits after n [] = (if after then Some n else None)"
| "py_digits after n (c # cs) =
     (if is_digit c then py_digits True (n * 10 + digit_val c) cs
      else if c = CHR ''_'' \<and> after then py_digits False n cs else None)"

definition py_int :: "str \<Rightarrow> int option" where
  "py_int s =
     (case s of
        [] \<Rightarrow> None
      | c # cs \<Rightarrow> if c = CHR ''-'' then map_option uminus (py_digits False 0 cs)
                  else if c = CHR ''+'' then py_digits False 0 cs else py_digits False 0 s)"

definition py_div :: "int \<Rightarrow> int \<Rightarrow> py_error + f64" where
  "py_div a b = (case rnd (of_int a / of_int b) of Fin q \<Rightarrow> Inr (Fin q) | _ \<Rightarrow> Inl OverflowError)"

definition perf_line :: "str \<Rightarrow> int \<times> int \<times> int \<Rightarrow> int \<times> int \<times> int" where
  "perf_line raw counts =
     (let (instructions, cycles, misses) = counts;
          line = filter (\<lambda>c. c \<noteq> CHR '','') (py_strip raw);
          parts = py_split line
      in if length parts < 2 then counts
         else (case py_int (hd parts) of
                 None \<Rightarrow> counts
               | Some val \<Rightarrow>
                   if str_contains line ''instructions'' then (val, cycles, misses)
                   else if str_contains line ''cycles'' then (instructions, val, misses)
                   else if str_contains line ''cache-misses'' then (instructions, cycles, val)
                   else counts))"

text \<open>\<open>output\<close> is the text \<open>run\<close> returns for the \<open>perf\<close> command, none where the command fails.\<close>

definition get_perf_stats :: "str option \<Rightarrow> py_error + f64 \<times> f64" where
  "get_perf_stats output =
     (case output of
        None \<Rightarrow> Inr (f64_lit (15 / 10), f64_lit (1 / 100))
      | Some text \<Rightarrow>
          let (instructions, cycles, misses) = fold perf_line (split_char newline text) (0, 0, 0)
          in (case (if 0 < cycles then py_div instructions cycles else Inr (f64_lit (15 / 10))) of
                Inl e \<Rightarrow> Inl e
              | Inr ipc \<Rightarrow>
                  (case (if 0 < instructions then py_div misses instructions else Inr (f64_lit (1 / 100))) of
                     Inl e \<Rightarrow> Inl e
                   | Inr miss_ratio \<Rightarrow> Inr (ipc, miss_ratio))))"

subsection \<open>The error of a pair of coefficients\<close>

definition predict_ratio :: "WorkloadProfile \<Rightarrow> WorkloadProfile \<Rightarrow> f64 \<Rightarrow> f64 \<Rightarrow> f64" where
  "predict_ratio profile_a profile_b alpha beta =
     (let weight_a = f64_lit 1 + alpha * wp_ipc profile_a + beta * wp_miss_ratio profile_a;
          weight_b = f64_lit 1 + alpha * wp_ipc profile_b + beta * wp_miss_ratio profile_b
      in if weight_b \<le> f64_lit 0 then PInf else weight_a / weight_b)"

type_synonym ratio_pair = "WorkloadProfile \<times> WorkloadProfile \<times> f64"

fun profile_pairs :: "WorkloadProfile list \<Rightarrow> ratio_pair list" where
  "profile_pairs [] = []"
| "profile_pairs (p # ps) =
     List.map_filter (\<lambda>q. if wp_avg_cpu_uw q > f64_lit 0 then Some (p, q, wp_avg_cpu_uw p / wp_avg_cpu_uw q) else None) ps @
     profile_pairs ps"

definition py_square :: "f64 \<Rightarrow> py_error + f64" where
  "py_square x =
     (case x of
        Fin q \<Rightarrow> (case f64_sq x of Fin r \<Rightarrow> Inr (Fin r) | _ \<Rightarrow> Inl OverflowError)
      | _ \<Rightarrow> Inr (f64_sq x))"

fun point_error :: "ratio_pair list \<Rightarrow> f64 \<Rightarrow> f64 \<Rightarrow> f64 \<Rightarrow> py_error + f64" where
  "point_error [] a b error = Inr error"
| "point_error ((pa, pb, gt) # pairs) a b error =
     (case py_square (predict_ratio pa pb a b - gt) of
        Inl e \<Rightarrow> Inl e
      | Inr sq \<Rightarrow> point_error pairs a b (error + sq))"

type_synonym best_fit = "f64 \<times> f64 \<times> f64"

definition try_point :: "ratio_pair list \<Rightarrow> f64 \<Rightarrow> f64 \<Rightarrow> best_fit \<Rightarrow> py_error + best_fit" where
  "try_point pairs a b best =
     (case point_error pairs a b (f64_lit 0) of
        Inl e \<Rightarrow> Inl e
      | Inr error \<Rightarrow> Inr (if error < snd (snd best) then (a, b, error) else best))"

subsection \<open>The search\<close>

partial_function (option) search_beta ::
  "ratio_pair list \<Rightarrow> f64 \<Rightarrow> f64 \<Rightarrow> f64 \<Rightarrow> f64 \<Rightarrow> best_fit \<Rightarrow> (py_error + best_fit) option" where
  "search_beta pairs b_max b_step a b best =
     (if b \<le> b_max
      then (case try_point pairs a b best of
              Inl e \<Rightarrow> Some (Inl e)
            | Inr best' \<Rightarrow> search_beta pairs b_max b_step a (b + b_step) best')
      else Some (Inr best))"

partial_function (option) search_alpha ::
  "ratio_pair list \<Rightarrow> f64 \<times> f64 \<times> f64 \<Rightarrow> f64 \<Rightarrow> f64 \<Rightarrow> f64 \<Rightarrow> best_fit \<Rightarrow> (py_error + best_fit) option" where
  "search_alpha pairs beta_range a_max a_step a best =
     (if a \<le> a_max
      then Option.bind (case beta_range of (b_min, b_max, b_step) \<Rightarrow> search_beta pairs b_max b_step a b_min best)
             (\<lambda>r. case r of
                    Inl e \<Rightarrow> Some (Inl e)
                  | Inr best' \<Rightarrow> search_alpha pairs beta_range a_max a_step (a + a_step) best')
      else Some (Inr best))"

definition fit_coefficients ::
  "WorkloadProfile list \<Rightarrow> f64 \<times> f64 \<times> f64 \<Rightarrow> f64 \<times> f64 \<times> f64 \<Rightarrow> (py_error + best_fit) option" where
  "fit_coefficients profiles alpha_range beta_range =
     (let pairs = profile_pairs profiles; default = (f64_lit (3 / 10), f64_lit (15 / 10), PInf);
          (a_min, a_max, a_step) = alpha_range
      in if pairs = [] then Some (Inr default)
         else search_alpha pairs beta_range a_max a_step a_min default)"

subsection \<open>The points of the grid\<close>

text \<open>The values a loop goes through: from \<open>x\<close> in steps of \<open>st\<close> while they are at most \<open>mx\<close>.\<close>

fun is_grid :: "f64 \<Rightarrow> f64 \<Rightarrow> f64 \<Rightarrow> f64 list \<Rightarrow> bool" where
  "is_grid x mx st [] \<longleftrightarrow> \<not> x \<le> mx"
| "is_grid x mx st (y # ys) \<longleftrightarrow> x \<le> mx \<and> y = x \<and> is_grid (x + st) mx st ys"

text \<open>
  In the range below, a step makes progress of at least half its size in spite of the
  rounding, so the loop ends.
\<close>

definition range_ok :: "f64 \<times> f64 \<times> f64 \<Rightarrow> bool" where
  "range_ok r = (case r of (lo, hi, st) \<Rightarrow>
     bounded_f64 10 lo \<and> bounded_f64 10 hi \<and> bounded_f64 10 st \<and> f64_lit (2 powi (- 30)) \<le> st)"

lemma step_progress:
  assumes "0 \<le> x" and "x \<le> 2 powi 10" and "2 powi (- 30) \<le> s" and "s \<le> 2 powi 10"
  shows "\<exists>y. Fin x + Fin s = Fin y \<and> x + s / 2 \<le> y"
proof -
  have s0: "0 < s" using assms(3) by (rule less_le_trans [OF pow2_pos])
  have sum: "0 \<le> x + s" "x + s \<le> 2 powi 11" using assms s0 by simp_all
  then obtain y where y: "rnd (x + s) = Fin y" using rnd_finite [of "x + s" 11] by auto
  have "\<bar>y - (x + s)\<bar> \<le> 2 powi 11 * 2 powi (- 53)"
    by (rule rnd_abs_error [OF sum _ y]) simp
  also have "\<dots> \<le> (2 :: rat) powi (- 31)" by (simp add: power_int_minus)
  also have "\<dots> = 2 powi (- 30) / 2" by (simp add: power_int_minus)
  also have "\<dots> \<le> s / 2" using assms(3) by simp
  finally have "x + s / 2 \<le> y" by linarith
  with y show ?thesis by simp
qed

lemma grid_ends:
  assumes "0 \<le> x" and "2 powi (- 30) \<le> s" and "s \<le> 2 powi 10" and "m \<le> 2 powi 10"
  shows "\<exists>xs. is_grid (Fin x) (Fin m) (Fin s) xs"
proof -
  have s0: "0 < s" using assms(2) by (rule less_le_trans [OF pow2_pos])
  show ?thesis
    using assms(1)
  proof (induction "nat \<lceil>(m - x) / (s / 2)\<rceil>" arbitrary: x rule: less_induct)
    case less
    show ?case
    proof (cases "x \<le> m")
      case False
      then have "is_grid (Fin x) (Fin m) (Fin s) []" by simp
      then show ?thesis by blast
    next
      case True
      obtain y where y: "Fin x + Fin s = Fin y" "x + s / 2 \<le> y"
        using step_progress [of x s] less.prems True assms by auto
      have y0: "0 \<le> y" using y(2) less.prems s0 by simp
      show ?thesis
      proof (cases "y \<le> m")
        case le: True
        have "(m - y) / (s / 2) \<le> (m - x) / (s / 2) - 1"
          using divide_right_mono [of "m - y" "m - x - s / 2" "s / 2"] y(2) s0 by (simp add: diff_divide_distrib)
        moreover have "0 \<le> (m - y) / (s / 2)" using le s0 by simp
        ultimately have "nat \<lceil>(m - y) / (s / 2)\<rceil> < nat \<lceil>(m - x) / (s / 2)\<rceil>" by linarith
        from less.hyps [OF this y0] obtain ys where "is_grid (Fin y) (Fin m) (Fin s) ys" by blast
        then have "is_grid (Fin x) (Fin m) (Fin s) (Fin x # ys)" using True y(1) by simp
        then show ?thesis by blast
      next
        case False
        then have "is_grid (Fin x) (Fin m) (Fin s) [Fin x]" using True y(1) by simp
        then show ?thesis by blast
      qed
    qed
  qed
qed

lemma lit_step: "f64_lit (2 powi (- 30)) = Fin (2 powi (- 30))"
  unfolding f64_lit_def by (rule rnd_repr [OF repr_pow2]) simp_all

lemma range_grid:
  assumes "range_ok (lo, hi, st)"
  shows "\<exists>xs. is_grid lo hi st xs"
proof -
  from assms have b: "bounded_f64 10 lo" "bounded_f64 10 hi" "bounded_f64 10 st" and st: "Fin (2 powi (- 30)) \<le> st"
    by (simp_all only: range_ok_def lit_step prod.case)
  from b(1) obtain x where x: "lo = Fin x" "0 \<le> x" by (rule bounded_f64E)
  from b(2) obtain m where m: "hi = Fin m" "m \<le> 2 powi 10" by (rule bounded_f64E)
  from b(3) obtain s where s: "st = Fin s" "s \<le> 2 powi 10" by (rule bounded_f64E)
  from st have "2 powi (- 30) \<le> s" by (simp add: s(1))
  from grid_ends [OF x(2) this s(2) m(2)] show ?thesis by (simp add: x m s)
qed

text \<open>The search as a fold over the points of the grid, with the first error.\<close>

fun try_points :: "ratio_pair list \<Rightarrow> (f64 \<times> f64) list \<Rightarrow> best_fit \<Rightarrow> py_error + best_fit" where
  "try_points pairs [] best = Inr best"
| "try_points pairs ((a, b) # points) best =
     (case try_point pairs a b best of Inl e \<Rightarrow> Inl e | Inr best' \<Rightarrow> try_points pairs points best')"

lemma try_points_append:
  "try_points pairs (ps @ qs) best =
   (case try_points pairs ps best of Inl e \<Rightarrow> Inl e | Inr best' \<Rightarrow> try_points pairs qs best')"
  by (induction pairs ps best rule: try_points.induct) (auto split: sum.split)

lemma search_beta_grid:
  "is_grid b b_max b_step bs \<Longrightarrow>
   search_beta pairs b_max b_step a b best = Some (try_points pairs (map (Pair a) bs) best)"
proof (induction b b_max b_step bs arbitrary: best rule: is_grid.induct)
  case (1 b b_max b_step)
  then show ?case by (simp add: search_beta.simps [of _ b_max])
next
  case (2 b b_max b_step y ys)
  then show ?case by (subst search_beta.simps) (simp split: sum.split)
qed

lemma search_alpha_grid:
  assumes "is_grid b_min b_max b_step bs"
  shows "is_grid a a_max a_step as \<Longrightarrow>
    search_alpha pairs (b_min, b_max, b_step) a_max a_step a best = Some (try_points pairs (List.product as bs) best)"
proof (induction a a_max a_step as arbitrary: best rule: is_grid.induct)
  case (1 a a_max a_step)
  then show ?case by (simp add: search_alpha.simps [of _ _ a_max])
next
  case (2 a a_max a_step y ys)
  then show ?case
    by (subst search_alpha.simps) (simp add: search_beta_grid [OF assms] try_points_append split: sum.split)
qed

lemma f64_less_trans: "x < y \<Longrightarrow> y < z \<Longrightarrow> x < z" for x y z :: f64
  by (cases x; cases y; cases z) (simp_all add: less_f64_def)

text \<open>What the fold leaves: an error that no point before beats, at the point it came from.\<close>

lemma try_points_best:
  assumes "try_points pairs points best = Inr (a, b, e)"
  shows "(\<forall>(x, y) \<in> set points. \<exists>err. point_error pairs x y (f64_lit 0) = Inr err \<and> \<not> err < e) \<and>
    ((a, b, e) = best \<or> (a, b) \<in> set points \<and> point_error pairs a b (f64_lit 0) = Inr e \<and> e < snd (snd best))"
  using assms
proof (induction pairs points best rule: try_points.induct)
  case (2 pairs x y points best)
  from "2.prems" obtain best' where t: "try_point pairs x y best = Inr best'"
    and rest: "try_points pairs points best' = Inr (a, b, e)" by (auto split: sum.splits)
  from t obtain err where err: "point_error pairs x y (f64_lit 0) = Inr err"
    and best': "best' = (if err < snd (snd best) then (x, y, err) else best)"
    by (auto simp: try_point_def split: sum.splits)
  note IH = "2.IH" [OF t rest]
  have "\<not> err < e" using IH best' f64_less_trans [of err e] by (cases "err < snd (snd best)") (auto simp: less_f64_def elim: f64_lt.elims)
  moreover have "e < snd (snd best)" if "e < err" "err < snd (snd best)" using f64_less_trans [OF that] .
  ultimately show ?case using IH err best' by (auto split: if_splits)
qed simp

lemma try_points_error:
  "try_points pairs points best = Inl e \<Longrightarrow> \<exists>(x, y) \<in> set points. point_error pairs x y (f64_lit 0) = Inl e"
proof (induction pairs points best rule: try_points.induct)
  case (2 pairs a b points best)
  then show ?case by (cases "try_point pairs a b best") (auto simp: try_point_def split: sum.splits)
qed simp

text \<open>
  C21: The search for the coefficients ends, although its loops count in floating point: the
  bounds of the ranges are at most 1024 and the steps at least \<open>2 powi (- 30)\<close>.  Its result has
  an error that no point of the grid beats, and is the error at the point returned, unless
  no point has a finite error and the default stays; the only other outcome is the
  \<open>OverflowError\<close> of a point of the grid.
\<close>

theorem grid_search_optimal:
  assumes "range_ok (a_min, a_max, a_step)" and "range_ok (b_min, b_max, b_step)" and "profile_pairs profiles \<noteq> []"
  shows "\<exists>as bs. is_grid a_min a_max a_step as \<and> is_grid b_min b_max b_step bs \<and>
    (case fit_coefficients profiles (a_min, a_max, a_step) (b_min, b_max, b_step) of
       None \<Rightarrow> False
     | Some (Inl e) \<Rightarrow> \<exists>x \<in> set as. \<exists>y \<in> set bs. point_error (profile_pairs profiles) x y (f64_lit 0) = Inl e
     | Some (Inr (a, b, e)) \<Rightarrow>
         (\<forall>x \<in> set as. \<forall>y \<in> set bs. \<exists>err. point_error (profile_pairs profiles) x y (f64_lit 0) = Inr err \<and> \<not> err < e) \<and>
         ((a, b, e) = (f64_lit (3 / 10), f64_lit (15 / 10), PInf) \<or>
          a \<in> set as \<and> b \<in> set bs \<and> point_error (profile_pairs profiles) a b (f64_lit 0) = Inr e))"
proof -
  obtain as bs where g: "is_grid a_min a_max a_step as" "is_grid b_min b_max b_step bs"
    using range_grid [OF assms(1)] range_grid [OF assms(2)] by blast
  let ?d = "(f64_lit (3 / 10), f64_lit (15 / 10), PInf)"
  have fit: "fit_coefficients profiles (a_min, a_max, a_step) (b_min, b_max, b_step) =
      Some (try_points (profile_pairs profiles) (List.product as bs) ?d)"
    using assms(3) by (simp add: fit_coefficients_def search_alpha_grid [OF g(2) g(1)])
  show ?thesis
  proof (cases "try_points (profile_pairs profiles) (List.product as bs) ?d")
    case (Inl e)
    from try_points_error [OF this] show ?thesis using g fit Inl by (intro exI [of _ as] exI [of _ bs]) auto
  next
    case (Inr r)
    obtain a b e where "r = (a, b, e)" by (cases r)
    with try_points_best [of "profile_pairs profiles" "List.product as bs" ?d a b e] Inr show ?thesis
      using g fit by (intro exI [of _ as] exI [of _ bs]) auto
  qed
qed

definition sample_profiles :: "WorkloadProfile list" where
  "sample_profiles =
     [\<lparr>wp_name = ''compute'', wp_avg_cpu_uw = Fin 2, wp_ipc = Fin 2, wp_miss_ratio = Fin 0\<rparr>,
      \<lparr>wp_name = ''memory'', wp_avg_cpu_uw = Fin 1, wp_ipc = Fin 0, wp_miss_ratio = Fin 0\<rparr>]"

theorem grid_search_optimal_witness:
  "fit_coefficients sample_profiles (Fin 0, Fin 1, Fin 1) (Fin 0, Fin 1, Fin 1) \<noteq> None"
proof -
  have b: "bounded_f64 10 (Fin 1)" using repr_of_int [of 1] by (intro bounded_f64I [of _ 1]) simp_all
  have "f64_lit (2 powi (- 30)) \<le> Fin 1"
    unfolding lit_step by (simp add: power_int_minus)
  with b have r: "range_ok (Fin 0, Fin 1, Fin 1)" unfolding range_ok_def prod.case by (intro conjI) simp_all
  have "profile_pairs sample_profiles \<noteq> []"
    by (simp add: sample_profiles_def List.map_filter_simps f64_lit_def)
  from grid_search_optimal [OF r r this] show ?thesis by (auto split: option.splits)
qed

text \<open>The script does not check the steps: with a step of zero the search never ends.\<close>

lemma zero_step_loops:
  assumes "search_beta pairs mx st a b best = Some r"
  shows "st = Fin 0 \<and> (\<exists>q. b = Fin q \<and> repr q) \<and> \<not> isl (point_error pairs a b (f64_lit 0)) \<longrightarrow> \<not> b \<le> mx"
  using assms
proof (induction rule: search_beta.raw_induct [rotated, consumes 1])
  case (1 search pairs mx st a b best r)
  show ?case
  proof (intro impI notI, elim conjE exE)
    fix q assume st: "st = Fin 0" and b: "b = Fin q" "repr q" and ok: "\<not> isl (point_error pairs a b (f64_lit 0))" and le: "b \<le> mx"
    have stay: "b + st = b" using rnd_repr [OF b(2)] by (simp add: b(1) st)
    obtain best' where "try_point pairs a b best = Inr best'"
      using ok by (cases "point_error pairs a b (f64_lit 0)") (simp_all add: try_point_def)
    with "1.hyps" le stay have "search pairs mx st a b best' = Some r" by simp
    from "1.IH" [OF this] st b ok le show False by blast
  qed
qed

end
