(* ===== verification/Spec2Isabelle.thy ===== *)
theory Spec2Isabelle
  imports Local_Store Agent_Report Agent_Identity_Facts Agent_Start Collector Carbon Fleet_Facts Operator_Correct Calibrate
begin

text \<open>
  Keck measures the power of the nodes of a Kubernetes cluster and attributes it to
  processes, pods and namespaces.  This library models its programs and proves that
  what they report is what they measured: energy and time are neither created nor counted
  twice, reports are checked before they change anything, and the views of the controller
  and of the fleet manager are the sums they claim to be.

  \<^bold>\<open>The program.\<close>  On every node, programs in the kernel (\<open>keck-ebpf\<close>) note at each
  context switch for how long a process ran.  The agent (\<open>keck-agent\<close>) drains these notes,
  reads the power sources of the node, attributes the energy, and sends a report to the
  controller (\<open>keck-controller\<close>) once per interval.  The controller keeps the latest report
  of every node, also scrapes Kepler's metrics into the same store under another metering
  method, and serves views, metrics and scheduling decisions from it.  The fleet manager
  (\<open>keck-fleet\<close>) keeps the latest report of every cluster and checks policies against them.
  The operator (\<open>keck-operator\<close>, in Go) deploys agents and controller in a cluster.

  \<^bold>\<open>Foundations.\<close>
  \<^item> \<open>Prelude\<close>: machine words, saturating subtraction, panics as values of \<open>rust_panic\<close>, and the
    collection \<open>unat_simps\<close> that turns word arithmetic into arithmetic on \<open>nat\<close>.
  \<^item> \<open>Hash_Map\<close>: a \<open>HashMap\<close> is an association list in an arbitrary order of iteration.  The
    locale \<open>keyed_store\<close> holds what an insert-or-update store promises and the facts on folds
    of such updates; \<open>summed_store\<close> extends it by totals.  Both are interpreted on the
    association lists, and the engine, the enrichment, the aggregator and the fleet registry
    rest on these interpretations.
  \<^item> \<open>F64\<close>, \<open>F64_Mono\<close>: executable binary64 arithmetic with rounding to nearest even, the
    conversions from and to \<open>u64\<close>, and monotonicity.  \<open>Apportion\<close>: the shape
    \<open>(amount as f64 * (w / total)) as u64\<close> in which the sources divide an amount, and the
    bounds on how much rounding creates (nothing) and loses (one unit per claimant).
  \<^item> \<open>Rust_Str\<close>, \<open>Rust_Parse\<close>, \<open>Json\<close>: the string methods, number syntax and JSON accessors
    the sources use.

  \<^bold>\<open>Kernel and observer.\<close>
  \<^item> \<open>Common_Types\<close> is \<open>keck-common/src/lib.rs\<close>; \<open>Ebpf_Kernel\<close> is \<open>keck-ebpf/src/main.rs\<close>: the BPF
    maps are one record and every handler a function on it, with the capacity of the maps.
    For any interleaving of handlers the time recorded on a CPU plus its idle time is the
    time between its first and last switch, and the map refines the sum per process.
  \<^item> \<open>Ebpf_Observer\<close> is \<open>drain\<close> and \<open>cleanup_dead_pids\<close> of \<open>keck-agent/src/ebpf/mod.rs\<close>.  Handlers,
    drains and cleanups are the steps of \<open>observer_step\<close>; the maps stay well-formed in every
    reachable state, and draining loses no time and reports none twice.  That a drain is
    atomic is part of the step relation; a lemma shows what is lost when it is not.
  \<^item> \<open>Ebpf_Loader\<close> is \<open>load\<close> and \<open>attach_perf_to_bpf_maps\<close>, with the descriptors they hold.
    \<open>Perf_Counters\<close> is \<open>perf_counters.rs\<close>.

  \<^bold>\<open>Attribution in the agent.\<close>
  \<^item> \<open>Attr_Types\<close>, \<open>Attr_Model\<close>, \<open>Attr_Engine\<close> are \<open>types.rs\<close>, \<open>model.rs\<close> and \<open>engine.rs\<close> under
    \<open>keck-agent/src/attribution\<close>.  \<open>Attr_Split\<close> and \<open>Attr_Conservation\<close> prove conservation from
    the sockets to the cores, from the cores to the processes, and for memory, and that the
    engine panics only when a socket without work meets zero cores per socket.  The
    iteration order of the engine's maps is an argument \<open>pid_iter\<close>.
  \<^item> \<open>Tuner\<close> is \<open>tuner.rs\<close>: the coefficients stay in their ranges.
  \<^item> \<open>K8s_Enrich\<close> is \<open>k8s/mod.rs\<close> and part of \<open>k8s/workload.rs\<close>; \<open>Local_Store\<close> is \<open>store/mod.rs\<close> and
    \<open>output/query.rs\<close>, on the locale \<open>bounded_ring\<close> that the ring buffer interprets.

  \<^bold>\<open>The agent's loop\<close> (\<open>keck-agent/src/main.rs\<close>).
  \<^item> \<open>Hardware\<close>, \<open>Hardware_Net\<close>: discovery and reading of RAPL, hwmon, DCGM and Redfish sources,
    over a file system and an HTTP client that are arguments.  \<open>Collector\<close> is
    \<open>hardware/collector.rs\<close>.
  \<^item> \<open>Agent_Sources\<close>: counters to power, and the selection of one reading per component.
  \<^item> \<open>Agent_Proc\<close>, \<open>Agent_Identity\<close>, \<open>Agent_Pods\<close>: the scan of procfs, the caches of pods and
    owners, and the attribution to pods.  \<open>Agent\<close> composes them to one round,
    \<open>Agent_Start\<close> is what precedes the loop.
  \<^item> \<open>Agent_Conservation\<close>: pods together never exceed their node.  \<open>Agent_Identity_Facts\<close>: the
    cache of owners changes no answer.  \<open>Agent_Report\<close>: a round's report passes the checks of
    the controller and is ingested.

  \<^bold>\<open>Controller.\<close>
  \<^item> \<open>Classification\<close>, \<open>Aggregator\<close>, \<open>Api\<close>, \<open>Kepler_Scraper\<close>, \<open>Scheduler\<close>, \<open>Carbon\<close> are
    \<open>application.rs\<close>, \<open>aggregator/mod.rs\<close>, \<open>api/mod.rs\<close> with \<open>metrics.rs\<close>, \<open>kepler_scraper.rs\<close>,
    \<open>scheduler/mod.rs\<close> and \<open>carbon/mod.rs\<close>; \<open>Controller\<close> is \<open>main.rs\<close>.
  \<^item> \<open>Aggregator_Facts\<close>, \<open>Api_Facts\<close>: a report replaces exactly the pods of its node and method,
    views count every node and pod once, and only an authorised and valid report changes
    the state.  \<open>agg_reach\<close> is reachability of the aggregator, \<open>controller_run\<close> that of the
    whole process with its tasks interleaved; there no total of the default view overflows.

  \<^bold>\<open>Fleet manager.\<close>  \<open>Fleet_Registry\<close> and \<open>Fleet_Policy\<close> are \<open>registry/mod.rs\<close>, \<open>policy/mod.rs\<close> and
  \<open>reporting/mod.rs\<close>.  A sort that unwraps \<open>partial_cmp\<close> is a sum type whose error is the
  panic.  \<open>Fleet_Facts\<close>: the views follow the latest reports, with the panics characterised.

  \<^bold>\<open>Operator.\<close>  \<open>Operator_Types\<close> is \<open>api/v1alpha1/types.go\<close> with the fields of the Kubernetes objects
  that the operator sets; \<open>Operator\<close> is \<open>controllers/keckcluster_controller.go\<close> and
  \<open>powerbudget_controller.go\<close>.  The Kubernetes client is a record of functions on an arbitrary
  state of the cluster.  \<open>Operator_Facts\<close> states what is relied on of the API server
  (\<open>kube_laws\<close>, and \<open>kube_answers\<close> for a server without failures) and proves for every step
  which objects it touches and brings; a server in memory satisfies the laws.
  \<open>Operator_Correct\<close>: in every run of reconciliations (\<open>operator_run\<close>) no workload lacks what
  it needs, whichever requests fail; a reconciliation converges and a deletion cleans up if
  the server answers; and the agent reads back the configuration the operator wrote.

  \<^bold>\<open>Calibration.\<close>  \<open>Calibrate\<close> is the part of \<open>scripts/calibrate.py\<close> that computes: the statistics read
  from \<open>perf\<close>, the predicted ratios and the grid search for the coefficients.  The search ends,
  and no point of its grid has a smaller error than its result.

  \<^bold>\<open>Bounds.\<close>  No definition uses fuel: loops over finite data are structural recursion, and the
  retries of the start-up recurse on the attempts left (ten, 190 seconds of waiting).  The
  endless loops of the agent and the controller are sequences of steps of unbounded length.
  The loops of the calibration are partial functions; they are shown to end for bounds up to
  1024 and steps of at least \<open>2 powi (- 30)\<close>, and not to end for a step of zero.
  Theorems on exact totals assume what keeps \<open>u64\<close> from wrapping:
  \<^item> \<open>engine_small\<close>, \<open>split_small\<close>: energies and times of one interval for which the rounding of
    binary64 is below one unit.
  \<^item> 60 million nodes and 180 million pods in the controller, each below the \<open>MAX_POWER_UW\<close> that
    \<open>validate_report\<close> enforces.
  \<^item> for a report of the agent: 25 kW per source, names of at most 512 bytes and 2000 pods, the
    limits of \<open>validate_report\<close>, and a scan whose counts fit (\<open>scan_fits\<close>).
  \<^item> at most \<open>MAX_PID_CPU_ENTRIES\<close> pairs of CPU and process between two drains; beyond that the
    kernel drops entries, as the model does.

  \<^bold>\<open>Parameters.\<close>  Contents of files, responses of HTTP servers and of the Kubernetes API, results
  of system calls, clocks and the iteration order of hash maps are arguments of the
  definitions.  Where a theorem needs more of them, for instance that an iteration order is a
  permutation (\<open>perm_iter\<close>), it is a hypothesis with an instance in the witness.

  \<^bold>\<open>Not modelled.\<close>
  \<^item> Logging, timers, the HTTP servers with their routing, and the Prometheus text encoder:
    they belong to libraries and carry no state of the program.
  \<^item> The fleet manager's servers (\<open>keck-fleet/src/api\<close>, \<open>main.rs\<close>), the agent's Prometheus
    exporter and the scheduler's webhook: the sources hold stubs.
  \<^item> The memory model of the kernel: handlers on different CPUs interleave as whole steps,
    which the per-CPU keys of the maps justify.
  \<^item> The start of the operator's manager (\<open>cmd/main.go\<close>), which is configuration of a library,
    and the \<open>PowerProfile\<close> resource, which nothing reconciles.
  \<^item> The console plugin (\<open>keck-ui\<close>, in TypeScript), which renders the API's answers in a browser,
    the release script, and what \<open>scripts/calibrate.py\<close> does with \<open>kubectl\<close> and the API to run its
    workloads: they drive other tools by their command lines.
\<close>

end
